(* ===== verification/Prelude.thy ===== *)
theory Prelude
  imports Main "HOL-Library.AList" "HOL-Library.Sublist"
begin

text \<open>
  Shared vocabulary of the development: the machine integers of the Rust code, results
  (\<open>Result<T, E>\<close> as a sum, \<open>Inl\<close> the error), hash maps keyed by strings or numbers as
  association lists with distinct keys, and the generic lemmas about them.

  A \<open>HashMap\<close> is an association list whose lookup is \<open>map_of\<close> and whose insertion is
  \<open>AList.update\<close>.  Rust leaves the iteration order of a hash map open; the model fixes
  one order, and the theorems about iteration state that the result does not depend on it.
\<close>

named_theorems res_simps \<open>unfolding of the result combinators\<close>
named_theorems smap_simps \<open>lookups in updated hash maps\<close>

type_synonym u32 = nat
type_synonym i64 = int
type_synonym 'v smap = "(string \<times> 'v) list"
type_synonym 'v nmap = "(nat \<times> 'v) list"

section \<open>Machine integers\<close>

text \<open>
  \<open>u32\<close> values are naturals below \<open>2 ^ 32\<close>, \<open>i64\<close> values integers between
  \<open>- (2 ^ 63)\<close> and \<open>2 ^ 63 - 1\<close>; the wrap-around of the release build is written out.
\<close>

definition u32_modulus :: nat where
  "u32_modulus = 4294967296"

definition u32_max :: u32 where
  "u32_max = 4294967295"

definition u32_add :: "u32 \<Rightarrow> u32 \<Rightarrow> u32" where
  "u32_add a b = (a + b) mod u32_modulus"

definition i64_min :: i64 where
  "i64_min = - 9223372036854775808"

definition i64_max :: i64 where
  "i64_max = 9223372036854775807"

definition in_i64 :: "int \<Rightarrow> bool" where
  "in_i64 i \<longleftrightarrow> i64_min \<le> i \<and> i \<le> i64_max"

definition wrap_i64 :: "int \<Rightarrow> i64" where
  "wrap_i64 i = (i + 9223372036854775808) mod 18446744073709551616 - 9223372036854775808"

definition checked_i64 :: "int \<Rightarrow> i64 option" where
  "checked_i64 i = (if in_i64 i then Some i else None)"

text \<open>Rust's integer division rounds towards zero.\<close>

definition trunc_div :: "int \<Rightarrow> int \<Rightarrow> int" where
  "trunc_div a b = sgn a * sgn b * (\<bar>a\<bar> div \<bar>b\<bar>)"

text \<open>\<open>i as u32\<close> for a non-negative \<open>i64\<close>.\<close>

definition i64_as_u32 :: "i64 \<Rightarrow> u32" where
  "i64_as_u32 i = nat i mod u32_modulus"

lemma u32_add_small: "a + b < u32_modulus \<Longrightarrow> u32_add a b = a + b"
  by (simp add: u32_add_def)

lemma u32_add_less: "u32_add a b < u32_modulus"
  by (simp add: u32_add_def u32_modulus_def)

lemma wrap_i64_in_range: "in_i64 (wrap_i64 i)"
proof -
  have "0 \<le> (i + 9223372036854775808) mod 18446744073709551616"
    "(i + 9223372036854775808) mod 18446744073709551616 < 18446744073709551616"
    by simp_all
  then show ?thesis by (simp add: in_i64_def wrap_i64_def i64_min_def i64_max_def)
qed

lemma wrap_i64_id: "in_i64 i \<Longrightarrow> wrap_i64 i = i"
  by (simp add: in_i64_def wrap_i64_def i64_min_def i64_max_def mod_pos_pos_trivial)

lemma checked_i64_Some [simp]: "checked_i64 i = Some j \<longleftrightarrow> in_i64 i \<and> j = i"
  by (auto simp: checked_i64_def)

section \<open>Results\<close>

definition bind_res :: "'e + 'a \<Rightarrow> ('a \<Rightarrow> 'e + 'b) \<Rightarrow> 'e + 'b" where
  "bind_res r f = (case r of Inl e \<Rightarrow> Inl e | Inr x \<Rightarrow> f x)"

primrec map_res :: "('a \<Rightarrow> 'e + 'b) \<Rightarrow> 'a list \<Rightarrow> 'e + 'b list" where
  "map_res f [] = Inr []"
| "map_res f (x # xs) = bind_res (f x) (\<lambda>y. bind_res (map_res f xs) (\<lambda>ys. Inr (y # ys)))"

primrec fold_res :: "('a \<Rightarrow> 's \<Rightarrow> 'e + 's) \<Rightarrow> 'a list \<Rightarrow> 's \<Rightarrow> 'e + 's" where
  "fold_res f [] s = Inr s"
| "fold_res f (x # xs) s = bind_res (f x s) (fold_res f xs)"

definition is_ok :: "'e + 'a \<Rightarrow> bool" where
  "is_ok r = (case r of Inl _ \<Rightarrow> False | Inr _ \<Rightarrow> True)"

lemma bind_res_simps [simp, res_simps]:
  "bind_res (Inl e) f = Inl e" "bind_res (Inr x) f = f x"
  by (simp_all add: bind_res_def)

lemma is_ok_simps [simp]: "is_ok (Inr x)" "\<not> is_ok (Inl e)"
  by (simp_all add: is_ok_def)

lemma bind_res_Inr: "bind_res r f = Inr y \<longleftrightarrow> (\<exists>x. r = Inr x \<and> f x = Inr y)"
  by (cases r) auto

lemma bind_res_Inl: "bind_res r f = Inl e \<longleftrightarrow> r = Inl e \<or> (\<exists>x. r = Inr x \<and> f x = Inl e)"
  by (cases r) auto

lemma bind_res_assoc: "bind_res (bind_res r f) g = bind_res r (\<lambda>x. bind_res (f x) g)"
  by (cases r) auto

lemma bind_res_cong [fundef_cong]:
  "r = r' \<Longrightarrow> (\<And>x. r' = Inr x \<Longrightarrow> f x = f' x) \<Longrightarrow> bind_res r f = bind_res r' f'"
  by (cases r') auto

lemma map_res_cong [fundef_cong]:
  "xs = ys \<Longrightarrow> (\<And>x. x \<in> set ys \<Longrightarrow> f x = g x) \<Longrightarrow> map_res f xs = map_res g ys"
proof (induction xs arbitrary: ys)
  case Nil
  then show ?case by auto
next
  case (Cons x xs)
  have "map_res f xs = map_res g xs" by (rule Cons.IH) (use Cons.prems in auto)
  with Cons.prems show ?case by auto
qed

lemma map_res_length: "map_res f xs = Inr ys \<Longrightarrow> length ys = length xs"
  by (induction xs arbitrary: ys) (auto simp: bind_res_Inr)

lemma fold_res_append: "fold_res f (xs @ ys) s = bind_res (fold_res f xs s) (fold_res f ys)"
proof (induction xs arbitrary: s)
  case Nil
  then show ?case by simp
next
  case (Cons x xs)
  then have "fold_res f (xs @ ys) = (\<lambda>u. bind_res (fold_res f xs u) (fold_res f ys))" by auto
  then show ?case by (simp add: bind_res_assoc)
qed

lemma fold_res_cong:
  "(\<And>x s. x \<in> set xs \<Longrightarrow> f x s = g x s) \<Longrightarrow> fold_res f xs s = fold_res g xs s"
  by (induction xs arbitrary: s) (auto intro: bind_res_cong)

lemma fold_res_invariant:
  assumes "fold_res f xs s = Inr t" "P s"
    and "\<And>x s t. x \<in> set xs \<Longrightarrow> P s \<Longrightarrow> f x s = Inr t \<Longrightarrow> P t"
  shows "P t"
  using assms
proof (induction xs arbitrary: s)
  case Nil
  then show ?case by simp
next
  case (Cons x xs)
  from Cons.prems(1) obtain u where u: "f x s = Inr u" "fold_res f xs u = Inr t"
    by (auto simp: bind_res_Inr)
  from Cons.prems(2,3) u(1) have "P u" by (meson list.set_intros(1))
  with u(2) Cons.prems(3) show ?case by (auto intro: Cons.IH)
qed

lemma fold_res_never:
  assumes "P s"
    and "\<And>x s t. x \<in> set xs \<Longrightarrow> P s \<Longrightarrow> f x s = Inr t \<Longrightarrow> P t"
    and "\<And>x s. x \<in> set xs \<Longrightarrow> P s \<Longrightarrow> f x s \<noteq> Inl e"
  shows "fold_res f xs s \<noteq> Inl e"
  using assms
proof (induction xs arbitrary: s)
  case Nil
  then show ?case by simp
next
  case (Cons x xs)
  show ?case
  proof (cases "f x s")
    case (Inl e')
    with Cons.prems(1,3) show ?thesis by auto
  next
    case (Inr u)
    with Cons.prems(1,2) have "P u" by (meson list.set_intros(1))
    then have "fold_res f xs u \<noteq> Inl e"
      by (rule Cons.IH) (use Cons.prems in \<open>auto intro: list.set_intros\<close>)
    with Inr show ?thesis by simp
  qed
qed

section \<open>Hash maps\<close>

definition upd :: "'k \<Rightarrow> 'v \<Rightarrow> ('k \<times> 'v) list \<Rightarrow> ('k \<times> 'v) list" where
  "upd k v m = AList.update k v m"

text \<open>\<open>entry(k).or_insert(v)\<close> and \<open>entry(k).and_modify(f).or_insert(v)\<close>.\<close>

definition or_insert :: "'k \<Rightarrow> 'v \<Rightarrow> ('k \<times> 'v) list \<Rightarrow> ('k \<times> 'v) list" where
  "or_insert k v m = (case map_of m k of None \<Rightarrow> upd k v m | Some _ \<Rightarrow> m)"

definition modify_or_insert ::
  "'k \<Rightarrow> ('v \<Rightarrow> 'v) \<Rightarrow> 'v \<Rightarrow> ('k \<times> 'v) list \<Rightarrow> ('k \<times> 'v) list" where
  "modify_or_insert k f v m =
     (case map_of m k of None \<Rightarrow> upd k v m | Some x \<Rightarrow> upd k (f x) m)"

definition remove_key :: "'k \<Rightarrow> ('k \<times> 'v) list \<Rightarrow> ('k \<times> 'v) list" where
  "remove_key k m = filter (\<lambda>p. fst p \<noteq> k) m"

definition wf_map :: "('k \<times> 'v) list \<Rightarrow> bool" where
  "wf_map m \<longleftrightarrow> distinct (map fst m)"

lemma map_of_upd [simp, smap_simps]: "map_of (upd k v m) = (map_of m)(k \<mapsto> v)"
  by (simp add: upd_def update_conv')

lemma map_of_or_insert [smap_simps]:
  "map_of (or_insert k v m) = (if map_of m k = None then (map_of m)(k \<mapsto> v) else map_of m)"
  by (auto simp: or_insert_def split: option.splits)

lemma map_of_modify_or_insert [smap_simps]:
  "map_of (modify_or_insert k f v m) =
     (map_of m)(k \<mapsto> (case map_of m k of None \<Rightarrow> v | Some x \<Rightarrow> f x))"
  by (auto simp: modify_or_insert_def split: option.splits)

lemma map_of_remove_key [smap_simps]: "map_of (remove_key k m) = (map_of m)(k := None)"
  by (induction m) (auto simp: remove_key_def)

lemma wf_map_Nil [simp]: "wf_map []"
  by (simp add: wf_map_def)

lemma wf_map_upd [simp]: "wf_map m \<Longrightarrow> wf_map (upd k v m)"
  by (simp add: wf_map_def upd_def distinct_update)

lemma wf_map_or_insert [simp]: "wf_map m \<Longrightarrow> wf_map (or_insert k v m)"
  by (simp add: or_insert_def split: option.splits)

lemma wf_map_modify_or_insert [simp]: "wf_map m \<Longrightarrow> wf_map (modify_or_insert k f v m)"
  by (simp add: modify_or_insert_def split: option.splits)

lemma wf_map_remove_key [simp]: "wf_map m \<Longrightarrow> wf_map (remove_key k m)"
  by (auto simp: wf_map_def remove_key_def distinct_map_filter)

lemma upd_same: "map_of m k = Some v \<Longrightarrow> upd k v m = m"
  unfolding upd_def by (induction m) (auto split: if_splits)

lemma map_of_fold_upd:
  "map_of (fold (\<lambda>(k, v). upd k v) ps m) = map_of m ++ map_of (rev ps)"
  by (induction ps arbitrary: m) (auto simp: map_add_def fun_eq_iff split: option.splits)

section \<open>Lists\<close>

definition list_at :: "'a list \<Rightarrow> nat \<Rightarrow> 'a option" where
  "list_at xs i = (if i < length xs then Some (xs ! i) else None)"

lemma list_at_Some: "list_at xs i = Some x \<longleftrightarrow> i < length xs \<and> xs ! i = x"
  by (auto simp: list_at_def)

text \<open>\<open>iter.next_back()\<close>: the last element.\<close>

definition last_opt :: "'a list \<Rightarrow> 'a option" where
  "last_opt xs = (if xs = [] then None else Some (last xs))"

definition first_opt :: "'a list \<Rightarrow> 'a option" where
  "first_opt xs = (case xs of [] \<Rightarrow> None | x # _ \<Rightarrow> Some x)"

lemma find_Some_mem: "find P xs = Some x \<Longrightarrow> x \<in> set xs \<and> P x"
  by (auto simp: find_Some_iff)

lemma list_sum_update:
  "i < length xs \<Longrightarrow> sum_list (xs[i := (x :: nat)]) + xs ! i = sum_list xs + x"
  by (induction xs arbitrary: i) (auto split: nat.splits)

text \<open>Looking for a row by a key the rows keep.\<close>

lemma find_map_keyed: "(\<And>x. f (h x) = f x) \<Longrightarrow> find (\<lambda>x. f x = i) (map h xs) = map_option h (find (\<lambda>x. f x = i) xs)"
  by (induction xs) auto

end
