(* ===== verification/Strings.thy ===== *)
theory Strings
  imports Prelude
begin

text \<open>
  The parts of Rust's \<open>str\<close> the code uses.  A \<open>string\<close> of the model is the list of the
  UTF-8 bytes of a Rust string, so \<open>length\<close> is \<open>str::len\<close>, positions are byte offsets and
  a slice is \<open>take\<close> and \<open>drop\<close>; \<open>chars().count()\<close> counts the bytes that do not continue a
  code point.  Every position the code slices at is that of an ASCII byte, hence a
  character boundary.  Upper-casing is modelled on ASCII letters.
\<close>

section \<open>Searching and slicing\<close>

definition starts_with :: "string \<Rightarrow> string \<Rightarrow> bool" where
  "starts_with s p \<longleftrightarrow> take (length p) s = p"

definition ends_with :: "string \<Rightarrow> string \<Rightarrow> bool" where
  "ends_with s p \<longleftrightarrow> length p \<le> length s \<and> drop (length s - length p) s = p"

primrec find_str :: "string \<Rightarrow> string \<Rightarrow> nat option" where
  "find_str p [] = (if p = [] then Some 0 else None)"
| "find_str p (c # cs) =
     (if starts_with (c # cs) p then Some 0 else map_option Suc (find_str p cs))"

definition contains :: "string \<Rightarrow> string \<Rightarrow> bool" where
  "contains s p \<longleftrightarrow> find_str p s \<noteq> None"

definition slice :: "string \<Rightarrow> nat \<Rightarrow> nat \<Rightarrow> string" where
  "slice s a b = take (b - a) (drop a s)"

definition strip_prefix :: "string \<Rightarrow> string \<Rightarrow> string option" where
  "strip_prefix s p = (if starts_with s p then Some (drop (length p) s) else None)"

definition strip_suffix :: "string \<Rightarrow> string \<Rightarrow> string option" where
  "strip_suffix s p = (if ends_with s p then Some (take (length s - length p) s) else None)"

definition split_once :: "string \<Rightarrow> string \<Rightarrow> (string \<times> string) option" where
  "split_once s p = map_option (\<lambda>i. (take i s, drop (i + length p) s)) (find_str p s)"

text \<open>\<open>trim_start_matches(p)\<close> removes the prefix as often as it occurs.\<close>

function trim_start_matches :: "string \<Rightarrow> string \<Rightarrow> string" where
  "trim_start_matches p s =
     (if p \<noteq> [] \<and> starts_with s p then trim_start_matches p (drop (length p) s) else s)"
  by pat_completeness auto
termination
proof (relation "measure (\<lambda>(p, s). length s)", goal_cases)
  case 1
  show ?case by simp
next
  case (2 p s)
  then have "s \<noteq> []" by (cases s) (auto simp: starts_with_def)
  with 2 show ?case by simp
qed

declare trim_start_matches.simps [simp del]

lemma starts_with_append [simp]: "starts_with (p @ s) p"
  by (simp add: starts_with_def)

lemma starts_with_length: "starts_with s p \<Longrightarrow> length p \<le> length s"
  unfolding starts_with_def by (metis length_take min.absorb_iff2 nat_le_linear take_all)

lemma starts_with_prefix: "starts_with s p \<longleftrightarrow> prefix p s"
  unfolding starts_with_def prefix_def by (metis append_eq_conv_conj append_take_drop_id)

lemma find_str_Some: "find_str p s = Some i \<Longrightarrow> i + length p \<le> length s \<and> starts_with (drop i s) p"
proof (induction s arbitrary: i)
  case Nil
  then show ?case by (auto simp: starts_with_def split: if_splits)
next
  case (Cons c cs)
  show ?case
  proof (cases "starts_with (c # cs) p")
    case True
    with Cons.prems have "i = 0" by simp
    with True show ?thesis using starts_with_length [OF True] by simp
  next
    case False
    with Cons.prems obtain j where "find_str p cs = Some j" "i = Suc j" by auto
    with Cons.IH show ?thesis by auto
  qed
qed

lemma find_str_first: "find_str p s = Some i \<Longrightarrow> j < i \<Longrightarrow> \<not> starts_with (drop j s) p"
proof (induction s arbitrary: i j)
  case Nil
  then show ?case by (auto split: if_splits)
next
  case (Cons c cs)
  then show ?case by (cases j) (auto split: if_splits)
qed

lemma all_le_Suc: "(\<forall>j \<le> Suc n. P j) \<longleftrightarrow> P 0 \<and> (\<forall>j \<le> n. P (Suc j))"
  by (metis Suc_le_mono le0 not0_implies_Suc)

lemma find_str_None: "find_str p s = None \<longleftrightarrow> (\<forall>j \<le> length s. \<not> starts_with (drop j s) p)"
proof (induction s)
  case Nil
  then show ?case by (auto simp: starts_with_def)
next
  case (Cons c cs)
  have "(\<forall>j \<le> length (c # cs). \<not> starts_with (drop j (c # cs)) p) \<longleftrightarrow>
      \<not> starts_with (c # cs) p \<and> (\<forall>j \<le> length cs. \<not> starts_with (drop j cs) p)"
    using all_le_Suc [of "length cs" "\<lambda>j. \<not> starts_with (drop j (c # cs)) p"] by simp
  with Cons show ?case by simp
qed

lemma find_str_less: "find_str p s = Some i \<Longrightarrow> p \<noteq> [] \<Longrightarrow> i < length s"
  using find_str_Some [of p s i] by (cases p) auto

lemma slice_length: "length (slice s a b) \<le> b - a" "length (slice s a b) \<le> length s - a"
  by (simp_all add: slice_def)

section \<open>White space\<close>

text \<open>
  \<open>ws_len s\<close> is the number of bytes of the white-space character at the front of \<open>s\<close> (zero
  when there is none), for Unicode's \<open>White_Space\<close> property, which \<open>str::trim\<close> uses.
\<close>

fun ws_len :: "string \<Rightarrow> nat" where
  "ws_len [] = 0"
| "ws_len (c # cs) =
     (let n = (of_char c :: nat) in
      if n = 32 \<or> (9 \<le> n \<and> n \<le> 13) then 1
      else if n < 128 then 0
      else case map (of_char :: char \<Rightarrow> nat) (take 2 cs) of
        (a # bs) \<Rightarrow>
          if n = 194 \<and> (a = 133 \<or> a = 160) then 2
          else (case bs of
             [b] \<Rightarrow>
               if n = 225 \<and> a = 154 \<and> b = 128
                  \<or> n = 226 \<and> a = 128 \<and> (128 \<le> b \<and> b \<le> 138 \<or> b = 168 \<or> b = 169 \<or> b = 175)
                  \<or> n = 226 \<and> a = 129 \<and> b = 159
                  \<or> n = 227 \<and> a = 128 \<and> b = 128
               then 3 else 0
           | _ \<Rightarrow> 0)
      | [] \<Rightarrow> 0)"

text \<open>The same for the last character; the argument is the reversed string.\<close>

definition ws_len_rev :: "string \<Rightarrow> nat" where
  "ws_len_rev r =
     (if r \<noteq> [] \<and> ws_len [hd r] = 1 then 1
      else if length r \<ge> 2 \<and> ws_len (rev (take 2 r)) = 2 then 2
      else if length r \<ge> 3 \<and> ws_len (rev (take 3 r)) = 3 then 3 else 0)"

lemma ws_len_le: "ws_len s \<le> length s"
proof (cases s)
  case Nil
  then show ?thesis by simp
next
  case (Cons c cs)
  then show ?thesis
  proof (cases cs)
    case Nil
    with Cons show ?thesis by (simp add: Let_def)
  next
    case (Cons d ds)
    with \<open>s = c # cs\<close> show ?thesis by (cases ds) (simp_all add: Let_def)
  qed
qed

lemma ws_len_rev_le: "ws_len_rev r \<le> length r"
  by (auto simp: ws_len_rev_def Suc_le_eq)

function trim_front :: "(string \<Rightarrow> nat) \<Rightarrow> string \<Rightarrow> string" where
  "trim_front w s = (if 0 < w s \<and> s \<noteq> [] then trim_front w (drop (w s) s) else s)"
  by pat_completeness auto
termination
  by (relation "measure (\<lambda>(w, s). length s)") auto

declare trim_front.simps [simp del]

definition trim_start :: "string \<Rightarrow> string" where
  "trim_start s = trim_front ws_len s"

definition trim_end :: "string \<Rightarrow> string" where
  "trim_end s = rev (trim_front ws_len_rev (rev s))"

definition trim :: "string \<Rightarrow> string" where
  "trim s = trim_end (trim_start s)"

text \<open>\<open>trim_matches\<close> with a predicate on ASCII characters.\<close>

definition trim_matches :: "(char \<Rightarrow> bool) \<Rightarrow> string \<Rightarrow> string" where
  "trim_matches P s = rev (dropWhile P (rev (dropWhile P s)))"

lemma trim_front_length: "length (trim_front w s) \<le> length s"
  by (induction w s rule: trim_front.induct) (subst trim_front.simps, force)

lemma trim_front_stop: "w (trim_front w s) = 0 \<or> trim_front w s = []"
proof (induction w s rule: trim_front.induct)
  case (1 w s)
  then show ?case by (cases "0 < w s \<and> s \<noteq> []") (auto simp: trim_front.simps [of w s])
qed

lemma trim_front_id: "w s = 0 \<Longrightarrow> trim_front w s = s"
  by (simp add: trim_front.simps)

lemma trim_length: "length (trim s) \<le> length s"
  unfolding trim_def trim_end_def trim_start_def
  by (metis length_rev order_trans trim_front_length)

lemma trim_matches_length: "length (trim_matches P s) \<le> length s"
  unfolding trim_matches_def by (metis length_dropWhile_le length_rev order_trans)

lemma trim_Nil [simp]: "trim [] = []"
  by (simp add: trim_def trim_end_def trim_start_def trim_front.simps)

section \<open>Numbers\<close>

definition is_digit :: "char \<Rightarrow> bool" where
  "is_digit c \<longleftrightarrow> 48 \<le> (of_char c :: nat) \<and> (of_char c :: nat) \<le> 57"

definition digit_val :: "char \<Rightarrow> nat" where
  "digit_val c = of_char c - 48"

primrec digits_val :: "nat \<Rightarrow> string \<Rightarrow> nat option" where
  "digits_val acc [] = Some acc"
| "digits_val acc (c # cs) =
     (if is_digit c then digits_val (10 * acc + digit_val c) cs else None)"

definition parse_nat :: "string \<Rightarrow> nat option" where
  "parse_nat s = (if s = [] then None else digits_val 0 s)"

text \<open>\<open>s.parse::<i64>()\<close>: an optional sign, then digits, in range.\<close>

definition parse_i64 :: "string \<Rightarrow> i64 option" where
  "parse_i64 s =
     (case s of
        [] \<Rightarrow> None
      | c # cs \<Rightarrow>
          if c = CHR ''+'' then Option.bind (parse_nat cs) (\<lambda>n. checked_i64 (int n))
          else if c = CHR ''-'' then Option.bind (parse_nat cs) (\<lambda>n. checked_i64 (- int n))
          else Option.bind (parse_nat s) (\<lambda>n. checked_i64 (int n)))"

text \<open>\<open>s.parse::<u32>()\<close> and \<open>s.parse::<usize>()\<close>: an optional plus, then digits.\<close>

definition parse_unsigned :: "nat \<Rightarrow> string \<Rightarrow> nat option" where
  "parse_unsigned bound s =
     (case s of
        [] \<Rightarrow> None
      | c # cs \<Rightarrow>
          Option.bind (parse_nat (if c = CHR ''+'' then cs else s))
            (\<lambda>n. if n < bound then Some n else None))"

definition parse_u32 :: "string \<Rightarrow> nat option" where
  "parse_u32 = parse_unsigned u32_modulus"

definition parse_usize :: "string \<Rightarrow> nat option" where
  "parse_usize = parse_unsigned 18446744073709551616"

fun show_nat :: "nat \<Rightarrow> string" where
  "show_nat n =
     (if n < 10 then [char_of (48 + n)] else show_nat (n div 10) @ [char_of (48 + n mod 10)])"

declare show_nat.simps [simp del]

definition show_int :: "int \<Rightarrow> string" where
  "show_int i = (if i < 0 then CHR ''-'' # show_nat (nat (- i)) else show_nat (nat i))"

lemma digits_val_append:
  "digits_val acc (xs @ ys) = Option.bind (digits_val acc xs) (\<lambda>a. digits_val a ys)"
  by (induction xs arbitrary: acc) auto

lemma digit_char: "n < 10 \<Longrightarrow> is_digit (char_of (48 + n)) \<and> digit_val (char_of (48 + n)) = n"
  by (simp add: is_digit_def digit_val_def)

lemma digits_val_show_nat: "digits_val 0 (show_nat n) = Some n"
proof (induction n rule: show_nat.induct)
  case (1 n)
  show ?case
  proof (cases "n < 10")
    case True
    then show ?thesis using digit_char [of n] by (simp add: show_nat.simps [of n])
  next
    case False
    with 1 have "digits_val 0 (show_nat (n div 10)) = Some (n div 10)" by simp
    then show ?thesis using False digit_char [of "n mod 10"]
      by (simp add: show_nat.simps [of n] digits_val_append)
  qed
qed

lemma show_nat_nonempty [simp]: "show_nat n \<noteq> []"
  by (subst show_nat.simps) simp

lemma show_nat_digits: "c \<in> set (show_nat n) \<Longrightarrow> is_digit c"
proof (induction n rule: show_nat.induct)
  case (1 n)
  then show ?case using digit_char [of n] digit_char [of "n mod 10"]
    by (cases "n < 10") (auto simp: show_nat.simps [of n])
qed

lemma parse_nat_show: "parse_nat (show_nat n) = Some n"
  by (simp add: parse_nat_def digits_val_show_nat)

lemma parse_i64_show:
  assumes "in_i64 i"
  shows "parse_i64 (show_int i) = Some i"
proof (cases "i < 0")
  case True
  with assms show ?thesis by (simp add: show_int_def parse_i64_def parse_nat_show)
next
  case False
  obtain c cs where cs: "show_nat (nat i) = c # cs"
    using show_nat_nonempty [of "nat i"] by (cases "show_nat (nat i)") auto
  then have "is_digit c" using show_nat_digits [of c "nat i"] by simp
  then have "c \<noteq> CHR ''+''" "c \<noteq> CHR ''-''" by (auto simp: is_digit_def)
  with False assms cs parse_nat_show [of "nat i"] show ?thesis
    by (simp add: show_int_def parse_i64_def)
qed

lemma parse_i64_in_range: "parse_i64 s = Some i \<Longrightarrow> in_i64 i"
  by (auto simp: parse_i64_def bind_eq_Some_conv split: list.splits if_splits)

section \<open>Case, characters, lists of strings\<close>

definition ascii_lower :: "char \<Rightarrow> char" where
  "ascii_lower c = (let n = (of_char c :: nat) in if 65 \<le> n \<and> n \<le> 90 then char_of (n + 32) else c)"

definition ascii_upper :: "char \<Rightarrow> char" where
  "ascii_upper c = (let n = (of_char c :: nat) in if 97 \<le> n \<and> n \<le> 122 then char_of (n - 32) else c)"

definition eq_ignore_ascii_case :: "string \<Rightarrow> string \<Rightarrow> bool" where
  "eq_ignore_ascii_case s t \<longleftrightarrow> map ascii_lower s = map ascii_lower t"

definition is_ascii_alphabetic :: "char \<Rightarrow> bool" where
  "is_ascii_alphabetic c \<longleftrightarrow>
     (let n = (of_char c :: nat) in (65 \<le> n \<and> n \<le> 90) \<or> (97 \<le> n \<and> n \<le> 122))"

text \<open>\<open>chars().count()\<close>: a byte \<open>10xxxxxx\<close> continues a code point.\<close>

definition char_count :: "string \<Rightarrow> nat" where
  "char_count s = length (filter (\<lambda>c. \<not> (128 \<le> (of_char c :: nat) \<and> (of_char c :: nat) < 192)) s)"

primrec join :: "string \<Rightarrow> string list \<Rightarrow> string" where
  "join sep [] = []"
| "join sep (s # ss) = (if ss = [] then s else s @ sep @ join sep ss)"

abbreviation dquote :: char where "dquote \<equiv> CHR 0x22"
abbreviation squote :: char where "squote \<equiv> CHR 0x27"
abbreviation backslash :: char where "backslash \<equiv> CHR 0x5C"
abbreviation newline :: char where "newline \<equiv> CHR 0x0A"

text \<open>Unfolding these evaluates the string functions on literals.\<close>

lemmas string_eval = starts_with_def ends_with_def slice_def trim_def trim_start_def trim_end_def
  trim_front.simps ws_len_rev_def contains_def is_digit_def digit_val_def parse_nat_def
  parse_i64_def parse_u32_def parse_usize_def parse_unsigned_def split_once_def strip_prefix_def
  trim_matches_def ascii_lower_def ascii_upper_def eq_ignore_ascii_case_def checked_i64_def
  in_i64_def i64_min_def i64_max_def u32_modulus_def show_nat.simps show_int_def char_of_def

section \<open>Properties of the number parser\<close>

text \<open>parsing an integer accepts only values of 64 bits, and every such value is read back
  from what \<open>to_string\<close> writes for it.\<close>

theorem integer_roundtrip:
  "(\<forall>s i. parse_i64 s = Some i \<longrightarrow> in_i64 i) \<and> (\<forall>i. in_i64 i \<longrightarrow> parse_i64 (show_int i) = Some i)"
  using parse_i64_show parse_i64_in_range by blast

theorem integer_roundtrip_witness: "parse_i64 (show_int (- 42)) = Some (- 42)"
  using integer_roundtrip by (simp add: in_i64_def i64_min_def i64_max_def)

end
