(* ===== verification/Floats.thy ===== *)
theory Floats
  imports Strings
begin

text \<open>
  Rust's \<open>f64\<close>: IEEE 754 binary64 with round-to-nearest-even.  A finite value is a sign, a
  mantissa and a binary exponent; every operation computes the exact result on integers and
  rounds it once.  \<open>f64_show\<close> is \<open>Display\<close> (the shortest decimal that reads back as the same
  value, never in scientific notation) and \<open>f64_parse\<close> is \<open>str::parse::<f64>\<close>.
\<close>

section \<open>Values and rounding\<close>

datatype f64 = FNaN | FInf bool | FFin bool nat int

fun bitlen :: "nat \<Rightarrow> nat" where
  "bitlen n = (if n = 0 then 0 else Suc (bitlen (n div 2)))"

declare bitlen.simps [simp del]

text \<open>The binary exponent of \<open>num / den\<close>, rounded down.\<close>

definition ratio_log2 :: "nat \<Rightarrow> nat \<Rightarrow> int" where
  "ratio_log2 num den =
     (let k = int (bitlen num) - int (bitlen den) in
      if (if 0 \<le> k then den * 2 ^ nat k \<le> num else den \<le> num * 2 ^ nat (- k)) then k else k - 1)"

text \<open>Division rounded to the nearest integer, ties to even.\<close>

definition div_nearest_even :: "nat \<Rightarrow> nat \<Rightarrow> nat" where
  "div_nearest_even a b =
     (let q = a div b; r = a mod b in
      if 2 * r > b \<or> 2 * r = b \<and> odd q then q + 1 else q)"

definition f64_round :: "bool \<Rightarrow> nat \<Rightarrow> nat \<Rightarrow> f64" where
  "f64_round s num den =
     (if num = 0 then FFin s 0 (- 1074)
      else
        let e = max (ratio_log2 num den - 52) (- 1074);
            m = (if 0 \<le> e then div_nearest_even num (den * 2 ^ nat e)
                 else div_nearest_even (num * 2 ^ nat (- e)) den);
            (m', e') = (if m = 9007199254740992 then (4503599627370496, e + 1) else (m, e))
        in if e' > 971 then FInf s else FFin s m' e')"

definition f64_dyadic :: "bool \<Rightarrow> nat \<Rightarrow> int \<Rightarrow> f64" where
  "f64_dyadic s m e = (if 0 \<le> e then f64_round s (m * 2 ^ nat e) 1 else f64_round s m (2 ^ nat (- e)))"

definition f64_of_int :: "int \<Rightarrow> f64" where
  "f64_of_int i = f64_round (i < 0) (nat \<bar>i\<bar>) 1"

text \<open>\<open>f64::EPSILON\<close> is \<open>2 ^ -52\<close>.\<close>

definition f64_epsilon :: f64 where
  "f64_epsilon = FFin False 4503599627370496 (- 104)"

definition f64_zero :: f64 where
  "f64_zero = FFin False 0 (- 1074)"

definition f64_two :: f64 where
  "f64_two = FFin False 4503599627370496 (- 51)"

section \<open>Arithmetic and comparison\<close>

definition signed_at :: "int \<Rightarrow> bool \<Rightarrow> nat \<Rightarrow> int \<Rightarrow> int" where
  "signed_at e0 s m e = (if s then - 1 else 1) * int (m * 2 ^ nat (e - e0))"

fun f64_neg :: "f64 \<Rightarrow> f64" where
  "f64_neg FNaN = FNaN"
| "f64_neg (FInf s) = FInf (\<not> s)"
| "f64_neg (FFin s m e) = FFin (\<not> s) m e"

fun f64_abs :: "f64 \<Rightarrow> f64" where
  "f64_abs FNaN = FNaN"
| "f64_abs (FInf s) = FInf False"
| "f64_abs (FFin s m e) = FFin False m e"

fun f64_add :: "f64 \<Rightarrow> f64 \<Rightarrow> f64" where
  "f64_add (FFin s1 m1 e1) (FFin s2 m2 e2) =
     (let e0 = min e1 e2; v = signed_at e0 s1 m1 e1 + signed_at e0 s2 m2 e2 in
      if v = 0 then FFin (s1 \<and> s2) 0 (- 1074) else f64_dyadic (v < 0) (nat \<bar>v\<bar>) e0)"
| "f64_add (FInf s) (FInf t) = (if s = t then FInf s else FNaN)"
| "f64_add (FInf s) (FFin _ _ _) = FInf s"
| "f64_add (FFin _ _ _) (FInf t) = FInf t"
| "f64_add _ _ = FNaN"

definition f64_sub :: "f64 \<Rightarrow> f64 \<Rightarrow> f64" where
  "f64_sub a b = f64_add a (f64_neg b)"

fun f64_mul :: "f64 \<Rightarrow> f64 \<Rightarrow> f64" where
  "f64_mul (FFin s1 m1 e1) (FFin s2 m2 e2) = f64_dyadic (s1 \<noteq> s2) (m1 * m2) (e1 + e2)"
| "f64_mul (FInf s) (FInf t) = FInf (s \<noteq> t)"
| "f64_mul (FInf s) (FFin t m _) = (if m = 0 then FNaN else FInf (s \<noteq> t))"
| "f64_mul (FFin s m _) (FInf t) = (if m = 0 then FNaN else FInf (s \<noteq> t))"
| "f64_mul _ _ = FNaN"

fun f64_div :: "f64 \<Rightarrow> f64 \<Rightarrow> f64" where
  "f64_div (FFin s1 m1 e1) (FFin s2 m2 e2) =
     (if m2 = 0 then (if m1 = 0 then FNaN else FInf (s1 \<noteq> s2))
      else if 0 \<le> e1 - e2 then f64_round (s1 \<noteq> s2) (m1 * 2 ^ nat (e1 - e2)) m2
      else f64_round (s1 \<noteq> s2) m1 (m2 * 2 ^ nat (e2 - e1)))"
| "f64_div (FInf s) (FFin t _ _) = FInf (s \<noteq> t)"
| "f64_div (FFin s _ _) (FInf t) = FFin (s \<noteq> t) 0 (- 1074)"
| "f64_div _ _ = FNaN"

fun f64_less :: "f64 \<Rightarrow> f64 \<Rightarrow> bool" where
  "f64_less (FFin s1 m1 e1) (FFin s2 m2 e2) =
     (let e0 = min e1 e2 in signed_at e0 s1 m1 e1 < signed_at e0 s2 m2 e2)"
| "f64_less (FInf s) (FInf t) = (s \<and> \<not> t)"
| "f64_less (FInf s) (FFin _ _ _) = s"
| "f64_less (FFin _ _ _) (FInf t) = (\<not> t)"
| "f64_less _ _ = False"

fun f64_eq :: "f64 \<Rightarrow> f64 \<Rightarrow> bool" where
  "f64_eq (FFin s1 m1 e1) (FFin s2 m2 e2) =
     (let e0 = min e1 e2 in signed_at e0 s1 m1 e1 = signed_at e0 s2 m2 e2)"
| "f64_eq (FInf s) (FInf t) = (s = t)"
| "f64_eq _ _ = False"

definition f64_less_eq :: "f64 \<Rightarrow> f64 \<Rightarrow> bool" where
  "f64_less_eq a b \<longleftrightarrow> f64_less a b \<or> f64_eq a b"

text \<open>\<open>x as i64\<close> truncates and saturates; \<open>NaN\<close> becomes zero.\<close>

fun f64_to_i64 :: "f64 \<Rightarrow> i64" where
  "f64_to_i64 FNaN = 0"
| "f64_to_i64 (FInf s) = (if s then i64_min else i64_max)"
| "f64_to_i64 (FFin s m e) =
     (let n = int (if 0 \<le> e then m * 2 ^ nat e else m div 2 ^ nat (- e)) in
      max i64_min (min i64_max (if s then - n else n)))"

section \<open>Decimal notation\<close>

definition f64_decimal :: "bool \<Rightarrow> nat \<Rightarrow> int \<Rightarrow> f64" where
  "f64_decimal s d k = (if 0 \<le> k then f64_round s (d * 10 ^ nat k) 1 else f64_round s d (10 ^ nat (- k)))"

definition parse_exponent :: "string \<Rightarrow> int option" where
  "parse_exponent s =
     (case s of
        [] \<Rightarrow> Some 0
      | c # cs \<Rightarrow>
          if c = CHR ''e'' \<or> c = CHR ''E'' then
            (case cs of
               [] \<Rightarrow> None
             | d # ds \<Rightarrow>
                 if d = CHR ''-'' then map_option (\<lambda>n. - int n) (parse_nat ds)
                 else if d = CHR ''+'' then map_option int (parse_nat ds)
                 else map_option int (parse_nat cs))
          else None)"

definition f64_parse_number :: "bool \<Rightarrow> string \<Rightarrow> f64 option" where
  "f64_parse_number neg s =
     (let ip = takeWhile is_digit s; r = dropWhile is_digit s;
          (fp, r') = (case r of
              c # cs \<Rightarrow> if c = CHR ''.'' then (takeWhile is_digit cs, dropWhile is_digit cs) else ([], r)
            | [] \<Rightarrow> ([], r))
      in case (parse_nat (ip @ fp), parse_exponent r') of
           (Some d, Some k) \<Rightarrow> Some (f64_decimal neg d (k - int (length fp)))
         | _ \<Rightarrow> None)"

definition f64_parse :: "string \<Rightarrow> f64 option" where
  "f64_parse s =
     (case s of
        [] \<Rightarrow> None
      | c # cs \<Rightarrow>
          let neg = (c = CHR ''-'');
              body = (if c = CHR ''-'' \<or> c = CHR ''+'' then cs else s);
              low = map ascii_lower body
          in if low = ''inf'' \<or> low = ''infinity'' then Some (FInf neg)
             else if low = ''nan'' then Some FNaN
             else f64_parse_number neg body)"

text \<open>
  \<open>Display\<close>: with \<open>n\<close> significant digits the two decimals around the value are tried, the
  nearer first, and the least \<open>n\<close> at which one of them reads back is taken.
\<close>

definition dec_magnitude :: "nat \<Rightarrow> int \<Rightarrow> int" where
  "dec_magnitude m e =
     (case find (\<lambda>k. if 0 \<le> k
          then m * 2 ^ nat e < 2 ^ nat (- e) * 10 ^ nat k
          else m * 2 ^ nat e * 10 ^ nat (- k) < 2 ^ nat (- e)) [- 324..310] of
        Some k \<Rightarrow> k | None \<Rightarrow> 310)"

definition shortest_at :: "nat \<Rightarrow> int \<Rightarrow> int \<Rightarrow> nat \<Rightarrow> nat option" where
  "shortest_at m e k n =
     (let p = int n - k;
          a = m * 2 ^ nat e * 10 ^ nat p;
          b = 2 ^ nat (- e) * 10 ^ nat (- p);
          lo = a div b;
          cands = (if 2 * (a mod b) \<le> b then [lo, lo + 1] else [lo + 1, lo])
      in find (\<lambda>d. f64_decimal False d (- p) = FFin False m e) cands)"

definition shortest_digits :: "nat \<Rightarrow> int \<Rightarrow> int \<Rightarrow> nat \<times> nat" where
  "shortest_digits m e k =
     (case find (\<lambda>n. shortest_at m e k n \<noteq> None) [1..<18] of
        Some n \<Rightarrow> (the (shortest_at m e k n), n) | None \<Rightarrow> (0, 1))"

definition positional :: "string \<Rightarrow> int \<Rightarrow> string" where
  "positional ds k =
     (if k \<le> 0 then ''0.'' @ replicate (nat (- k)) (CHR ''0'') @ ds
      else if int (length ds) \<le> k then ds @ replicate (nat k - length ds) (CHR ''0'')
      else take (nat k) ds @ ''.'' @ drop (nat k) ds)"

definition strip_zeros :: "string \<Rightarrow> string" where
  "strip_zeros ds = rev (dropWhile (\<lambda>c. c = CHR ''0'') (rev ds))"

fun f64_show :: "f64 \<Rightarrow> string" where
  "f64_show FNaN = ''NaN''"
| "f64_show (FInf s) = (if s then ''-inf'' else ''inf'')"
| "f64_show (FFin s m e) =
     (if s then ''-'' else []) @
     (if m = 0 then ''0''
      else let k = dec_magnitude m e; (d, n) = shortest_digits m e k;
               ds = show_nat d
           in positional (strip_zeros ds) (k + int (length ds) - int n))"

section \<open>Exactness of small integers\<close>

lemma bitlen_small [simp]: "bitlen 0 = 0" "bitlen (Suc 0) = Suc 0"
  by (simp_all add: bitlen.simps)

lemma bitlen_bounds: "0 < n \<Longrightarrow> 2 ^ (bitlen n - 1) \<le> n \<and> n < 2 ^ bitlen n \<and> 0 < bitlen n"
proof (induction n rule: bitlen.induct)
  case (1 n)
  show ?case
  proof (cases "n div 2 = 0")
    case True
    with 1(2) have "n = 1" by auto
    then show ?thesis by simp
  next
    case False
    with 1 have IH: "2 ^ (bitlen (n div 2) - 1) \<le> n div 2" "n div 2 < 2 ^ bitlen (n div 2)"
      "0 < bitlen (n div 2)" by auto
    have b: "bitlen n = Suc (bitlen (n div 2))" using 1(2) by (simp add: bitlen.simps [of n])
    have "(2 :: nat) ^ bitlen (n div 2) = 2 * 2 ^ (bitlen (n div 2) - 1)" using IH(3)
      by (cases "bitlen (n div 2)") auto
    moreover have "2 * (n div 2) \<le> n" "n < 2 * (n div 2) + 2" by auto
    ultimately have "2 ^ bitlen (n div 2) \<le> n" "n < 2 * 2 ^ bitlen (n div 2)"
      using IH by linarith+
    with b show ?thesis by simp
  qed
qed

lemma ratio_log2_int: "0 < n \<Longrightarrow> ratio_log2 n 1 = int (bitlen n) - 1"
proof -
  assume n: "0 < n"
  have "bitlen 1 = 1" by simp
  moreover have "nat (int (bitlen n) - 1) = bitlen n - 1" by simp
  ultimately show ?thesis using bitlen_bounds [OF n] by (auto simp: ratio_log2_def Let_def)
qed

lemma bitlen_le:
  assumes "n < 2 ^ k"
  shows "bitlen n \<le> k"
proof (cases "n = 0")
  case True
  then show ?thesis by simp
next
  case False
  then have "2 ^ (bitlen n - 1) \<le> n" using bitlen_bounds [of n] by blast
  with assms have "(2 :: nat) ^ (bitlen n - 1) < 2 ^ k" by (rule le_less_trans [rotated])
  moreover have "1 < (2 :: nat)" by simp
  ultimately have "bitlen n - 1 < k" using power_less_imp_less_exp by blast
  then show ?thesis by linarith
qed

lemma f64_round_int_small:
  assumes "0 < n" "n < 2 ^ 53"
  shows "f64_round s n 1 = FFin s (n * 2 ^ (53 - bitlen n)) (int (bitlen n) - 53)"
proof -
  let ?b = "bitlen n"
  note b = bitlen_bounds [OF assms(1)]
  have le: "?b \<le> 53" using bitlen_le [OF assms(2)] .
  have e: "max (ratio_log2 n 1 - 52) (- 1074) = int ?b - 53"
    using ratio_log2_int [OF assms(1)] le b by simp
  have p: "nat (- (int ?b - 53)) = 53 - ?b" using le by simp
  have d: "div_nearest_even x 1 = x" "div_nearest_even x (Suc 0) = x" for x
    by (simp_all add: div_nearest_even_def)
  have lt: "n * 2 ^ (53 - ?b) < 2 ^ 53"
  proof -
    have "n * 2 ^ (53 - ?b) < 2 ^ ?b * 2 ^ (53 - ?b)" using b by simp
    also have "\<dots> = 2 ^ 53" using le by (simp flip: power_add)
    finally show ?thesis .
  qed
  show ?thesis
  proof (cases "?b = 53")
    case True
    have "\<not> n = 9007199254740992" using assms(2) by simp
    with True show ?thesis using assms(1) e by (simp add: f64_round_def d Let_def)
  next
    case False
    with le have neg: "\<not> 0 \<le> int ?b - 53" by simp
    show ?thesis using assms lt neg
      by (simp only: f64_round_def e p d Let_def neg if_False split) (use le in \<open>simp add: d\<close>)
  qed
qed

text \<open>An integer of at most 53 bits survives the trip through \<open>f64\<close>.\<close>

lemma f64_of_int_exact:
  assumes "\<bar>i\<bar> < 2 ^ 53"
  shows "f64_to_i64 (f64_of_int i) = i"
proof (cases "i = 0")
  case True
  then show ?thesis by (simp add: f64_of_int_def f64_round_def i64_min_def i64_max_def)
next
  case False
  define n where "n = nat \<bar>i\<bar>"
  have n: "0 < n" "n < 2 ^ 53" using False assms by (auto simp: n_def nat_less_iff)
  have le: "bitlen n \<le> 53" using bitlen_le [OF n(2)] .
  have r: "f64_of_int i = FFin (i < 0) (n * 2 ^ (53 - bitlen n)) (int (bitlen n) - 53)"
    using f64_round_int_small [OF n] by (simp add: f64_of_int_def n_def)
  have t: "(if 0 \<le> int (bitlen n) - 53 then n * 2 ^ (53 - bitlen n) * 2 ^ nat (int (bitlen n) - 53)
      else n * 2 ^ (53 - bitlen n) div 2 ^ nat (- (int (bitlen n) - 53))) = n"
  proof (cases "bitlen n = 53")
    case True
    then show ?thesis by simp
  next
    case False
    with le have "nat (- (int (bitlen n) - 53)) = 53 - bitlen n" "\<not> 0 \<le> int (bitlen n) - 53"
      by auto
    then show ?thesis by simp
  qed
  have "(if i < 0 then - int n else int n) = i" by (auto simp: n_def)
  moreover have "\<bar>i\<bar> < 9223372036854775808" using assms by simp
  ultimately show ?thesis unfolding r f64_to_i64.simps Let_def t
    by (auto simp: i64_min_def i64_max_def)
qed

lemma f64_eq_refl_fin: "f64_eq (FFin s m e) (FFin s m e)"
  by simp

end
