(* ===== verification/Values.thy ===== *)
theory Values
  imports Floats
begin

text \<open>
  Execution values (\<open>Value\<close> of \<open>tinypipe-api/src/types.rs\<close>, here \<open>tp_value\<close>) and the value helpers of the
  interpreter (\<open>tinypipe-vm/src/compiled_executor.rs\<close>): conversions, truth values,
  cross-type equality and numeric comparison, and the formats used by string
  concatenation and by \<open>SWITCH\<close>.
\<close>

section \<open>Values\<close>

datatype tp_value =
    VNull
  | VBool bool
  | VInt i64
  | VFloat f64
  | VString string
  | VArray "tp_value list"
  | VObject "(string \<times> tp_value) list"

fun as_str :: "tp_value \<Rightarrow> string option" where
  "as_str (VString s) = Some s"
| "as_str _ = None"

fun as_f64 :: "tp_value \<Rightarrow> f64 option" where
  "as_f64 (VFloat f) = Some f"
| "as_f64 (VInt i) = Some (f64_of_int i)"
| "as_f64 _ = None"

fun as_u64 :: "tp_value \<Rightarrow> nat option" where
  "as_u64 (VInt i) = (if 0 \<le> i then Some (nat i) else None)"
| "as_u64 _ = None"

fun as_array :: "tp_value \<Rightarrow> tp_value list option" where
  "as_array (VArray xs) = Some xs"
| "as_array _ = None"

definition is_null :: "tp_value \<Rightarrow> bool" where
  "is_null v \<longleftrightarrow> v = VNull"

fun checked_add :: "tp_value \<Rightarrow> tp_value \<Rightarrow> tp_value option" where
  "checked_add (VInt a) (VInt b) = map_option VInt (checked_i64 (a + b))"
| "checked_add (VFloat a) (VFloat b) = Some (VFloat (f64_add a b))"
| "checked_add (VInt a) (VFloat b) = Some (VFloat (f64_add (f64_of_int a) b))"
| "checked_add (VFloat a) (VInt b) = Some (VFloat (f64_add a (f64_of_int b)))"
| "checked_add _ _ = None"

text \<open>Every integer inside a value is in the range of \<open>i64\<close>.\<close>

fun value_ok :: "tp_value \<Rightarrow> bool" where
  "value_ok (VInt i) = in_i64 i"
| "value_ok (VArray xs) = (\<forall>x \<in> set xs. value_ok x)"
| "value_ok (VObject m) = (distinct (map fst m) \<and> (\<forall>p \<in> set m. value_ok (snd p)))"
| "value_ok _ = True"

lemma checked_add_ok: "value_ok a \<Longrightarrow> value_ok b \<Longrightarrow> checked_add a b = Some c \<Longrightarrow> value_ok c"
  by (induction a b rule: checked_add.induct) auto

section \<open>Interpreter helpers\<close>

fun type_name :: "tp_value \<Rightarrow> string" where
  "type_name VNull = ''null''"
| "type_name (VBool _) = ''bool''"
| "type_name (VInt _) = ''int''"
| "type_name (VFloat _) = ''float''"
| "type_name (VString _) = ''string''"
| "type_name (VArray _) = ''array''"
| "type_name (VObject _) = ''object''"

fun is_truthy :: "tp_value \<Rightarrow> bool" where
  "is_truthy (VBool b) = b"
| "is_truthy VNull = False"
| "is_truthy (VInt i) = (i \<noteq> 0)"
| "is_truthy (VFloat f) = (\<not> f64_eq f f64_zero)"
| "is_truthy (VString s) = (s \<noteq> [])"
| "is_truthy _ = True"

definition f64_close :: "f64 \<Rightarrow> f64 \<Rightarrow> bool" where
  "f64_close x y \<longleftrightarrow> f64_less (f64_abs (f64_sub x y)) f64_epsilon"

fun values_equal :: "tp_value \<Rightarrow> tp_value \<Rightarrow> bool" where
  "values_equal VNull VNull = True"
| "values_equal (VBool x) (VBool y) = (x = y)"
| "values_equal (VInt x) (VInt y) = (x = y)"
| "values_equal (VFloat x) (VFloat y) = f64_close x y"
| "values_equal (VString x) (VString y) = (x = y)"
| "values_equal (VInt x) (VFloat y) = f64_close (f64_of_int x) y"
| "values_equal (VFloat x) (VInt y) = f64_close x (f64_of_int y)"
| "values_equal _ _ = False"

fun value_to_f64 :: "tp_value \<Rightarrow> f64 option" where
  "value_to_f64 (VInt i) = Some (f64_of_int i)"
| "value_to_f64 (VFloat f) = Some f"
| "value_to_f64 _ = None"

definition compare_values :: "tp_value \<Rightarrow> tp_value \<Rightarrow> (f64 \<Rightarrow> f64 \<Rightarrow> bool) \<Rightarrow> bool" where
  "compare_values a b cmp =
     (case (value_to_f64 a, value_to_f64 b) of
        (Some x, Some y) \<Rightarrow> cmp x y
      | _ \<Rightarrow> False)"

definition show_bool :: "bool \<Rightarrow> string" where
  "show_bool b = (if b then ''true'' else ''false'')"

fun concat_part :: "tp_value \<Rightarrow> string option" where
  "concat_part VNull = None"
| "concat_part (VBool b) = Some (show_bool b)"
| "concat_part (VInt i) = Some (show_int i)"
| "concat_part (VFloat f) = Some (f64_show f)"
| "concat_part (VString s) = Some s"
| "concat_part (VArray _) = None"
| "concat_part (VObject _) = None"

fun format_value :: "tp_value \<Rightarrow> string" where
  "format_value VNull = ''null''"
| "format_value (VBool b) = show_bool b"
| "format_value (VInt i) = show_int i"
| "format_value (VFloat f) = f64_show f"
| "format_value (VString s) = s"
| "format_value (VArray _) = ''[...]''"
| "format_value (VObject _) = ''{...}''"

section \<open>JSON documents\<close>

text \<open>
  \<open>serde_json::Value\<close> as the code takes it apart: a number is seen only through its
  \<open>as_i64\<close> and \<open>as_f64\<close>.  The parser itself belongs to \<open>serde_json\<close> and is a parameter
  of the definitions that use it.
\<close>

datatype json =
    JNull
  | JBool bool
  | JNumber "i64 option" "f64 option"
  | JString string
  | JArray "json list"
  | JObject "(string \<times> json) list"

fun json_to_tp :: "json \<Rightarrow> tp_value" where
  "json_to_tp JNull = VNull"
| "json_to_tp (JBool b) = VBool b"
| "json_to_tp (JNumber i f) =
     (case i of Some n \<Rightarrow> VInt n | None \<Rightarrow> (case f of Some x \<Rightarrow> VFloat x | None \<Rightarrow> VNull))"
| "json_to_tp (JString s) = VString s"
| "json_to_tp (JArray js) = VArray (map json_to_tp js)"
| "json_to_tp (JObject kvs) = VObject (map (\<lambda>(k, j). (k, json_to_tp j)) kvs)"

definition parse_json_value :: "(string \<Rightarrow> json option) \<Rightarrow> string \<Rightarrow> tp_value" where
  "parse_json_value from_str s0 =
     (let s = trim s0 in
      if s = [] then VNull
      else case from_str s of Some j \<Rightarrow> json_to_tp j | None \<Rightarrow> VString s)"

section \<open>Facts\<close>

lemma values_equal_int [simp]: "values_equal (VInt x) (VInt y) = (x = y)"
  by simp

lemma values_equal_sym_basic:
  "values_equal a b = values_equal b a" if "\<And>f. a \<noteq> VFloat f" "\<And>f. b \<noteq> VFloat f"
  using that by (cases a; cases b) auto

lemma compare_values_non_numeric:
  "value_to_f64 a = None \<or> value_to_f64 b = None \<Longrightarrow> \<not> compare_values a b cmp"
  by (auto simp: compare_values_def split: option.splits)

text \<open>Small integers compare as integers although the code goes through \<open>f64\<close>.\<close>

lemma f64_of_int_fin:
  assumes "\<bar>i\<bar> < 2 ^ 53"
  obtains m e where "f64_of_int i = FFin (i < 0) m e" "- 1074 \<le> e" "e \<le> 0"
    "int m = \<bar>i\<bar> * 2 ^ nat (- e)"
proof (cases "i = 0")
  case True
  then show thesis by (intro that [of 0 "- 1074"]) (simp_all add: f64_of_int_def f64_round_def)
next
  case False
  define n where "n = nat \<bar>i\<bar>"
  have n: "0 < n" "n < 2 ^ 53" using False assms by (auto simp: n_def nat_less_iff)
  have le: "bitlen n \<le> 53" using bitlen_le [OF n(2)] .
  have "nat (- (int (bitlen n) - 53)) = 53 - bitlen n" using le by simp
  then show thesis using le f64_round_int_small [OF n, of "i < 0"] bitlen_bounds [OF n(1)]
    by (intro that [of "n * 2 ^ (53 - bitlen n)" "int (bitlen n) - 53"])
      (auto simp: f64_of_int_def n_def)
qed

lemma signed_at_int:
  assumes "\<bar>i\<bar> < 2 ^ 53" "f64_of_int i = FFin s m e" "e0 \<le> e" "e0 \<le> 0"
  shows "signed_at e0 s m e = i * 2 ^ nat (- e0)"
proof -
  obtain m' e' where h: "f64_of_int i = FFin (i < 0) m' e'" "e' \<le> 0" "int m' = \<bar>i\<bar> * 2 ^ nat (- e')"
    using f64_of_int_fin [OF assms(1)] by metis
  with assms(2) have e: "s = (i < 0)" "m = m'" "e = e'" by auto
  have "nat (- e') + nat (e' - e0) = nat (- e0)" using h(2) assms(3,4) e by simp
  then have "(2 :: int) ^ nat (- e') * 2 ^ nat (e' - e0) = 2 ^ nat (- e0)" by (simp flip: power_add)
  then show ?thesis using h(3) e by (auto simp: signed_at_def abs_if algebra_simps)
qed

lemma f64_less_of_int:
  assumes "\<bar>a\<bar> < 2 ^ 53" "\<bar>b\<bar> < 2 ^ 53"
  shows "f64_less (f64_of_int a) (f64_of_int b) \<longleftrightarrow> a < b"
proof -
  obtain m e where x: "f64_of_int a = FFin (a < 0) m e" "e \<le> 0"
    using f64_of_int_fin [OF assms(1)] by metis
  obtain n d where y: "f64_of_int b = FFin (b < 0) n d" "d \<le> 0"
    using f64_of_int_fin [OF assms(2)] by metis
  have "min e d \<le> e" "min e d \<le> d" "min e d \<le> 0" using x(2) by auto
  then have "signed_at (min e d) (a < 0) m e = a * 2 ^ nat (- min e d)"
    "signed_at (min e d) (b < 0) n d = b * 2 ^ nat (- min e d)"
    using signed_at_int [OF assms(1) x(1)] signed_at_int [OF assms(2) y(1)] by simp_all
  then show ?thesis by (simp add: x(1) y(1) Let_def)
qed

lemma compare_values_int_less:
  assumes "\<bar>a\<bar> < 2 ^ 53" "\<bar>b\<bar> < 2 ^ 53"
  shows "compare_values (VInt a) (VInt b) f64_less \<longleftrightarrow> a < b"
  using f64_less_of_int [OF assms] by (simp add: compare_values_def)

section \<open>Properties of comparisons\<close>

text \<open>Comparing two integers of magnitude below 2 ^ 53 gives the order of the integers, although
  the code converts both to floats; at 2 ^ 53 neighbours already compare as not less.\<close>

theorem integer_comparison_exact:
  "(\<forall>a b. \<bar>a\<bar> < 2 ^ 53 \<and> \<bar>b\<bar> < 2 ^ 53 \<longrightarrow>
      compare_values (VInt a) (VInt b) f64_less = (a < b)) \<and>
   \<not> compare_values (VInt (2 ^ 53)) (VInt (2 ^ 53 + 1)) f64_less"
  using compare_values_int_less
  by (simp add: compare_values_def f64_of_int_def f64_round_def ratio_log2_def bitlen.simps
      div_nearest_even_def)

theorem integer_comparison_exact_witness:
  "compare_values (VInt 3) (VInt 4) f64_less"
  using integer_comparison_exact by simp

end
