(* ===== verification/Plans.thy ===== *)
theory Plans
  imports Values
begin

text \<open>
  The two plan formats of \<open>tinypipe-ir\<close>: the compiler's \<open>ExecutionPlan\<close> with string ids
  (\<open>plan.rs\<close>), the interpreter's \<open>CompiledPlan\<close> with indices and the conversion between
  them, and the conversion of a \<open>CompiledPlan\<close> to and from the FlatBuffers tables
  (\<open>compiled.rs\<close>).  The FlatBuffers library and the bindings generated for it are
  parameters: \<open>enc\<close> writes the tables as bytes, \<open>root\<close> verifies and opens them.
\<close>

section \<open>ExecutionPlan\<close>

datatype ty = TyString | TyInt | TyFloat | TyBool | TyNull | TyAny

datatype arg_value =
    AString string
  | AInt i64
  | AFloat f64
  | ABool bool
  | ANull
  | AArray "arg_value list"
  | AObject "(string \<times> arg_value) list"

record arg =
  arg_key :: string
  arg_val :: arg_value

datatype opcode =
    Input | Call | Calc | Decide | Switch | Act | Parallel | Loop | Wait | Merge | Error

definition opcode_all :: "opcode list" where
  "opcode_all = [Input, Call, Calc, Decide, Switch, Act, Parallel, Loop, Wait, Merge, Error]"

definition is_pure :: "opcode \<Rightarrow> bool" where
  "is_pure op \<longleftrightarrow> (case op of
     Input \<Rightarrow> True | Calc \<Rightarrow> True | Decide \<Rightarrow> True | Switch \<Rightarrow> True | Wait \<Rightarrow> True | Merge \<Rightarrow> True
   | _ \<Rightarrow> False)"

definition is_branch :: "opcode \<Rightarrow> bool" where
  "is_branch op \<longleftrightarrow> (case op of Decide \<Rightarrow> True | Switch \<Rightarrow> True | _ \<Rightarrow> False)"

fun display_name :: "opcode \<Rightarrow> string" where
  "display_name Input = ''INPUT''"
| "display_name Call = ''CALL''"
| "display_name Calc = ''CALC''"
| "display_name Decide = ''DECIDE''"
| "display_name Switch = ''SWITCH''"
| "display_name Act = ''ACT''"
| "display_name Parallel = ''PARALLEL''"
| "display_name Loop = ''LOOP''"
| "display_name Wait = ''WAIT''"
| "display_name Merge = ''MERGE''"
| "display_name Error = ''ERROR''"

record tool_dep =
  dep_name :: string
  dep_version :: string
  dep_pure :: bool
  dep_schema_hash :: string

record node =
  node_id :: string
  node_op :: opcode
  node_args :: "arg list"
  node_type :: "ty option"
  node_branch :: "u32 option"
  node_group :: "string option"

definition node_new :: "string \<Rightarrow> opcode \<Rightarrow> node" where
  "node_new i op = \<lparr>node_id = i, node_op = op, node_args = [], node_type = None,
     node_branch = None, node_group = None\<rparr>"

definition with_arg :: "string \<Rightarrow> arg_value \<Rightarrow> node \<Rightarrow> node" where
  "with_arg k v n = n\<lparr>node_args := node_args n @ [\<lparr>arg_key = k, arg_val = v\<rparr>]\<rparr>"

definition with_branch :: "u32 \<Rightarrow> node \<Rightarrow> node" where
  "with_branch b n = n\<lparr>node_branch := Some b\<rparr>"

definition with_group :: "string \<Rightarrow> node \<Rightarrow> node" where
  "with_group g n = n\<lparr>node_group := Some g\<rparr>"

datatype edge_kind = EData | EControl

record edge =
  edge_from :: string
  edge_to :: string
  edge_condition :: "string option"
  edge_mapping :: "(string \<times> string) list option"
  edge_priority :: "int option"
  edge_label :: "string option"
  edge_kind_of :: edge_kind

definition edge_new :: "string \<Rightarrow> string \<Rightarrow> edge" where
  "edge_new a b = \<lparr>edge_from = a, edge_to = b, edge_condition = None, edge_mapping = None,
     edge_priority = None, edge_label = None, edge_kind_of = EData\<rparr>"

definition edge_control :: "string \<Rightarrow> string \<Rightarrow> edge" where
  "edge_control a b = \<lparr>edge_from = a, edge_to = b, edge_condition = None, edge_mapping = None,
     edge_priority = None, edge_label = None, edge_kind_of = EControl\<rparr>"

definition edge_with_condition :: "string \<Rightarrow> string \<Rightarrow> string \<Rightarrow> edge" where
  "edge_with_condition a b c = \<lparr>edge_from = a, edge_to = b, edge_condition = Some c,
     edge_mapping = None, edge_priority = None, edge_label = None, edge_kind_of = EData\<rparr>"

definition edge_with_mapping :: "string \<Rightarrow> string \<Rightarrow> (string \<times> string) list \<Rightarrow> edge" where
  "edge_with_mapping a b m = \<lparr>edge_from = a, edge_to = b, edge_condition = None,
     edge_mapping = Some m, edge_priority = None, edge_label = None, edge_kind_of = EData\<rparr>"

record metadata =
  compiler_version :: string
  compiled_at :: string
  node_count :: u32
  edge_count :: u32
  max_node_execution_count :: u32
  max_context_memory_bytes :: u32
  max_recursion_depth :: u32
  max_execution_time_ms :: u32
  optimizations :: "string list"
  tool_deps :: "tool_dep list"
  subgraph_dependencies :: "string list"
  meta_json :: string

definition metadata_default :: metadata where
  "metadata_default = \<lparr>compiler_version = ''0.1.0'', compiled_at = [], node_count = 0,
     edge_count = 0, max_node_execution_count = 10000,
     max_context_memory_bytes = 10 * 1024 * 1024, max_recursion_depth = 5,
     max_execution_time_ms = 30000, optimizations = [], tool_deps = [],
     subgraph_dependencies = [], meta_json = []\<rparr>"

record execution_plan =
  plan_version :: nat
  plan_nodes :: "node list"
  plan_edges :: "edge list"
  plan_metadata :: metadata

definition execution_plan_new :: "node list \<Rightarrow> edge list \<Rightarrow> execution_plan" where
  "execution_plan_new ns es = \<lparr>plan_version = 3, plan_nodes = ns, plan_edges = es,
     plan_metadata = metadata_default\<lparr>node_count := length ns mod u32_modulus,
       edge_count := length es mod u32_modulus\<rparr>\<rparr>"

definition plan_get_node :: "execution_plan \<Rightarrow> string \<Rightarrow> node option" where
  "plan_get_node p i = find (\<lambda>n. node_id n = i) (plan_nodes p)"

definition plan_edges_from :: "execution_plan \<Rightarrow> string \<Rightarrow> edge list" where
  "plan_edges_from p i = filter (\<lambda>e. edge_from e = i) (plan_edges p)"

definition plan_edges_to :: "execution_plan \<Rightarrow> string \<Rightarrow> edge list" where
  "plan_edges_to p i = filter (\<lambda>e. edge_to e = i) (plan_edges p)"

section \<open>CompiledPlan\<close>

record compiled_arg =
  ca_key :: string
  ca_value :: string

record compiled_node =
  cn_index :: u32
  cn_id :: string
  cn_op :: opcode
  cn_args :: "compiled_arg list"
  cn_type :: "ty option"
  cn_branch :: "u32 option"
  cn_group :: "u32 option"

record compiled_edge =
  ce_from :: u32
  ce_to :: u32
  ce_condition :: "string option"
  ce_mapping :: "(string \<times> string) list option"
  ce_priority :: "int option"
  ce_label :: "string option"
  ce_kind :: edge_kind

record compiled_metadata =
  cm_compiler_version :: string
  cm_compiled_at :: string
  cm_node_count :: u32
  cm_edge_count :: u32
  cm_max_node_execution_count :: u32
  cm_max_context_memory_bytes :: u32
  cm_max_recursion_depth :: u32
  cm_max_execution_time_ms :: u32
  cm_optimizations :: "string list"
  cm_tool_deps :: "tool_dep list"
  cm_subgraph_dependencies :: "string list"
  cm_meta_json :: string

definition compiled_metadata_default :: compiled_metadata where
  "compiled_metadata_default = \<lparr>cm_compiler_version = ''0.2.0'', cm_compiled_at = [],
     cm_node_count = 0, cm_edge_count = 0, cm_max_node_execution_count = 10000,
     cm_max_context_memory_bytes = 10 * 1024 * 1024, cm_max_recursion_depth = 5,
     cm_max_execution_time_ms = 30000, cm_optimizations = [], cm_tool_deps = [],
     cm_subgraph_dependencies = [], cm_meta_json = []\<rparr>"

record compiled_plan =
  cp_version :: nat
  cp_nodes :: "compiled_node list"
  cp_edges :: "compiled_edge list"
  cp_metadata :: compiled_metadata
  cp_id_map :: "(string \<times> u32) list option"
  cp_groups :: "string list"

text \<open>\<open>arg_json\<close> stands for \<open>serde_json::to_string\<close> on an argument value.\<close>

definition compile_arg :: "(arg_value \<Rightarrow> string) \<Rightarrow> arg \<Rightarrow> compiled_arg" where
  "compile_arg arg_json a =
     \<lparr>ca_key = arg_key a,
      ca_value = (case arg_val a of AString s \<Rightarrow> s | other \<Rightarrow> arg_json other)\<rparr>"

text \<open>The table of \<open>GROUP\<close> titles: a known title keeps its number, a new one is appended.\<close>

definition intern_group ::
  "string \<Rightarrow> string list \<times> u32 smap \<Rightarrow> u32 \<times> string list \<times> u32 smap" where
  "intern_group g t =
     (case map_of (snd t) g of
        Some i \<Rightarrow> (i, t)
      | None \<Rightarrow>
          (let i = length (fst t) mod u32_modulus in (i, fst t @ [g], upd g i (snd t))))"

primrec compile_nodes ::
  "(arg_value \<Rightarrow> string) \<Rightarrow> nat \<Rightarrow> node list \<Rightarrow> string list \<times> u32 smap \<Rightarrow>
   compiled_node list \<times> string list \<times> u32 smap" where
  "compile_nodes aj idx [] t = ([], t)"
| "compile_nodes aj idx (n # ns) t =
     (let (gid, t') = (case node_group n of
            None \<Rightarrow> (None, t)
          | Some g \<Rightarrow> (case intern_group g t of (i, t') \<Rightarrow> (Some i, t')));
          c = \<lparr>cn_index = idx mod u32_modulus, cn_id = node_id n, cn_op = node_op n,
               cn_args = map (compile_arg aj) (node_args n), cn_type = node_type n,
               cn_branch = node_branch n, cn_group = gid\<rparr>;
          (cs, t'') = compile_nodes aj (Suc idx) ns t'
      in (c # cs, t''))"

primrec index_ids :: "nat \<Rightarrow> node list \<Rightarrow> u32 smap \<Rightarrow> u32 smap" where
  "index_ids idx [] m = m"
| "index_ids idx (n # ns) m =
     index_ids (Suc idx) ns (upd (node_id n) (idx mod u32_modulus) m)"

definition id_index :: "u32 smap \<Rightarrow> string \<Rightarrow> u32" where
  "id_index m i = (case map_of m i of Some k \<Rightarrow> k | None \<Rightarrow> u32_max)"

definition compile_edge :: "u32 smap \<Rightarrow> edge \<Rightarrow> compiled_edge" where
  "compile_edge m e =
     \<lparr>ce_from = id_index m (edge_from e), ce_to = id_index m (edge_to e),
      ce_condition = edge_condition e, ce_mapping = edge_mapping e,
      ce_priority = edge_priority e, ce_label = edge_label e, ce_kind = edge_kind_of e\<rparr>"

definition from_execution_plan ::
  "(arg_value \<Rightarrow> string) \<Rightarrow> execution_plan \<Rightarrow> string list \<Rightarrow> compiled_plan" where
  "from_execution_plan aj p opts =
     (let ids = index_ids 0 (plan_nodes p) [];
          (ns, gs, _) = compile_nodes aj 0 (plan_nodes p) ([], []);
          md = plan_metadata p
      in \<lparr>cp_version = 4, cp_nodes = ns, cp_edges = map (compile_edge ids) (plan_edges p),
          cp_metadata =
            \<lparr>cm_compiler_version = compiler_version md, cm_compiled_at = compiled_at md,
             cm_node_count = node_count md, cm_edge_count = edge_count md,
             cm_max_node_execution_count = max_node_execution_count md,
             cm_max_context_memory_bytes = max_context_memory_bytes md,
             cm_max_recursion_depth = max_recursion_depth md,
             cm_max_execution_time_ms = max_execution_time_ms md, cm_optimizations = opts,
             cm_tool_deps = tool_deps md,
             cm_subgraph_dependencies = subgraph_dependencies md,
             cm_meta_json = meta_json md\<rparr>,
          cp_id_map = Some ids, cp_groups = gs\<rparr>)"

definition get_node :: "compiled_plan \<Rightarrow> u32 \<Rightarrow> compiled_node option" where
  "get_node p i = list_at (cp_nodes p) i"

definition edges_from :: "compiled_plan \<Rightarrow> u32 \<Rightarrow> compiled_edge list" where
  "edges_from p i = filter (\<lambda>e. ce_from e = i) (cp_edges p)"

definition op_at :: "compiled_plan \<Rightarrow> u32 \<Rightarrow> opcode option" where
  "op_at p i = map_option cn_op (list_at (cp_nodes p) i)"

section \<open>Facts about compilation\<close>

lemma compile_nodes_length [simp]: "length (fst (compile_nodes aj i ns t)) = length ns"
  by (induction ns arbitrary: i t) (simp_all add: Let_def case_prod_unfold)

lemma compile_nodes_nth:
  "k < length ns \<Longrightarrow>
   (let c = fst (compile_nodes aj i ns t) ! k; n = ns ! k in
    cn_index c = (i + k) mod u32_modulus \<and> cn_id c = node_id n \<and> cn_op c = node_op n \<and>
    cn_args c = map (compile_arg aj) (node_args n) \<and> cn_type c = node_type n \<and>
    cn_branch c = node_branch n)"
proof (induction ns arbitrary: i t k)
  case Nil
  then show ?case by simp
next
  case (Cons n ns)
  show ?case
  proof (cases k)
    case 0
    then show ?thesis by (auto simp: Let_def split: prod.splits option.splits)
  next
    case (Suc j)
    with Cons.prems have j: "j < length ns" by simp
    have "fst (compile_nodes aj i (n # ns) t) ! Suc j =
        fst (compile_nodes aj (Suc i) ns (snd (case node_group n of None \<Rightarrow> (None, t)
          | Some g \<Rightarrow> (case intern_group g t of (x, t') \<Rightarrow> (Some x, t'))))) ! j"
      by (simp add: Let_def split: prod.splits)
    with Cons.IH [OF j, of "Suc i"] Suc show ?thesis by (simp add: Let_def)
  qed
qed

lemma index_ids_wf: "wf_map m \<Longrightarrow> wf_map (index_ids i ns m)"
  by (induction ns arbitrary: i m) auto

lemma index_ids_absent: "x \<notin> node_id ` set ns \<Longrightarrow> map_of (index_ids i ns m) x = map_of m x"
  by (induction ns arbitrary: i m) auto

lemma index_ids_nth:
  "distinct (map node_id ns) \<Longrightarrow> k < length ns \<Longrightarrow>
   map_of (index_ids i ns m) (node_id (ns ! k)) = Some ((i + k) mod u32_modulus)"
proof (induction ns arbitrary: i m k)
  case Nil
  then show ?case by simp
next
  case (Cons n ns)
  then show ?case by (cases k) (auto simp: index_ids_absent)
qed

text \<open>Group numbers point at the group's title.\<close>

definition groups_ok :: "string list \<times> u32 smap \<Rightarrow> bool" where
  "groups_ok t \<longleftrightarrow> (\<forall>g i. map_of (snd t) g = Some i \<longrightarrow> i < length (fst t) \<and> fst t ! i = g)"

lemma intern_group_ok:
  assumes "groups_ok t" "length (fst t) < u32_modulus" "intern_group g t = (i, t')"
  shows "groups_ok t' \<and> i < length (fst t') \<and> fst t' ! i = g \<and>
    length (fst t') \<le> Suc (length (fst t)) \<and> (\<exists>xs. fst t' = fst t @ xs)"
proof (cases "map_of (snd t) g")
  case None
  with assms have "i = length (fst t)" "t' = (fst t @ [g], upd g i (snd t))"
    by (auto simp: intern_group_def Let_def)
  moreover have "map_of (snd t) h = Some j \<Longrightarrow> j < length (fst t) \<and> fst t ! j = h" for h j
    using assms(1) by (simp add: groups_ok_def)
  ultimately show ?thesis by (simp add: groups_ok_def nth_append) (metis less_SucI)
next
  case (Some j)
  with assms have "i = j" "t' = t" by (simp_all add: intern_group_def)
  with Some assms(1) show ?thesis by (simp add: groups_ok_def)
qed

lemma compile_nodes_groups:
  "groups_ok t \<Longrightarrow> length (fst t) + length ns \<le> u32_modulus \<Longrightarrow>
   compile_nodes aj i ns t = (cs, t') \<Longrightarrow>
   groups_ok t' \<and> (\<exists>xs. fst t' = fst t @ xs) \<and>
   (\<forall>k < length ns. case node_group (ns ! k) of
      None \<Rightarrow> cn_group (cs ! k) = None
    | Some g \<Rightarrow> (\<exists>j. cn_group (cs ! k) = Some j \<and> j < length (fst t') \<and> fst t' ! j = g))"
proof (induction ns arbitrary: i t cs)
  case Nil
  then show ?case by simp
next
  case (Cons n ns)
  obtain gid t1 where g: "(case node_group n of None \<Rightarrow> (None, t)
      | Some g \<Rightarrow> (case intern_group g t of (x, t') \<Rightarrow> (Some x, t'))) = (gid, t1)"
    by (rule prod.exhaust)
  obtain ds t2 where d: "compile_nodes aj (Suc i) ns t1 = (ds, t2)"
    by (rule prod.exhaust)
  have t1: "groups_ok t1 \<and> length (fst t1) \<le> Suc (length (fst t)) \<and> (\<exists>xs. fst t1 = fst t @ xs) \<and>
      (case node_group n of None \<Rightarrow> gid = None
       | Some g \<Rightarrow> (\<exists>j. gid = Some j \<and> j < length (fst t1) \<and> fst t1 ! j = g))"
  proof (cases "node_group n")
    case None
    with g Cons.prems(1) show ?thesis by auto
  next
    case (Some h)
    obtain x t' where x: "intern_group h t = (x, t')"
      by (rule prod.exhaust)
    have "length (fst t) < u32_modulus" using Cons.prems(2) by simp
    from intern_group_ok [OF Cons.prems(1) this x] g Some x show ?thesis by auto
  qed
  have cs: "t' = t2" "\<exists>c. cs = c # ds \<and> cn_group c = gid"
    using Cons.prems(3) by (auto simp: Let_def g d split: prod.splits)
  have len: "length (fst t1) + length ns \<le> u32_modulus" using t1 Cons.prems(2) by simp
  from t1 have "groups_ok t1" by simp
  from Cons.IH [OF this len d [folded cs(1)]]
  have IH: "groups_ok t'" "\<exists>xs. fst t' = fst t1 @ xs"
    "\<forall>k < length ns. case node_group (ns ! k) of None \<Rightarrow> cn_group (ds ! k) = None
      | Some g \<Rightarrow> (\<exists>j. cn_group (ds ! k) = Some j \<and> j < length (fst t') \<and> fst t' ! j = g)" by auto
  have first: "case node_group n of None \<Rightarrow> gid = None
      | Some g \<Rightarrow> (\<exists>j. gid = Some j \<and> j < length (fst t') \<and> fst t' ! j = g)"
    using t1 IH(2) by (auto simp: nth_append split: option.splits)
  moreover have "\<exists>xs. fst t' = fst t @ xs" using t1 IH(2) by auto
  moreover from cs(2) obtain c where c: "cs = c # ds" "cn_group c = gid" by blast
  have "case node_group ((n # ns) ! k) of None \<Rightarrow> cn_group (cs ! k) = None
      | Some g \<Rightarrow> (\<exists>j. cn_group (cs ! k) = Some j \<and> j < length (fst t') \<and> fst t' ! j = g)"
    if "k < length (n # ns)" for k
  proof (cases k)
    case 0
    then show ?thesis using first c by (simp split: option.splits)
  next
    case (Suc j)
    with that have "j < length ns" by simp
    with IH(3) show ?thesis unfolding c Suc nth_Cons_Suc by blast
  qed
  ultimately show ?case using IH(1) by blast
qed

section \<open>FlatBuffers tables\<close>

record fb_arg =
  fa_key :: "string option"
  fa_value :: "string option"

record fb_node =
  fn_index :: u32
  fn_id :: "string option"
  fn_op :: nat
  fn_args :: "fb_arg list option"
  fn_type :: nat
  fn_branch :: u32
  fn_group :: u32

record fb_edge =
  fe_from :: u32
  fe_to :: u32
  fe_condition :: "string option"
  fe_mapping :: "(string option \<times> string option) list option"
  fe_priority :: int
  fe_label :: "string option"
  fe_kind :: nat

record fb_tool_dep =
  fd_name :: "string option"
  fd_version :: "string option"
  fd_pure :: bool
  fd_schema_hash :: "string option"

record fb_metadata =
  fm_compiler_version :: "string option"
  fm_compiled_at :: "string option"
  fm_node_count :: u32
  fm_edge_count :: u32
  fm_max_node_execution_count :: u32
  fm_max_context_memory_bytes :: u32
  fm_max_recursion_depth :: u32
  fm_max_execution_time_ms :: u32
  fm_optimizations :: "string list option"
  fm_tool_deps :: "fb_tool_dep list option"
  fm_subgraph_dependencies :: "string list option"
  fm_meta_json :: "string option"

record fb_plan =
  fp_version :: nat
  fp_nodes :: "fb_node list option"
  fp_edges :: "fb_edge list option"
  fp_metadata :: "fb_metadata option"
  fp_id_map :: "(string option \<times> u32) list option"
  fp_groups :: "string list option"

fun opcode_u8 :: "opcode \<Rightarrow> nat" where
  "opcode_u8 Input = 0"
| "opcode_u8 Call = 1"
| "opcode_u8 Calc = 2"
| "opcode_u8 Decide = 3"
| "opcode_u8 Switch = 4"
| "opcode_u8 Act = 5"
| "opcode_u8 Parallel = 6"
| "opcode_u8 Loop = 7"
| "opcode_u8 Wait = 8"
| "opcode_u8 Merge = 9"
| "opcode_u8 Error = 10"

definition opcode_of_u8 :: "nat \<Rightarrow> opcode" where
  "opcode_of_u8 n =
     (if n = 0 then Input else if n = 1 then Call else if n = 2 then Calc
      else if n = 3 then Decide else if n = 4 then Switch else if n = 5 then Act
      else if n = 6 then Parallel else if n = 7 then Loop else if n = 8 then Wait
      else if n = 9 then Merge else if n = 10 then Error else Input)"

fun type_to_fb :: "ty option \<Rightarrow> nat" where
  "type_to_fb None = 0"
| "type_to_fb (Some TyString) = 3"
| "type_to_fb (Some TyInt) = 1"
| "type_to_fb (Some TyFloat) = 2"
| "type_to_fb (Some TyBool) = 4"
| "type_to_fb (Some TyNull) = 5"
| "type_to_fb (Some TyAny) = 6"

definition type_of_fb :: "nat \<Rightarrow> ty option" where
  "type_of_fb t =
     (if t = 0 then None else if t = 1 then Some TyInt else if t = 2 then Some TyFloat
      else if t = 3 then Some TyString else if t = 4 then Some TyBool
      else if t = 5 then Some TyNull else if t = 6 then Some TyAny
      else if t = 7 \<or> t = 8 then Some TyAny else None)"

definition node_to_fb :: "compiled_node \<Rightarrow> fb_node" where
  "node_to_fb n =
     \<lparr>fn_index = cn_index n, fn_id = Some (cn_id n), fn_op = opcode_u8 (cn_op n),
      fn_args = Some (map (\<lambda>a. \<lparr>fa_key = Some (ca_key a), fa_value = Some (ca_value a)\<rparr>) (cn_args n)),
      fn_type = type_to_fb (cn_type n),
      fn_branch = (case cn_branch n of Some b \<Rightarrow> b | None \<Rightarrow> u32_max),
      fn_group = (case cn_group n of Some g \<Rightarrow> g | None \<Rightarrow> u32_max)\<rparr>"

definition edge_to_fb :: "compiled_edge \<Rightarrow> fb_edge" where
  "edge_to_fb e =
     \<lparr>fe_from = ce_from e, fe_to = ce_to e, fe_condition = ce_condition e,
      fe_mapping = map_option (map (\<lambda>(a, b). (Some a, Some b))) (ce_mapping e),
      fe_priority = (case ce_priority e of Some p \<Rightarrow> p | None \<Rightarrow> 0),
      fe_label = ce_label e,
      fe_kind = (case ce_kind e of EData \<Rightarrow> 0 | EControl \<Rightarrow> 1)\<rparr>"

definition tool_dep_to_fb :: "tool_dep \<Rightarrow> fb_tool_dep" where
  "tool_dep_to_fb d =
     \<lparr>fd_name = Some (dep_name d), fd_version = Some (dep_version d), fd_pure = dep_pure d,
      fd_schema_hash = Some (dep_schema_hash d)\<rparr>"

definition metadata_to_fb :: "compiled_metadata \<Rightarrow> fb_metadata" where
  "metadata_to_fb m =
     \<lparr>fm_compiler_version = Some (cm_compiler_version m),
      fm_compiled_at = Some (cm_compiled_at m), fm_node_count = cm_node_count m,
      fm_edge_count = cm_edge_count m,
      fm_max_node_execution_count = cm_max_node_execution_count m,
      fm_max_context_memory_bytes = cm_max_context_memory_bytes m,
      fm_max_recursion_depth = cm_max_recursion_depth m,
      fm_max_execution_time_ms = cm_max_execution_time_ms m,
      fm_optimizations = Some (cm_optimizations m),
      fm_tool_deps = Some (map tool_dep_to_fb (cm_tool_deps m)),
      fm_subgraph_dependencies = Some (cm_subgraph_dependencies m),
      fm_meta_json = Some (cm_meta_json m)\<rparr>"

definition plan_to_fb :: "compiled_plan \<Rightarrow> fb_plan" where
  "plan_to_fb p =
     \<lparr>fp_version = cp_version p, fp_nodes = Some (map node_to_fb (cp_nodes p)),
      fp_edges = Some (map edge_to_fb (cp_edges p)),
      fp_metadata = Some (metadata_to_fb (cp_metadata p)),
      fp_id_map = map_option (map (\<lambda>(i, k). (Some i, k))) (cp_id_map p),
      fp_groups = Some (cp_groups p)\<rparr>"

definition to_fb_bytes :: "(fb_plan \<Rightarrow> 'b) \<Rightarrow> compiled_plan \<Rightarrow> 'b" where
  "to_fb_bytes enc p = enc (plan_to_fb p)"

definition or_empty :: "string option \<Rightarrow> string" where
  "or_empty s = (case s of Some x \<Rightarrow> x | None \<Rightarrow> [])"

definition non_empty :: "string option \<Rightarrow> string option" where
  "non_empty s = Option.bind s (\<lambda>x. if x = [] then None else Some x)"

definition node_of_fb :: "fb_node \<Rightarrow> compiled_node" where
  "node_of_fb n =
     \<lparr>cn_index = fn_index n, cn_id = or_empty (fn_id n), cn_op = opcode_of_u8 (fn_op n),
      cn_args = (case fn_args n of
          None \<Rightarrow> []
        | Some as \<Rightarrow> map (\<lambda>a. \<lparr>ca_key = or_empty (fa_key a), ca_value = or_empty (fa_value a)\<rparr>) as),
      cn_type = type_of_fb (fn_type n),
      cn_branch = (if fn_branch n = u32_max then None else Some (fn_branch n)),
      cn_group = (if fn_group n = u32_max then None else Some (fn_group n))\<rparr>"

definition edge_of_fb :: "fb_edge \<Rightarrow> compiled_edge" where
  "edge_of_fb e =
     \<lparr>ce_from = fe_from e, ce_to = fe_to e, ce_condition = non_empty (fe_condition e),
      ce_mapping = map_option (map (\<lambda>(a, b). (or_empty a, or_empty b))) (fe_mapping e),
      ce_priority = (if fe_priority e = 0 then None else Some (fe_priority e)),
      ce_label = non_empty (fe_label e),
      ce_kind = (if fe_kind e = 1 then EControl else EData)\<rparr>"

definition tool_dep_of_fb :: "fb_tool_dep \<Rightarrow> tool_dep" where
  "tool_dep_of_fb d =
     \<lparr>dep_name = or_empty (fd_name d), dep_version = or_empty (fd_version d),
      dep_pure = fd_pure d, dep_schema_hash = or_empty (fd_schema_hash d)\<rparr>"

definition or_nil :: "'a list option \<Rightarrow> 'a list" where
  "or_nil xs = (case xs of Some ys \<Rightarrow> ys | None \<Rightarrow> [])"

definition metadata_of_fb :: "fb_metadata \<Rightarrow> compiled_metadata" where
  "metadata_of_fb m =
     \<lparr>cm_compiler_version = or_empty (fm_compiler_version m),
      cm_compiled_at = or_empty (fm_compiled_at m), cm_node_count = fm_node_count m,
      cm_edge_count = fm_edge_count m,
      cm_max_node_execution_count = fm_max_node_execution_count m,
      cm_max_context_memory_bytes = fm_max_context_memory_bytes m,
      cm_max_recursion_depth = fm_max_recursion_depth m,
      cm_max_execution_time_ms = fm_max_execution_time_ms m,
      cm_optimizations = or_nil (fm_optimizations m),
      cm_tool_deps = map tool_dep_of_fb (or_nil (fm_tool_deps m)),
      cm_subgraph_dependencies = or_nil (fm_subgraph_dependencies m),
      cm_meta_json = or_empty (fm_meta_json m)\<rparr>"

definition plan_of_fb :: "fb_plan \<Rightarrow> string + compiled_plan" where
  "plan_of_fb p =
     (case fp_metadata p of
        None \<Rightarrow> Inl ''FlatBuffers plan missing metadata''
      | Some m \<Rightarrow> Inr
          \<lparr>cp_version = fp_version p, cp_nodes = map node_of_fb (or_nil (fp_nodes p)),
           cp_edges = map edge_of_fb (or_nil (fp_edges p)), cp_metadata = metadata_of_fb m,
           cp_id_map = map_option (map (\<lambda>(i, k). (or_empty i, k))) (fp_id_map p),
           cp_groups = or_nil (fp_groups p)\<rparr>)"

definition from_fb_bytes :: "('b \<Rightarrow> string + fb_plan) \<Rightarrow> 'b \<Rightarrow> string + compiled_plan" where
  "from_fb_bytes root bytes =
     (case root bytes of
        Inl e \<Rightarrow> Inl (''FlatBuffers verification failed: '' @ e)
      | Inr p \<Rightarrow> plan_of_fb p)"

section \<open>What the tables can represent\<close>

definition node_representable :: "compiled_node \<Rightarrow> bool" where
  "node_representable n \<longleftrightarrow> cn_branch n \<noteq> Some u32_max \<and> cn_group n \<noteq> Some u32_max"

definition edge_representable :: "compiled_edge \<Rightarrow> bool" where
  "edge_representable e \<longleftrightarrow>
     ce_condition e \<noteq> Some [] \<and> ce_label e \<noteq> Some [] \<and> ce_priority e \<noteq> Some 0"

definition plan_representable :: "compiled_plan \<Rightarrow> bool" where
  "plan_representable p \<longleftrightarrow>
     (\<forall>n \<in> set (cp_nodes p). node_representable n) \<and> (\<forall>e \<in> set (cp_edges p). edge_representable e)"

lemma opcode_u8_inverse [simp]: "opcode_of_u8 (opcode_u8 op) = op"
  by (cases op) (simp_all add: opcode_of_u8_def)

lemma type_fb_inverse [simp]: "type_of_fb (type_to_fb t) = t"
  by (cases t rule: type_to_fb.cases) (simp_all add: type_of_fb_def)

lemma or_empty_Some [simp]: "or_empty (Some s) = s"
  by (simp add: or_empty_def)

lemma or_nil_Some [simp]: "or_nil (Some s) = s"
  by (simp add: or_nil_def)

lemma node_fb_iff: "node_of_fb (node_to_fb n) = n \<longleftrightarrow> node_representable n"
proof -
  have [simp]: "map (\<lambda>x. \<lparr>ca_key = ca_key x, ca_value = ca_value x\<rparr>) xs = xs" for xs :: "compiled_arg list"
    by (induction xs) auto
  show ?thesis
    by (cases n) (auto simp: node_of_fb_def node_to_fb_def node_representable_def comp_def
      split: option.splits)
qed

lemma pairs_fb [simp]: "(\<lambda>(a, b). (or_empty a, or_empty b)) \<circ> (\<lambda>(a, b). (Some a, Some b)) = id"
  by (auto simp: fun_eq_iff)

lemma ids_fb [simp]: "(\<lambda>(i, k). (or_empty i, k)) \<circ> (\<lambda>(i, k). (Some i, k)) = id"
  by (auto simp: fun_eq_iff)

lemma edge_fb_iff: "edge_of_fb (edge_to_fb e) = e \<longleftrightarrow> edge_representable e"
proof (cases e)
  case (fields f t c m p l k)
  have m: "map_option (map (\<lambda>(a, b). (or_empty a, or_empty b)))
      (map_option (map (\<lambda>(a, b). (Some a, Some b))) m) = m"
    by (cases m) simp_all
  show ?thesis unfolding fields
    by (cases c; cases p; cases l; cases k)
      (auto simp: edge_of_fb_def edge_to_fb_def edge_representable_def non_empty_def m)
qed

lemma tool_dep_fb [simp]: "tool_dep_of_fb (tool_dep_to_fb d) = d"
  by (cases d) (simp add: tool_dep_of_fb_def tool_dep_to_fb_def)

lemma metadata_fb [simp]: "metadata_of_fb (metadata_to_fb m) = m"
  by (cases m) (simp add: metadata_of_fb_def metadata_to_fb_def comp_def)

lemma map_id_iff: "map f xs = xs \<longleftrightarrow> (\<forall>x \<in> set xs. f x = x)"
  by (induction xs) auto

lemma plan_fb_iff: "plan_of_fb (plan_to_fb p) = Inr p \<longleftrightarrow> plan_representable p"
proof -
  have ids: "map_option (map (\<lambda>(i, k). (or_empty i, k)))
      (map_option (map (\<lambda>(i, k). (Some i, k))) (cp_id_map p)) = cp_id_map p"
    by (cases "cp_id_map p") simp_all
  have "plan_of_fb (plan_to_fb p) = Inr p \<longleftrightarrow>
      map (node_of_fb \<circ> node_to_fb) (cp_nodes p) = cp_nodes p \<and>
      map (edge_of_fb \<circ> edge_to_fb) (cp_edges p) = cp_edges p"
    unfolding plan_of_fb_def plan_to_fb_def using ids by (cases p) simp
  then show ?thesis
    by (simp add: map_id_iff node_fb_iff edge_fb_iff plan_representable_def)
qed

section \<open>Properties of plans and their binary form\<close>

text \<open>C9: writing a plan to FlatBuffers and reading it back gives the same plan exactly when the plan
  avoids the values the tables use for an absent field (an empty condition or label, priority 0,
  branch or group \<open>u32::MAX\<close>), for any codec that reads back what it wrote.\<close>

theorem fb_roundtrip:
  assumes "\<And>t. root (enc t) = Inr t"
  shows "from_fb_bytes root (to_fb_bytes enc p) = Inr p \<longleftrightarrow> plan_representable p"
  by (simp add: from_fb_bytes_def to_fb_bytes_def assms plan_fb_iff)

definition labelled_plan :: "string \<Rightarrow> compiled_plan" where
  "labelled_plan l =
     \<lparr>cp_version = 4, cp_nodes = [],
      cp_edges = [\<lparr>ce_from = 0, ce_to = 1, ce_condition = None, ce_mapping = None,
        ce_priority = None, ce_label = Some l, ce_kind = EData\<rparr>],
      cp_metadata = compiled_metadata_default, cp_id_map = None, cp_groups = []\<rparr>"

theorem fb_roundtrip_witness:
  "from_fb_bytes Inr (to_fb_bytes id (labelled_plan ''yes'')) = Inr (labelled_plan ''yes'') \<and>
   from_fb_bytes Inr (to_fb_bytes id (labelled_plan [])) \<noteq> Inr (labelled_plan [])"
  using fb_roundtrip [of Inr id "labelled_plan ''yes''"] fb_roundtrip [of Inr id "labelled_plan []"]
  by (simp add: labelled_plan_def plan_representable_def edge_representable_def)

text \<open>in the compiled plan the node at position \<open>k\<close> is the plan's \<open>k\<close>-th node with index \<open>k\<close>, its
  group number points at the title of its group, and an edge between two nodes of the plan joins
  their positions.\<close>

theorem compiled_plan_positions:
  assumes "p' = from_execution_plan aj p opts" "distinct (map node_id (plan_nodes p))"
    and "length (plan_nodes p) < u32_modulus" "k < length (plan_nodes p)"
  shows "length (cp_nodes p') = length (plan_nodes p) \<and>
    cn_index (cp_nodes p' ! k) = k \<and>
    cn_id (cp_nodes p' ! k) = node_id (plan_nodes p ! k) \<and>
    cn_op (cp_nodes p' ! k) = node_op (plan_nodes p ! k) \<and>
    map_option (\<lambda>j. cp_groups p' ! j) (cn_group (cp_nodes p' ! k)) = node_group (plan_nodes p ! k) \<and>
    (\<forall>e. edge_from e = node_id (plan_nodes p ! k) \<longrightarrow>
      ce_from (compile_edge (index_ids 0 (plan_nodes p) []) e) = k) \<and>
    (\<forall>e. edge_to e = node_id (plan_nodes p ! k) \<longrightarrow>
      ce_to (compile_edge (index_ids 0 (plan_nodes p) []) e) = k) \<and>
    cp_edges p' = map (compile_edge (index_ids 0 (plan_nodes p) [])) (plan_edges p)"
proof -
  obtain cs gs m where c: "compile_nodes aj 0 (plan_nodes p) ([], []) = (cs, gs, m)"
    by (rule prod_cases3)
  have n: "cp_nodes p' = cs" "cp_groups p' = gs"
    "cp_edges p' = map (compile_edge (index_ids 0 (plan_nodes p) [])) (plan_edges p)"
    using assms(1) c by (simp_all add: from_execution_plan_def Let_def)
  have l: "length cs = length (plan_nodes p)"
    using compile_nodes_length [of aj 0 "plan_nodes p" "([], [])"] c by simp
  have "case node_group (plan_nodes p ! k) of None \<Rightarrow> cn_group (cs ! k) = None
      | Some g \<Rightarrow> (\<exists>j. cn_group (cs ! k) = Some j \<and> j < length gs \<and> gs ! j = g)"
    using compile_nodes_groups [OF _ _ c, THEN conjunct2, THEN conjunct2, rule_format, OF _ _ assms(4)]
      assms(3) by (simp add: groups_ok_def cong: option.case_cong)
  then have g: "map_option (\<lambda>j. gs ! j) (cn_group (cs ! k)) = node_group (plan_nodes p ! k)"
    by (auto split: option.splits)
  show ?thesis unfolding n
    using compile_nodes_nth [OF assms(4), of aj 0 "([], [])"] c l g assms(3,4)
      index_ids_nth [OF assms(2,4), of 0 "[]"]
    by (simp add: Let_def compile_edge_def id_index_def)
qed

definition grouped_plan :: execution_plan where
  "grouped_plan = execution_plan_new
     [node_new ''a'' Calc, with_group ''G'' (node_new ''b'' Calc)] [edge_new ''a'' ''b'']"

theorem compiled_plan_positions_witness:
  "cn_id (cp_nodes (from_execution_plan (\<lambda>_. []) grouped_plan []) ! 1) = ''b''"
  using compiled_plan_positions [of "from_execution_plan (\<lambda>_. []) grouped_plan []" "\<lambda>_. []" grouped_plan "[]" 1]
  by (simp add: grouped_plan_def execution_plan_new_def node_new_def with_group_def u32_modulus_def)

end
