(* ===== verification/Graphs.thy ===== *)
theory Graphs
  imports Plans
begin

text \<open>
  The graph algorithms of the two plan formats.  A worklist loop (\<open>while let Some(x) =
  stack.pop()\<close>) is shared by Kahn's algorithm (\<open>ExecutionPlan::topological_order\<close> in
  \<open>plan.rs\<close> and \<open>topological_order\<close> of the interpreter in \<open>compiled_executor.rs\<close>) and by
  the reachability search behind \<open>identify_loop_bodies\<close>.  The correctness of Kahn's
  algorithm and of the search is proved once, in the locales \<open>kahn\<close> and \<open>explore\<close>, for any
  table of in-degrees, and interpreted on both formats.

  A stack is a list whose head is the top; the loop carries fuel, and the number of rounds
  that is always enough is proved.
\<close>

section \<open>Worklists\<close>

fun worklist :: "nat \<Rightarrow> ('a \<Rightarrow> 's \<Rightarrow> 'a list \<times> 's) \<Rightarrow> 'a list \<Rightarrow> 's \<Rightarrow> 's option" where
  "worklist k f [] s = Some s"
| "worklist 0 f (x # q) s = None"
| "worklist (Suc k) f (x # q) s = (case f x s of (ps, s') \<Rightarrow> worklist k f (ps @ q) s')"

lemma worklist_invariant:
  assumes "worklist k f q s = Some t" "I q s"
    and "\<And>x q s ps s'. I (x # q) s \<Longrightarrow> f x s = (ps, s') \<Longrightarrow> I (ps @ q) s'"
  shows "I [] t"
  using assms
proof (induction k f q s rule: worklist.induct)
  case (3 k f x q s)
  obtain ps s' where f: "f x s = (ps, s')" by (rule prod.exhaust)
  with "3.prems" have "I (ps @ q) s'" "worklist k f (ps @ q) s' = Some t" by auto
  with "3.IH" [OF f [symmetric]] "3.prems"(3) show ?case by blast
qed auto

lemma worklist_total:
  assumes "I q s" "m q s \<le> k"
    and "\<And>x q s ps s'. I (x # q) s \<Longrightarrow> f x s = (ps, s') \<Longrightarrow> I (ps @ q) s' \<and> m (ps @ q) s' < (m (x # q) s :: nat)"
  shows "worklist k f q s \<noteq> None"
  using assms
proof (induction k f q s rule: worklist.induct)
  case (2 f x q s)
  obtain ps s' where "f x s = (ps, s')" by (rule prod.exhaust)
  with 2 show ?case by fastforce
next
  case (3 k f x q s)
  obtain ps s' where f: "f x s = (ps, s')" by (rule prod.exhaust)
  with "3.prems" have "I (ps @ q) s'" "m (ps @ q) s' < m (x # q) s" by blast+
  then have "m (ps @ q) s' \<le> k" using "3.prems"(2) by simp
  with "3.IH" [OF f [symmetric] \<open>I (ps @ q) s'\<close>] "3.prems"(3) have "worklist k f (ps @ q) s' \<noteq> None"
    by blast
  with f show ?case by simp
qed auto

section \<open>Topological orders\<close>

definition topo_order :: "'a set \<Rightarrow> ('a \<times> 'a) list \<Rightarrow> 'a list \<Rightarrow> bool" where
  "topo_order K es vs \<longleftrightarrow> distinct vs \<and> set vs = K \<and>
     (\<forall>j < length vs. \<forall>u. (u, vs ! j) \<in> set es \<longrightarrow> u \<in> set (take j vs))"

text \<open>The part of the graph an order has to respect: the edges into known nodes.\<close>

definition edges_into :: "'a set \<Rightarrow> ('a \<times> 'a) list \<Rightarrow> ('a \<times> 'a) set" where
  "edges_into K es = {(u, v) \<in> set es. v \<in> K}"

lemma topo_order_acyclic:
  assumes "topo_order K es vs"
  shows "acyclic (edges_into K es)" and "fst ` edges_into K es \<subseteq> K"
proof -
  define pos where "pos v = (THE i. i < length vs \<and> vs ! i = v)" for v
  have pos: "pos (vs ! i) = i" if "i < length vs" for i
    using assms that unfolding pos_def topo_order_def by (auto simp: nth_eq_iff_index_eq)
  have step: "pos u < pos v \<and> u \<in> K" if "(u, v) \<in> edges_into K es" for u v
  proof -
    from that assms obtain j where j: "j < length vs" "vs ! j = v"
      by (auto simp: edges_into_def topo_order_def in_set_conv_nth)
    with that assms have "u \<in> set (take j vs)" by (auto simp: edges_into_def topo_order_def)
    then obtain i where i: "i < j" "vs ! i = u" by (auto simp: in_set_conv_nth)
    with j pos assms show ?thesis by (auto simp: topo_order_def)
  qed
  then have "edges_into K es \<subseteq> measure pos" by auto
  then show "acyclic (edges_into K es)"
    by (meson acyclic_subset wf_acyclic wf_measure)
  show "fst ` edges_into K es \<subseteq> K" using step by auto
qed

section \<open>Kahn's algorithm\<close>

definition relax ::
  "('d \<Rightarrow> 'a \<Rightarrow> nat option) \<Rightarrow> ('a \<Rightarrow> 'd \<Rightarrow> 'd) \<Rightarrow> ('a \<Rightarrow> 'n option) \<Rightarrow>
   'a \<Rightarrow> 'n list \<times> 'd \<Rightarrow> 'n list \<times> 'd" where
  "relax look dec fetch v t =
     (case look (snd t) v of
        None \<Rightarrow> t
      | Some _ \<Rightarrow>
          (let d' = dec v (snd t) in
           (if look d' v = Some 0 then
              (case fetch v of Some x \<Rightarrow> x # fst t | None \<Rightarrow> fst t)
            else fst t, d')))"

definition targets :: "('a \<times> 'a) list \<Rightarrow> 'a \<Rightarrow> 'a list" where
  "targets es u = map snd (filter (\<lambda>e. fst e = u) es)"

definition kahn_step ::
  "('d \<Rightarrow> 'a \<Rightarrow> nat option) \<Rightarrow> ('a \<Rightarrow> 'd \<Rightarrow> 'd) \<Rightarrow> ('a \<Rightarrow> 'n option) \<Rightarrow> ('n \<Rightarrow> 'a) \<Rightarrow>
   ('a \<times> 'a) list \<Rightarrow> 'n \<Rightarrow> 'n list \<times> 'd \<Rightarrow> 'n list \<times> 'n list \<times> 'd" where
  "kahn_step look dec fetch key es x s =
     (case fold (relax look dec fetch) (targets es (key x)) ([], snd s) of
        (ps, d) \<Rightarrow> (ps, fst s @ [x], d))"

text \<open>Edges into \<open>v\<close> whose source has not been emitted.\<close>

definition pending :: "('a \<times> 'a) list \<Rightarrow> 'a set \<Rightarrow> 'a \<Rightarrow> nat" where
  "pending es S v = length (filter (\<lambda>e. snd e = v \<and> fst e \<notin> S) es)"

lemma pending_insert:
  "u \<notin> S \<Longrightarrow> pending es S v = pending es (insert u S) v + count_list (targets es u) v"
  by (induction es) (auto simp: pending_def targets_def)

lemma pending_0: "pending es S v = 0 \<longleftrightarrow> (\<forall>u. (u, v) \<in> set es \<longrightarrow> u \<in> S)"
  by (auto simp: pending_def filter_empty_conv)

locale kahn =
  fixes nodes :: "'n list" and key :: "'n \<Rightarrow> 'a" and es :: "('a \<times> 'a) list"
    and look :: "'d \<Rightarrow> 'a \<Rightarrow> nat option" and dec :: "'a \<Rightarrow> 'd \<Rightarrow> 'd"
    and fetch :: "'a \<Rightarrow> 'n option" and init :: 'd
  assumes distinct_keys: "distinct (map key nodes)"
    and fetch_key: "x \<in> set nodes \<Longrightarrow> fetch (key x) = Some x"
    and look_dec: "look d v = Some (Suc k) \<Longrightarrow> look (dec v d) = (look d)(v \<mapsto> k)"
    and look_init: "look init v = (if v \<in> key ` set nodes then Some (pending es {} v) else None)"
begin

abbreviation "K \<equiv> key ` set nodes"

lemma relax_fold:
  assumes "\<forall>v. look d v = (if v \<in> K then Some (c v + count_list ts v) else None)"
    and "fold (relax look dec fetch) ts (q, d) = (q', d')"
  shows "(\<forall>v. look d' v = (if v \<in> K then Some (c v) else None)) \<and>
    (\<exists>new. q' = new @ q \<and> set new \<subseteq> set nodes \<and> distinct (map key new) \<and>
       key ` set new = {v \<in> K. v \<in> set ts \<and> c v = 0})"
  using assms
proof (induction ts arbitrary: q d)
  case Nil
  then show ?case by auto
next
  case (Cons v ts)
  show ?case
  proof (cases "v \<in> K")
    case False
    with Cons.prems have "relax look dec fetch v (q, d) = (q, d)" by (simp add: relax_def)
    with Cons.prems have f: "fold (relax look dec fetch) ts (q, d) = (q', d')" by simp
    have "\<forall>w. look d w = (if w \<in> K then Some (c w + count_list ts w) else None)"
      using Cons.prems(1) False by auto
    from Cons.IH [OF this f] False show ?thesis by auto
  next
    case True
    then obtain x where x: "x \<in> set nodes" "key x = v" by auto
    with fetch_key have fx: "fetch v = Some x" by auto
    let ?k = "c v + count_list ts v"
    have "look d v = Some (Suc ?k)" using Cons.prems(1) True by simp
    note ld = look_dec [OF this]
    let ?q = "if ?k = 0 then x # q else q"
    have "relax look dec fetch v (q, d) = (?q, dec v d)"
      using \<open>look d v = _\<close> by (simp add: relax_def ld fx Let_def)
    with Cons.prems(2) have f: "fold (relax look dec fetch) ts (?q, dec v d) = (q', d')" by simp
    have "\<forall>w. look (dec v d) w = (if w \<in> K then Some (c w + count_list ts w) else None)"
      using Cons.prems(1) True by (simp add: ld)
    from Cons.IH [OF this f] obtain new where
      new: "\<forall>v. look d' v = (if v \<in> K then Some (c v) else None)" "q' = new @ ?q"
        "set new \<subseteq> set nodes" "distinct (map key new)"
        "key ` set new = {v \<in> K. v \<in> set ts \<and> c v = 0}" by blast
    show ?thesis
    proof (cases "?k = 0")
      case True
      then have v: "c v = 0" "v \<notin> set ts" by (auto simp: count_list_0_iff)
      have "q' = (new @ [x]) @ q" "set (new @ [x]) \<subseteq> set nodes"
        "key ` set (new @ [x]) = {w \<in> K. w \<in> set (v # ts) \<and> c w = 0}"
        using new x v True \<open>v \<in> K\<close> by auto
      moreover have "distinct (map key (new @ [x]))" using new x v by auto
      ultimately show ?thesis using new(1) by blast
    next
      case False
      then have "c v \<noteq> 0 \<or> v \<in> set ts" by (auto simp: count_list_0_iff)
      then have "key ` set new = {w \<in> K. w \<in> set (v # ts) \<and> c w = 0}" using new(5) by auto
      with new False show ?thesis by auto
    qed
  qed
qed

definition inv :: "'n list \<Rightarrow> 'n list \<times> 'd \<Rightarrow> bool" where
  "inv q s \<longleftrightarrow> (let r = fst s; S = key ` set r in
     set (r @ q) \<subseteq> set nodes \<and> distinct (map key (r @ q)) \<and>
     (\<forall>v. look (snd s) v = (if v \<in> K then Some (pending es S v) else None)) \<and>
     (\<forall>v \<in> K. v \<in> key ` set (r @ q) \<longleftrightarrow> pending es S v = 0) \<and>
     (\<forall>j < length r. \<forall>u. (u, key (r ! j)) \<in> set es \<longrightarrow> u \<in> key ` set (take j r)))"

lemma inv_step:
  assumes "inv (x # q) s" "kahn_step look dec fetch key es x s = (ps, s')"
  shows "inv (ps @ q) s' \<and> length (fst s') = Suc (length (fst s))"
proof -
  obtain r d where s: "s = (r, d)" by (cases s)
  let ?S = "key ` set r"
  from assms(1) have I: "set (r @ x # q) \<subseteq> set nodes" "distinct (map key (r @ x # q))"
    "\<forall>v. look d v = (if v \<in> K then Some (pending es ?S v) else None)"
    "\<forall>v \<in> K. v \<in> key ` set (r @ x # q) \<longleftrightarrow> pending es ?S v = 0"
    "\<forall>j < length r. \<forall>u. (u, key (r ! j)) \<in> set es \<longrightarrow> u \<in> key ` set (take j r)"
    by (simp_all add: inv_def s)
  from assms(2) obtain d' where
    f: "fold (relax look dec fetch) (targets es (key x)) ([], d) = (ps, d')"
    and s': "s' = (r @ [x], d')"
    by (auto simp: kahn_step_def s split: prod.splits)
  have x: "key x \<notin> ?S" "x \<in> set nodes" using I by auto
  let ?c = "pending es (insert (key x) ?S)"
  have p: "pending es ?S v = ?c v + count_list (targets es (key x)) v" for v
    using pending_insert [OF x(1)] .
  have "\<forall>v. look d v = (if v \<in> K then Some (?c v + count_list (targets es (key x)) v) else None)"
    using I(3) p by simp
  from relax_fold [OF this f] have
    new: "\<forall>v. look d' v = (if v \<in> K then Some (?c v) else None)" "set ps \<subseteq> set nodes"
      "distinct (map key ps)" "key ` set ps = {v \<in> K. v \<in> set (targets es (key x)) \<and> ?c v = 0}"
    by auto
  have fresh: "v \<notin> key ` set (r @ x # q)" if "v \<in> key ` set ps" for v
  proof -
    from that new(4) have "v \<in> K" "count_list (targets es (key x)) v \<noteq> 0"
      by (auto simp: count_list_0_iff)
    then have "pending es ?S v \<noteq> 0" using p [of v] by simp
    with bspec [OF I(4) \<open>v \<in> K\<close>] show ?thesis by simp
  qed
  have iff: "v \<in> key ` set (r @ [x] @ ps @ q) \<longleftrightarrow> ?c v = 0" if "v \<in> K" for v
  proof (cases "v \<in> set (targets es (key x))")
    case True
    then have "pending es ?S v \<noteq> 0" using p [of v] by (simp add: count_list_0_iff)
    with bspec [OF I(4) that] have "v \<notin> key ` set (r @ x # q)" by simp
    with new(4) that True show ?thesis by auto
  next
    case False
    then have "pending es ?S v = ?c v" using p [of v] by (simp add: count_list_0_iff)
    moreover have "v \<notin> key ` set ps" using new(4) False by simp
    ultimately show ?thesis using bspec [OF I(4) that] by (simp add: image_Un)
  qed
  have pend: "pending es ?S (key x) = 0" using I(4) x by auto
  have fwd: "u \<in> key ` set (take j (r @ [x]))"
    if "j < length (r @ [x])" "(u, key ((r @ [x]) ! j)) \<in> set es" for j u
  proof (cases "j < length r")
    case True
    with that I(5) show ?thesis by (auto simp: nth_append)
  next
    case False
    with that have "j = length r" by simp
    with that pend show ?thesis by (auto simp: pending_0)
  qed
  have "distinct (map key (r @ [x] @ ps @ q))"
    using I(2) new(3) fresh by (auto simp: image_iff)
  with I(1) new(1,2) iff fwd show ?thesis
    by (simp add: inv_def s s' Let_def insert_commute)
qed

definition start :: "'n list" where
  "start = rev (filter (\<lambda>n. look init (key n) = Some 0) nodes)"

lemma inv_start: "inv start ([], init)"
proof -
  have "distinct (map key start)"
    using distinct_keys by (simp add: start_def rev_map [symmetric] distinct_map_filter)
  then show ?thesis by (auto simp: inv_def start_def look_init split: if_splits)
qed

lemma inv_length: "inv q s \<Longrightarrow> length (fst s) + length q \<le> length nodes"
proof -
  assume "inv q s"
  then have d: "distinct (map key (fst s @ q))" "set (fst s @ q) \<subseteq> set nodes"
    by (auto simp: inv_def Let_def)
  then have "card (set (fst s @ q)) = length (fst s @ q)"
    by (metis distinct_card distinct_map)
  with d show ?thesis
    by (metis List.finite_set card_length card_mono length_append order_trans)
qed

lemma total: "worklist (length nodes) (kahn_step look dec fetch key es) start ([], init) \<noteq> None"
proof (rule worklist_total [where I = inv and m = "\<lambda>q s. length nodes - length (fst s)"])
  show "inv start ([], init)" by (rule inv_start)
next
  fix x q s ps s'
  assume *: "inv (x # q) s" "kahn_step look dec fetch key es x s = (ps, s')"
  from inv_length [OF *(1)] have "length (fst s) < length nodes" by simp
  with inv_step [OF *] show "inv (ps @ q) s' \<and>
      length nodes - length (fst s') < length nodes - length (fst s)" by auto
qed simp

lemma final:
  assumes "worklist k (kahn_step look dec fetch key es) start ([], init) = Some s"
  shows "inv [] s"
  using assms inv_start by (rule worklist_invariant) (use inv_step in blast)

lemma final_complete:
  assumes "inv [] s" "length (fst s) = length nodes"
  shows "topo_order K es (map key (fst s))"
proof -
  from assms(1) have i: "set (fst s) \<subseteq> set nodes" "distinct (map key (fst s))"
    "\<forall>j < length (fst s). \<forall>u. (u, key (fst s ! j)) \<in> set es \<longrightarrow> u \<in> key ` set (take j (fst s))"
    by (auto simp: inv_def Let_def)
  have "distinct (fst s)" "distinct nodes" using i(2) distinct_keys by (auto simp: distinct_map)
  then have "card (set (fst s)) = card (set nodes)" using assms(2) by (simp add: distinct_card)
  with i(1) have "set (fst s) = set nodes" by (simp add: card_subset_eq)
  with i(2,3) show ?thesis by (auto simp: topo_order_def take_map)
qed

lemma final_incomplete:
  assumes "inv [] s" "length (fst s) \<noteq> length nodes"
  shows "\<not> (acyclic (edges_into K es) \<and> fst ` edges_into K es \<subseteq> K)"
proof
  assume acyc: "acyclic (edges_into K es) \<and> fst ` edges_into K es \<subseteq> K"
  let ?S = "key ` set (fst s)"
  from assms(1) have i: "set (fst s) \<subseteq> set nodes" "distinct (map key (fst s))"
    "\<forall>v \<in> K. v \<in> ?S \<longleftrightarrow> pending es ?S v = 0"
    by (auto simp: inv_def Let_def)
  have "?S \<noteq> K"
  proof
    assume "?S = K"
    then have "card ?S = card K" by simp
    moreover have "card ?S = length (fst s)" using i(2) by (metis distinct_card length_map list.set_map)
    moreover have "card K = length nodes" using distinct_keys by (metis distinct_card length_map list.set_map)
    ultimately show False using assms(2) by simp
  qed
  with i(1) have "K - ?S \<noteq> {}" by auto
  moreover have "wf (edges_into K es)"
    using acyc by (intro finite_acyclic_wf) (auto simp: edges_into_def intro: finite_subset [of _ "set es"])
  ultimately obtain v where v: "v \<in> K - ?S" "\<And>u. (u, v) \<in> edges_into K es \<Longrightarrow> u \<notin> K - ?S"
    by (metis wfE_min ex_in_conv)
  with i(3) have "pending es ?S v \<noteq> 0" by blast
  then obtain u where "(u, v) \<in> set es" "u \<notin> ?S" by (auto simp: pending_0)
  with v acyc show False by (force simp: edges_into_def)
qed

text \<open>The whole algorithm: never out of fuel, an order or none exists.\<close>

lemma kahn_correct:
  "\<exists>s. worklist (length nodes) (kahn_step look dec fetch key es) start ([], init) = Some s \<and>
     set (fst s) \<subseteq> set nodes \<and>
     (length (fst s) = length nodes \<longleftrightarrow> acyclic (edges_into K es) \<and> fst ` edges_into K es \<subseteq> K) \<and>
     (length (fst s) = length nodes \<longrightarrow> topo_order K es (map key (fst s)))"
proof -
  from total obtain s where s: "worklist (length nodes) (kahn_step look dec fetch key es) start ([], init) = Some s"
    by blast
  note i = final [OF s]
  then have "set (fst s) \<subseteq> set nodes" by (simp add: inv_def Let_def)
  moreover have "length (fst s) = length nodes \<longleftrightarrow> acyclic (edges_into K es) \<and> fst ` edges_into K es \<subseteq> K"
    using final_complete [OF i] final_incomplete [OF i] topo_order_acyclic [of K es] by blast
  ultimately show ?thesis using s final_complete [OF i] by blast
qed

end

section \<open>The interpreter's order\<close>

text \<open>
  \<open>topological_order\<close> of \<open>CompiledExecutor\<close>: \<open>in_degree\<close> is a vector of \<open>u32\<close> counters over
  the positions of the plan's nodes; an edge into a position outside the plan is ignored.
\<close>

definition plan_edge_pairs :: "compiled_plan \<Rightarrow> (u32 \<times> u32) list" where
  "plan_edge_pairs p = map (\<lambda>e. (ce_from e, ce_to e)) (cp_edges p)"

definition count_in_degree :: "compiled_plan \<Rightarrow> u32 list" where
  "count_in_degree p = fold (\<lambda>e deg.
       if ce_to e < length deg then deg[ce_to e := u32_add (deg ! ce_to e) 1] else deg)
     (cp_edges p) (replicate (length (cp_nodes p)) 0)"

definition relax_index :: "compiled_edge \<Rightarrow> u32 list \<times> u32 list \<Rightarrow> u32 list \<times> u32 list" where
  "relax_index e t =
     (let to = ce_to e; deg = snd t in
      if to < length deg then
        (let deg' = deg[to := deg ! to - 1] in
         (if deg' ! to = 0 then to # fst t else fst t, deg'))
      else t)"

definition order_step ::
  "compiled_plan \<Rightarrow> u32 \<Rightarrow> u32 list \<times> u32 list \<Rightarrow> u32 list \<times> u32 list \<times> u32 list" where
  "order_step p idx s =
     (case fold relax_index (edges_from p idx) ([], snd s) of
        (pushed, deg) \<Rightarrow> (pushed, fst s @ [idx], deg))"

text \<open>\<open>None\<close> is \<open>ExecutionError::CycleDetected\<close>.\<close>

definition topological_order :: "compiled_plan \<Rightarrow> u32 list option" where
  "topological_order p =
     (let n = length (cp_nodes p); deg = count_in_degree p;
          queue = rev (filter (\<lambda>i. deg ! i = 0) [0..<n mod u32_modulus])
      in case worklist n (order_step p) queue ([], deg) of
           None \<Rightarrow> None
         | Some s \<Rightarrow> if length (fst s) \<noteq> n then None else Some (fst s))"

text \<open>A plan whose counters fit: fewer than \<open>2 ^ 32\<close> nodes and edges.\<close>

definition plan_sized :: "compiled_plan \<Rightarrow> bool" where
  "plan_sized p \<longleftrightarrow> length (cp_nodes p) < u32_modulus \<and> length (cp_edges p) < u32_modulus"

definition dec_index :: "u32 \<Rightarrow> u32 list \<Rightarrow> u32 list" where
  "dec_index v d = d[v := d ! v - 1]"

lemma relax_index: "relax_index e = relax list_at dec_index Some (ce_to e)"
  by (auto simp: relax_index_def relax_def dec_index_def list_at_def Let_def fun_eq_iff)

lemma targets_edges: "targets (plan_edge_pairs p) u = map ce_to (edges_from p u)"
proof -
  have "targets (map (\<lambda>e. (ce_from e, ce_to e)) es) u = map ce_to (filter (\<lambda>e. ce_from e = u) es)" for es
    by (induction es) (auto simp: targets_def)
  then show ?thesis by (simp add: plan_edge_pairs_def edges_from_def)
qed

lemma order_step: "order_step p = kahn_step list_at dec_index Some id (plan_edge_pairs p)"
proof -
  have "fold relax_index es = fold (relax list_at dec_index Some) (map ce_to es)" for es
    by (induction es) (simp_all add: relax_index)
  then show ?thesis by (simp add: fun_eq_iff order_step_def kahn_step_def targets_edges)
qed

lemma count_in_degree:
  assumes "plan_sized p"
  shows "length (count_in_degree p) = length (cp_nodes p)"
    and "v < length (cp_nodes p) \<Longrightarrow> count_in_degree p ! v = pending (plan_edge_pairs p) {} v"
proof -
  let ?f = "\<lambda>e deg. if ce_to e < length deg then deg[ce_to e := u32_add (deg ! ce_to e) 1] else deg"
  have *: "length (fold ?f es d) = length d \<and>
      (\<forall>v < length d. fold ?f es d ! v = d ! v + pending (map (\<lambda>e. (ce_from e, ce_to e)) es) {} v)"
    if "\<forall>v < length d. d ! v + length es < u32_modulus" for es d
    using that
  proof (induction es arbitrary: d)
    case Nil
    then show ?case by (simp add: pending_def)
  next
    case (Cons e es)
    have b: "d ! v + length es < u32_modulus" if "v < length d" for v using Cons.prems that by fastforce
    have s: "u32_add (d ! v) 1 = Suc (d ! v)" if "v < length d" for v
      using Cons.prems that by (subst u32_add_small) auto
    have "\<forall>v < length (?f e d). ?f e d ! v + length es < u32_modulus"
      using Cons.prems b s by (auto simp: nth_list_update)
    from Cons.IH [OF this] s show ?case by (auto simp: pending_def nth_list_update)
  qed
  have "\<forall>v < length (replicate (length (cp_nodes p)) 0).
      replicate (length (cp_nodes p)) 0 ! v + length (cp_edges p) < u32_modulus"
    using assms by (simp add: plan_sized_def)
  from * [OF this] show "length (count_in_degree p) = length (cp_nodes p)"
    "v < length (cp_nodes p) \<Longrightarrow> count_in_degree p ! v = pending (plan_edge_pairs p) {} v"
    by (simp_all add: count_in_degree_def plan_edge_pairs_def)
qed

definition sized_in_degree :: "compiled_plan \<Rightarrow> u32 list" where
  "sized_in_degree p = map (pending (plan_edge_pairs p) {}) [0..<length (cp_nodes p)]"

interpretation vm_kahn: kahn "[0..<length (cp_nodes p)]" id "plan_edge_pairs p" list_at dec_index Some
    "sized_in_degree p" for p
  by unfold_locales
    (auto simp: list_at_def dec_index_def sized_in_degree_def fun_eq_iff split: if_splits)

lemma sized_in_degree: "plan_sized p \<Longrightarrow> count_in_degree p = sized_in_degree p"
  by (intro nth_equalityI) (simp_all add: count_in_degree sized_in_degree_def)

text \<open>The order is one of the plan's edges, and it is missing exactly when there is none.\<close>

definition plan_acyclic :: "compiled_plan \<Rightarrow> bool" where
  "plan_acyclic p \<longleftrightarrow> (let V = {..<length (cp_nodes p)}; E = edges_into V (plan_edge_pairs p) in
     acyclic E \<and> fst ` E \<subseteq> V)"

lemma topological_order_start:
  assumes "plan_sized p"
  shows "rev (filter (\<lambda>i. count_in_degree p ! i = 0) [0..<length (cp_nodes p) mod u32_modulus]) =
    vm_kahn.start p"
proof -
  let ?n = "length (cp_nodes p)"
  have "?n mod u32_modulus = ?n" using assms by (simp add: plan_sized_def)
  moreover have "filter (\<lambda>i. sized_in_degree p ! i = 0) [0..<?n] =
      filter (\<lambda>i. list_at (sized_in_degree p) (id i) = Some 0) [0..<?n]"
    by (rule filter_cong) (auto simp: list_at_def sized_in_degree_def)
  ultimately show ?thesis by (simp add: vm_kahn.start_def sized_in_degree assms)
qed

lemma topological_order_iff:
  assumes "plan_sized p"
  shows "topological_order p \<noteq> None \<longleftrightarrow> plan_acyclic p"
    and "topological_order p = Some vs \<Longrightarrow>
      topo_order {..<length (cp_nodes p)} (plan_edge_pairs p) vs"
proof -
  let ?n = "length (cp_nodes p)"
  have K: "id ` set [0..<?n] = {..<?n}" by auto
  obtain s where s: "worklist ?n (order_step p) (vm_kahn.start p) ([], sized_in_degree p) = Some s"
    "length (fst s) = ?n \<longleftrightarrow> plan_acyclic p"
    "length (fst s) = ?n \<longrightarrow> topo_order {..<?n} (plan_edge_pairs p) (fst s)"
    using vm_kahn.kahn_correct [of p] unfolding K order_step [symmetric] plan_acyclic_def Let_def
      length_upt list.map_id diff_zero by blast
  have "topological_order p = (if length (fst s) = ?n then Some (fst s) else None)"
    unfolding topological_order_def Let_def
      topological_order_start [OF assms, unfolded sized_in_degree [OF assms]]
      sized_in_degree [OF assms] s(1) by simp
  with s(2,3) show "topological_order p \<noteq> None \<longleftrightarrow> plan_acyclic p"
    "topological_order p = Some vs \<Longrightarrow> topo_order {..<?n} (plan_edge_pairs p) vs"
    by (simp_all split: if_splits)
qed

section \<open>The order of an ExecutionPlan\<close>

text \<open>
  \<open>ExecutionPlan::topological_order\<close>: counters are \<open>usize\<close> in a hash map keyed by node id
  (there are never more edges than a \<open>usize\<close> counts; a decrement of zero would wrap).
\<close>

definition id_pairs :: "edge list \<Rightarrow> (string \<times> string) list" where
  "id_pairs es = map (\<lambda>e. (edge_from e, edge_to e)) es"

definition usize_dec :: "nat \<Rightarrow> nat" where
  "usize_dec d = (if d = 0 then 18446744073709551615 else d - 1)"

definition count_in_degree_id :: "node list \<Rightarrow> edge list \<Rightarrow> nat smap" where
  "count_in_degree_id ns es = fold (\<lambda>e deg. case map_of deg (edge_to e) of
       None \<Rightarrow> deg | Some d \<Rightarrow> upd (edge_to e) (Suc d) deg)
     es (fold (\<lambda>n. upd (node_id n) 0) ns [])"

definition relax_id ::
  "(string \<Rightarrow> node option) \<Rightarrow> edge \<Rightarrow> node list \<times> nat smap \<Rightarrow> node list \<times> nat smap" where
  "relax_id get e t =
     (case map_of (snd t) (edge_to e) of
        None \<Rightarrow> t
      | Some d \<Rightarrow>
          (let deg' = upd (edge_to e) (usize_dec d) (snd t) in
           (if usize_dec d = 0 then
              (case get (edge_to e) of Some next \<Rightarrow> next # fst t | None \<Rightarrow> fst t)
            else fst t, deg')))"

definition order_step_id ::
  "(string \<Rightarrow> node option) \<Rightarrow> edge list \<Rightarrow> node \<Rightarrow> node list \<times> nat smap \<Rightarrow>
   node list \<times> node list \<times> nat smap" where
  "order_step_id get es n s =
     (case fold (relax_id get) (filter (\<lambda>e. edge_from e = node_id n) es) ([], snd s) of
        (pushed, deg) \<Rightarrow> (pushed, fst s @ [n], deg))"

definition order_ids :: "(string \<Rightarrow> node option) \<Rightarrow> node list \<Rightarrow> edge list \<Rightarrow> string + node list" where
  "order_ids get ns es =
     (let deg = count_in_degree_id ns es;
          queue = rev (filter (\<lambda>n. map_of deg (node_id n) = Some 0) ns)
      in case worklist (length ns) (order_step_id get es) queue ([], deg) of
           None \<Rightarrow> Inl ''Graph contains a cycle''
         | Some s \<Rightarrow>
             if length (fst s) \<noteq> length ns then Inl ''Graph contains a cycle'' else Inr (fst s))"

definition plan_topological_order :: "execution_plan \<Rightarrow> string + node list" where
  "plan_topological_order p = order_ids (plan_get_node p) (plan_nodes p) (plan_edges p)"

text \<open>The look-up of a node by id: the first one in \<open>plan.rs\<close>, the last one in the validator.\<close>

definition find_node :: "node list \<Rightarrow> string \<Rightarrow> node option" where
  "find_node ns i = find (\<lambda>n. node_id n = i) ns"

lemma find_node_distinct:
  "distinct (map node_id ns) \<Longrightarrow> n \<in> set ns \<Longrightarrow> find_node ns (node_id n) = Some n"
  by (induction ns) (auto simp: find_node_def)

lemma plan_get_node: "plan_get_node p = find_node (plan_nodes p)"
  by (simp add: plan_get_node_def find_node_def fun_eq_iff)

definition dec_id :: "string \<Rightarrow> nat smap \<Rightarrow> nat smap" where
  "dec_id v m = upd v (case map_of m v of Some d \<Rightarrow> usize_dec d | None \<Rightarrow> 0) m"

definition unique_nodes :: "node list \<Rightarrow> node list" where
  "unique_nodes ns = (if distinct (map node_id ns) then ns else [])"

lemma count_in_degree_id:
  "map_of (count_in_degree_id ns es) v =
     (if v \<in> node_id ` set ns then Some (pending (id_pairs es) {} v) else None)"
proof -
  have i: "map_of (fold (\<lambda>n. upd (node_id n) 0) ns m) v =
      (if v \<in> node_id ` set ns then Some (0::nat) else map_of m v)" for m
    by (induction ns arbitrary: m) auto
  let ?f = "\<lambda>e deg. case map_of deg (edge_to e) of None \<Rightarrow> deg | Some d \<Rightarrow> upd (edge_to e) (Suc d) deg"
  have "map_of (fold ?f es m) v = map_option (\<lambda>d. d + pending (id_pairs es) {} v) (map_of m v)" for m
  proof (induction es arbitrary: m)
    case Nil
    then show ?case by (simp add: pending_def id_pairs_def option.map_ident)
  next
    case (Cons e es)
    show ?case
      using Cons.IH [of "?f e m"]
      by (auto simp: pending_def id_pairs_def split: option.splits)
  qed
  with i [of "[]"] show ?thesis by (simp add: count_in_degree_id_def)
qed

interpretation plan_kahn: kahn "unique_nodes ns" node_id "id_pairs es" map_of dec_id "find_node ns"
    "count_in_degree_id (unique_nodes ns) es" for ns es
proof
  show "distinct (map node_id (unique_nodes ns))" by (simp add: unique_nodes_def)
next
  show "n \<in> set (unique_nodes ns) \<Longrightarrow> find_node ns (node_id n) = Some n" for n
    by (simp add: unique_nodes_def find_node_distinct split: if_splits)
next
  show "map_of d v = Some (Suc k) \<Longrightarrow> map_of (dec_id v d) = (map_of d)(v \<mapsto> k)" for d v k
    by (simp add: dec_id_def usize_dec_def)
next
  show "map_of (count_in_degree_id (unique_nodes ns) es) v =
      (if v \<in> node_id ` set (unique_nodes ns) then Some (pending (id_pairs es) {} v) else None)" for v
    by (rule count_in_degree_id)
qed

lemma relax_id: "relax_id get e = relax map_of dec_id get (edge_to e)"
  by (auto simp: relax_id_def relax_def dec_id_def Let_def fun_eq_iff split: option.splits)

lemma order_step_id: "order_step_id get es = kahn_step map_of dec_id get node_id (id_pairs es)"
proof -
  have "targets (id_pairs es) u = map edge_to (filter (\<lambda>e. edge_from e = u) es)" for u
    by (induction es) (auto simp: targets_def id_pairs_def)
  moreover have "fold (relax_id get) xs = fold (relax map_of dec_id get) (map edge_to xs)" for xs
    by (induction xs) (simp_all add: relax_id)
  ultimately show ?thesis by (simp add: fun_eq_iff order_step_id_def kahn_step_def)
qed

text \<open>With distinct ids, an order is returned exactly when the edges are acyclic.\<close>

definition ids_acyclic :: "node list \<Rightarrow> edge list \<Rightarrow> bool" where
  "ids_acyclic ns es \<longleftrightarrow> (let V = node_id ` set ns; E = edges_into V (id_pairs es) in
     acyclic E \<and> fst ` E \<subseteq> V)"

lemma order_ids_correct:
  assumes "distinct (map node_id ns)"
  shows "is_ok (order_ids (find_node ns) ns es) \<longleftrightarrow> ids_acyclic ns es"
    and "order_ids (find_node ns) ns es = Inr xs \<Longrightarrow>
      set xs = set ns \<and> topo_order (node_id ` set ns) (id_pairs es) (map node_id xs)"
proof -
  have u: "unique_nodes ns = ns" using assms by (simp add: unique_nodes_def)
  have q: "rev (filter (\<lambda>n. map_of (count_in_degree_id ns es) (node_id n) = Some 0) ns) =
      plan_kahn.start ns es"
    unfolding plan_kahn.start_def unfolding u by simp
  obtain s where s:
    "worklist (length ns) (order_step_id (find_node ns) es) (plan_kahn.start ns es)
       ([], count_in_degree_id ns es) = Some s"
    "set (fst s) \<subseteq> set ns" "length (fst s) = length ns \<longleftrightarrow> ids_acyclic ns es"
    "length (fst s) = length ns \<longrightarrow> topo_order (node_id ` set ns) (id_pairs es) (map node_id (fst s))"
    using plan_kahn.kahn_correct [of ns es] unfolding u order_step_id ids_acyclic_def Let_def by blast
  have r: "order_ids (find_node ns) ns es =
      (if length (fst s) = length ns then Inr (fst s) else Inl ''Graph contains a cycle'')"
    by (simp add: order_ids_def q s(1))
  with s(3) show "is_ok (order_ids (find_node ns) ns es) \<longleftrightarrow> ids_acyclic ns es" by simp
  assume "order_ids (find_node ns) ns es = Inr xs"
  with r have x: "xs = fst s" "length xs = length ns" by (simp_all split: if_splits)
  with s have t: "topo_order (node_id ` set ns) (id_pairs es) (map node_id xs)" by simp
  then have "distinct xs" by (simp add: topo_order_def distinct_map)
  moreover have "distinct ns" using assms by (simp add: distinct_map)
  ultimately have "card (set xs) = card (set ns)" using x by (simp add: distinct_card)
  with s(2) x(1) have "set xs = set ns" by (simp add: card_subset_eq)
  with t show "set xs = set ns \<and> topo_order (node_id ` set ns) (id_pairs es) (map node_id xs)" by simp
qed

section \<open>Reachability and loop bodies\<close>

text \<open>
  \<open>collect_reachable_indices\<close>: a target is marked when it is pushed, so every target is
  pushed at most once and the starts plus one round per edge are enough.
\<close>

definition visit_edge :: "compiled_edge \<Rightarrow> u32 list \<times> u32 set \<Rightarrow> u32 list \<times> u32 set" where
  "visit_edge e t =
     (if ce_to e \<in> snd t then t else (ce_to e # fst t, insert (ce_to e) (snd t)))"

definition reach_step :: "compiled_plan \<Rightarrow> u32 \<Rightarrow> u32 set \<Rightarrow> u32 list \<times> u32 set" where
  "reach_step p idx visited = fold visit_edge (edges_from p idx) ([], visited)"

definition collect_reachable_indices :: "compiled_plan \<Rightarrow> u32 list \<Rightarrow> u32 set" where
  "collect_reachable_indices p starts =
     (case worklist (length starts + length (cp_edges p)) (reach_step p) (rev starts) (set starts) of
        Some visited \<Rightarrow> visited | None \<Rightarrow> {})"

definition loop_starts :: "compiled_plan \<Rightarrow> edge_kind \<Rightarrow> u32 \<Rightarrow> u32 list" where
  "loop_starts p k i =
     map ce_to (filter (\<lambda>e. ce_from e = i \<and> ce_condition e = None \<and> ce_kind e = k) (cp_edges p))"

definition loop_body :: "compiled_plan \<Rightarrow> u32 \<Rightarrow> u32 set" where
  "loop_body p i =
     (let body = fold (\<lambda>to b. b \<union> collect_reachable_indices p [to]) (loop_starts p EData i) {} in
      if loop_starts p EControl i = [] then body
      else body - fold (\<lambda>to b. b \<union> collect_reachable_indices p [to]) (loop_starts p EControl i) {})"

definition identify_loop_bodies :: "compiled_plan \<Rightarrow> u32 set nmap" where
  "identify_loop_bodies p =
     fold (\<lambda>n m. if cn_op n \<noteq> Loop then m else upd (cn_index n) (loop_body p (cn_index n)) m)
       (cp_nodes p) []"

locale explore =
  fixes succ :: "'a \<Rightarrow> 'a list" and step :: "'a \<Rightarrow> 'a set \<Rightarrow> 'a list \<times> 'a set" and T :: "'a set"
  assumes finite_targets: "finite T" and targets_in: "set (succ x) \<subseteq> T"
    and step_new: "step x V = (ps, V') \<Longrightarrow>
      distinct ps \<and> set ps = set (succ x) - V \<and> V' = V \<union> set (succ x)"
begin

definition E :: "('a \<times> 'a) set" where
  "E = {(u, v). v \<in> set (succ u)}"

definition inv :: "'a set \<Rightarrow> 'a list \<Rightarrow> 'a set \<Rightarrow> bool" where
  "inv S q V \<longleftrightarrow> S \<subseteq> V \<and> set q \<subseteq> V \<and> V \<subseteq> E\<^sup>* `` S \<and> (\<forall>u \<in> V - set q. set (succ u) \<subseteq> V)"

lemma inv_step:
  assumes "inv S (x # q) V" "step x V = (ps, V')"
  shows "inv S (ps @ q) V' \<and> length (ps @ q) + card (T - V') < length (x # q) + card (T - V)"
proof -
  from step_new [OF assms(2)] have n: "distinct ps" "set ps = set (succ x) - V" "V' = V \<union> set (succ x)"
    by auto
  from assms(1) have I: "S \<subseteq> V" "x \<in> V" "set q \<subseteq> V" "V \<subseteq> E\<^sup>* `` S"
    "\<forall>u \<in> V - set (x # q). set (succ u) \<subseteq> V"
    by (auto simp: inv_def)
  have "set (succ x) \<subseteq> E\<^sup>* `` S"
  proof
    fix v assume "v \<in> set (succ x)"
    then have "(x, v) \<in> E" by (simp add: E_def)
    moreover from I(2,4) obtain u where "u \<in> S" "(u, x) \<in> E\<^sup>*" by blast
    ultimately show "v \<in> E\<^sup>* `` S" by (meson ImageI rtrancl.rtrancl_into_rtrancl)
  qed
  with I n have "inv S (ps @ q) V'" unfolding inv_def by auto
  moreover have "card (T - V') + length ps = card (T - V)"
  proof -
    have "T - V = (T - V') \<union> set ps" "(T - V') \<inter> set ps = {}"
      using n targets_in [of x] by auto
    then show ?thesis
      using n(1) finite_targets by (metis List.finite_set card_Un_disjoint distinct_card finite_Diff)
  qed
  ultimately show ?thesis by simp
qed

lemma search_correct:
  assumes "set starts = S" "length starts + card T \<le> k"
  shows "worklist k step starts S = Some (E\<^sup>* `` S)"
proof -
  have start: "inv S starts S" using assms by (auto simp: inv_def)
  have "card (T - S) \<le> card T" using finite_targets by (simp add: card_mono)
  then have "worklist k step starts S \<noteq> None"
    using start assms inv_step
    by (intro worklist_total [where I = "inv S" and m = "\<lambda>q V. length q + card (T - V)"]) auto
  then obtain V where V: "worklist k step starts S = Some V" by blast
  have "inv S [] V"
    by (rule worklist_invariant [where I = "inv S", OF V start]) (use inv_step in blast)
  then have I: "S \<subseteq> V" "V \<subseteq> E\<^sup>* `` S" "\<And>u. u \<in> V \<Longrightarrow> set (succ u) \<subseteq> V" by (auto simp: inv_def)
  have "E\<^sup>* `` S \<subseteq> V"
  proof
    fix v assume "v \<in> E\<^sup>* `` S"
    then obtain s where "s \<in> S" "(s, v) \<in> E\<^sup>*" by blast
    from this(2,1) show "v \<in> V" by induction (use I in \<open>auto simp: E_def\<close>)
  qed
  with I V show ?thesis by auto
qed

end

lemma visit_edges:
  assumes "fold visit_edge es (ps, V) = (ps', V')"
  shows "V' = V \<union> ce_to ` set es \<and>
    (\<exists>new. ps' = new @ ps \<and> distinct new \<and> set new = ce_to ` set es - V)"
  using assms
proof (induction es arbitrary: ps V)
  case Nil
  then show ?case by simp
next
  case (Cons e es)
  show ?case
  proof (cases "ce_to e \<in> V")
    case True
    with Cons.prems have "fold visit_edge es (ps, V) = (ps', V')" by (simp add: visit_edge_def [of e])
    from Cons.IH [OF this] True show ?thesis by auto
  next
    case False
    with Cons.prems have "fold visit_edge es (ce_to e # ps, insert (ce_to e) V) = (ps', V')"
      by (simp add: visit_edge_def [of e])
    from Cons.IH [OF this] obtain new where n: "V' = insert (ce_to e) V \<union> ce_to ` set es"
      "ps' = (new @ [ce_to e]) @ ps" "distinct new" "set new = ce_to ` set es - insert (ce_to e) V"
      by auto
    have "distinct (new @ [ce_to e])" "set (new @ [ce_to e]) = ce_to ` set (e # es) - V"
      using n False by auto
    with n(1,2) show ?thesis by auto
  qed
qed

interpretation vm_reach: explore "\<lambda>i. map ce_to (edges_from p i)" "reach_step p"
    "ce_to ` set (cp_edges p)" for p
proof
  show "finite (ce_to ` set (cp_edges p))" by simp
  show "set (map ce_to (edges_from p i)) \<subseteq> ce_to ` set (cp_edges p)" for i
    by (auto simp: edges_from_def)
  show "distinct ps \<and> set ps = set (map ce_to (edges_from p i)) - V \<and>
      V' = V \<union> set (map ce_to (edges_from p i))" if "reach_step p i V = (ps, V')" for i V ps V'
    using visit_edges [of "edges_from p i" "[]" V ps V'] that by (simp add: reach_step_def)
qed

definition edge_rel :: "compiled_plan \<Rightarrow> (u32 \<times> u32) set" where
  "edge_rel p = set (plan_edge_pairs p)"

lemma vm_reach_E: "vm_reach.E p = edge_rel p"
  unfolding vm_reach.E_def edge_rel_def plan_edge_pairs_def by (auto simp: edges_from_def)

lemma collect_reachable_indices: "collect_reachable_indices p starts = (edge_rel p)\<^sup>* `` set starts"
proof -
  have "card (ce_to ` set (cp_edges p)) \<le> length (cp_edges p)"
    by (metis card_length length_map list.set_map)
  then show ?thesis
    by (simp add: collect_reachable_indices_def vm_reach_E [symmetric] vm_reach.search_correct)
qed

lemma fold_union: "fold (\<lambda>to b. b \<union> f to) xs b = b \<union> (\<Union>x \<in> set xs. f x)"
  by (induction xs arbitrary: b) auto

lemma loop_body_eq:
  "loop_body p i = (edge_rel p)\<^sup>* `` set (loop_starts p EData i) -
     (edge_rel p)\<^sup>* `` set (loop_starts p EControl i)"
  by (auto simp: loop_body_def fold_union collect_reachable_indices Let_def)

lemma identify_loop_bodies:
  "map_of (identify_loop_bodies p) i =
     (if \<exists>n \<in> set (cp_nodes p). cn_op n = Loop \<and> cn_index n = i then Some (loop_body p i) else None)"
proof -
  have "map_of (fold (\<lambda>n m. if cn_op n \<noteq> Loop then m else upd (cn_index n) (loop_body p (cn_index n)) m) ns m) i =
      (if \<exists>n \<in> set ns. cn_op n = Loop \<and> cn_index n = i then Some (loop_body p i) else map_of m i)" for ns :: "compiled_node list" and m
    by (induction ns arbitrary: m) auto
  then show ?thesis by (simp add: identify_loop_bodies_def)
qed

section \<open>Evaluating an order\<close>

lemma worklist_numeral:
  "worklist (numeral k) f (x # q) s = (case f x s of (ps, s') \<Rightarrow> worklist (pred_numeral k) f (ps @ q) s')"
  by (simp add: numeral_eq_Suc)

lemma upt_block: "[i..<i] = []" "[0..<2] = [0, 1]" "[0..<3] = [0, 1, 2]" "[0..<4] = [0, 1, 2, 3]"
  by (simp_all add: upt_rec)

lemmas order_eval = topological_order_def count_in_degree_def order_step_def relax_index_def
  edges_from_def u32_add_def u32_modulus_def worklist_numeral Let_def upt_block

section \<open>Properties of the orders and of reachability\<close>

text \<open>C6: the executor orders a plan exactly when the graph of its edges is acyclic with all sources
  in the plan, and the order lists every node once, each after the sources of its incoming edges.\<close>

theorem execution_order_correct:
  assumes "plan_sized p"
  shows "(topological_order p \<noteq> None \<longleftrightarrow> plan_acyclic p) \<and>
    (\<forall>vs. topological_order p = Some vs \<longrightarrow> distinct vs \<and> set vs = {..<length (cp_nodes p)} \<and>
      (\<forall>e \<in> set (cp_edges p). \<forall>j < length vs. ce_to e = vs ! j \<longrightarrow> ce_from e \<in> set (take j vs)))"
proof -
  have e: "(ce_from e, ce_to e) \<in> set (plan_edge_pairs p)" if "e \<in> set (cp_edges p)" for e
    using that by (simp add: plan_edge_pairs_def)
  from topological_order_iff(2) [OF assms] have "\<forall>vs. topological_order p = Some vs \<longrightarrow>
      distinct vs \<and> set vs = {..<length (cp_nodes p)} \<and>
      (\<forall>j < length vs. \<forall>u. (u, vs ! j) \<in> set (plan_edge_pairs p) \<longrightarrow> u \<in> set (take j vs))"
    by (simp add: topo_order_def)
  with topological_order_iff(1) [OF assms] e show ?thesis by metis
qed

definition edge_plan :: "nat \<Rightarrow> (u32 \<times> u32) list \<Rightarrow> compiled_plan" where
  "edge_plan n es = \<lparr>cp_version = 4,
     cp_nodes = map (\<lambda>i. \<lparr>cn_index = i, cn_id = show_nat i, cn_op = Calc, cn_args = [],
       cn_type = None, cn_branch = None, cn_group = None\<rparr>) [0..<n],
     cp_edges = map (\<lambda>(a, b). \<lparr>ce_from = a, ce_to = b, ce_condition = None, ce_mapping = None,
       ce_priority = None, ce_label = None, ce_kind = EData\<rparr>) es,
     cp_metadata = compiled_metadata_default, cp_id_map = None, cp_groups = []\<rparr>"

theorem execution_order_correct_witness:
  "topological_order (edge_plan 2 [(0, 1), (1, 0)]) = None"
proof -
  have "(0, 0) \<in> {(0::nat, 1::nat), (1, 0)}\<^sup>+"
    by (rule trancl_trans [of _ 1]) (simp_all add: r_into_trancl')
  moreover have "edges_into {..<length (cp_nodes (edge_plan 2 [(0, 1), (1, 0)]))}
      (plan_edge_pairs (edge_plan 2 [(0, 1), (1, 0)])) = {(0, 1), (1, 0)}"
    by (auto simp: edges_into_def plan_edge_pairs_def edge_plan_def)
  ultimately have "\<not> plan_acyclic (edge_plan 2 [(0, 1), (1, 0)])"
    unfolding plan_acyclic_def Let_def acyclic_def by auto
  then show ?thesis
    using execution_order_correct [of "edge_plan 2 [(0, 1), (1, 0)]"]
    by (auto simp: plan_sized_def edge_plan_def u32_modulus_def)
qed

text \<open>\<open>ExecutionPlan::topological_order\<close> succeeds exactly on the acyclic plans whose edges start in
  the plan, and lists the nodes so that each comes after the sources of its incoming edges.\<close>

theorem plan_order_correct:
  assumes "distinct (map node_id (plan_nodes p))"
  shows "(is_ok (plan_topological_order p) \<longleftrightarrow> ids_acyclic (plan_nodes p) (plan_edges p)) \<and>
    (\<forall>xs. plan_topological_order p = Inr xs \<longrightarrow> set xs = set (plan_nodes p) \<and>
      (\<forall>e \<in> set (plan_edges p). \<forall>j < length xs.
         edge_to e = node_id (xs ! j) \<longrightarrow> edge_from e \<in> node_id ` set (take j xs)))"
proof -
  have o: "plan_topological_order p = order_ids (find_node (plan_nodes p)) (plan_nodes p) (plan_edges p)"
    by (simp add: plan_topological_order_def plan_get_node)
  have e: "(edge_from e, edge_to e) \<in> set (id_pairs (plan_edges p))" if "e \<in> set (plan_edges p)" for e
    using that by (simp add: id_pairs_def)
  from order_ids_correct(2) [OF assms, of "plan_edges p"]
  have "\<forall>xs. plan_topological_order p = Inr xs \<longrightarrow> set xs = set (plan_nodes p) \<and>
      (\<forall>j < length xs. \<forall>u. (u, node_id (xs ! j)) \<in> set (id_pairs (plan_edges p)) \<longrightarrow>
        u \<in> node_id ` set (take j xs))"
    unfolding o by (simp add: topo_order_def take_map)
  with order_ids_correct(1) [OF assms, of "plan_edges p"] e show ?thesis unfolding o by metis
qed

theorem plan_order_correct_witness:
  "is_ok (plan_topological_order (execution_plan_new [node_new ''a'' Calc] []))"
  using plan_order_correct [of "execution_plan_new [node_new ''a'' Calc] []"]
  by (simp add: execution_plan_new_def node_new_def ids_acyclic_def edges_into_def id_pairs_def acyclic_def)

text \<open>the body of a loop is what its unconditional data edges reach along the plan's edges, less
  what its unconditional control edges reach; the executor records it for exactly the \<open>LOOP\<close> nodes.\<close>

theorem loop_bodies_reachable:
  "map_of (identify_loop_bodies p) i =
     (if \<exists>n \<in> set (cp_nodes p). cn_op n = Loop \<and> cn_index n = i
      then Some ((edge_rel p)\<^sup>* `` set (loop_starts p EData i) -
        (edge_rel p)\<^sup>* `` set (loop_starts p EControl i))
      else None)"
  by (simp add: identify_loop_bodies loop_body_eq)

end
