(* ===== verification/Search.thy ===== *)
theory Search
  imports Prelude
begin

text \<open>
  Breadth-first search over a list of edges, as \<open>validator.rs\<close> writes it three times: a
  queue, a set of visited nodes, and the visited test when a node leaves the queue.  The
  search ends because every round shortens the queue or visits a new node; what it visits is
  the reflexive transitive closure of the edges.
\<close>

definition successors :: "('a \<times> 'a) list \<Rightarrow> 'a \<Rightarrow> 'a list" where
  "successors es x = map snd (filter (\<lambda>e. fst e = x) es)"

definition unvisited :: "('a \<times> 'a) list \<Rightarrow> 'a set \<Rightarrow> nat" where
  "unvisited es V = length (filter (\<lambda>e. fst e \<notin> V) es)"

lemma unvisited_insert:
  "x \<notin> V \<Longrightarrow> length (successors es x) + unvisited es (insert x V) = unvisited es V"
  by (induction es) (auto simp: successors_def unvisited_def)

function bfs :: "('a \<times> 'a) list \<Rightarrow> 'a list \<Rightarrow> 'a set \<Rightarrow> 'a set" where
  "bfs es [] V = V"
| "bfs es (x # q) V = (if x \<in> V then bfs es q V else bfs es (q @ successors es x) (insert x V))"
  by pat_completeness auto
termination
proof (relation "measure (\<lambda>(es, q, V). length q + unvisited es V)", goal_cases)
  case (3 es x q V)
  then show ?case using unvisited_insert [of x V es] by simp
qed auto

text \<open>The same search, stopped at the first node of \<open>T\<close>.\<close>

function bfs_hits :: "('a \<times> 'a) list \<Rightarrow> 'a set \<Rightarrow> 'a list \<Rightarrow> 'a set \<Rightarrow> bool" where
  "bfs_hits es T [] V = False"
| "bfs_hits es T (x # q) V =
     (if x \<in> V then bfs_hits es T q V
      else x \<in> T \<or> bfs_hits es T (q @ successors es x) (insert x V))"
  by pat_completeness auto
termination
proof (relation "measure (\<lambda>(es, T, q, V). length q + unvisited es V)", goal_cases)
  case (3 es T x q V)
  then show ?case using unvisited_insert [of x V es] by simp
qed auto

text \<open>Visited nodes have their successors visited or queued.\<close>

definition closed_upto :: "('a \<times> 'a) list \<Rightarrow> 'a list \<Rightarrow> 'a set \<Rightarrow> bool" where
  "closed_upto es q V \<longleftrightarrow> (\<forall>u \<in> V. \<forall>v. (u, v) \<in> set es \<longrightarrow> v \<in> V \<or> v \<in> set q)"

lemma set_successors [simp]: "set (successors es x) = {v. (x, v) \<in> set es}"
  by (force simp: successors_def)

lemma closed_upto_empty [simp]: "closed_upto es q {}"
  by (simp add: closed_upto_def)

lemma closed_upto_visit:
  "closed_upto es (x # q) V \<Longrightarrow> closed_upto es (q @ successors es x) (insert x V)"
  by (auto simp: closed_upto_def)

lemma closed_upto_skip: "closed_upto es (x # q) V \<Longrightarrow> x \<in> V \<Longrightarrow> closed_upto es q V"
  by (auto simp: closed_upto_def)

lemma closed_reach: "(u, v) \<in> (set es)\<^sup>* \<Longrightarrow> closed_upto es q V \<Longrightarrow> u \<in> V \<Longrightarrow> v \<in> V \<union> (set es)\<^sup>* `` set q"
proof (induction rule: rtrancl_induct)
  case (step y z)
  from step.IH [OF step.prems] show ?case
  proof
    assume "y \<in> V"
    with step.hyps(2) step.prems(1) have "z \<in> V \<or> z \<in> set q" by (auto simp: closed_upto_def)
    then show ?thesis by blast
  next
    assume "y \<in> (set es)\<^sup>* `` set q"
    with step.hyps(2) show ?thesis by (meson ImageE ImageI UnI2 rtrancl.rtrancl_into_rtrancl)
  qed
qed simp

lemma reach_successors:
  "(set es)\<^sup>* `` {x} = insert x ((set es)\<^sup>* `` set (successors es x))"
  by (auto elim: converse_rtranclE intro: converse_rtrancl_into_rtrancl)

lemma bfs_correct: "closed_upto es q V \<Longrightarrow> bfs es q V = V \<union> (set es)\<^sup>* `` set q"
proof (induction es q V rule: bfs.induct)
  case (2 es x q V)
  show ?case
  proof (cases "x \<in> V")
    case True
    with 2 have "bfs es (x # q) V = V \<union> (set es)\<^sup>* `` set q" by (simp add: closed_upto_skip)
    moreover have "(set es)\<^sup>* `` {x} \<subseteq> V \<union> (set es)\<^sup>* `` set q"
      using closed_reach [OF _ closed_upto_skip [OF "2.prems" True] True] by blast
    ultimately show ?thesis by auto
  next
    case False
    with 2 have "bfs es (x # q) V =
        insert x V \<union> (set es)\<^sup>* `` (set q \<union> set (successors es x))"
      by (simp add: closed_upto_visit)
    also have "\<dots> = V \<union> (set es)\<^sup>* `` set q \<union> (set es)\<^sup>* `` {x}"
      unfolding reach_successors by auto
    finally show ?thesis by auto
  qed
qed simp

lemma bfs_superset: "V \<subseteq> bfs es q V"
  by (induction es q V rule: bfs.induct) auto

lemma bfs_hits_bfs: "V \<inter> T = {} \<Longrightarrow> bfs_hits es T q V \<longleftrightarrow> bfs es q V \<inter> T \<noteq> {}"
proof (induction es T q V rule: bfs_hits.induct)
  case (2 es T x q V)
  show ?case
  proof (cases "x \<in> V \<or> x \<notin> T")
    case True
    with 2 show ?thesis by auto
  next
    case False
    with bfs_superset [of "insert x V" es "q @ successors es x"] show ?thesis by auto
  qed
qed simp

lemma bfs_from: "bfs es q {} = (set es)\<^sup>* `` set q"
  by (simp add: bfs_correct)

lemma bfs_hits_from: "bfs_hits es T q {} \<longleftrightarrow> (set es)\<^sup>* `` set q \<inter> T \<noteq> {}"
  by (simp add: bfs_hits_bfs bfs_from)

lemma closed_reach_set: "closed_upto es [] ((set es)\<^sup>* `` S)"
  by (auto simp: closed_upto_def intro: rtrancl.rtrancl_into_rtrancl)

text \<open>Searches from several starts that share one visited set.\<close>

lemma fold_bfs: "fold (\<lambda>s V. bfs es [s] V) ss ((set es)\<^sup>* `` S) = (set es)\<^sup>* `` (S \<union> set ss)"
proof (induction ss arbitrary: S)
  case (Cons s ss)
  have "closed_upto es [s] ((set es)\<^sup>* `` S)"
    using closed_reach_set [of es S] by (auto simp: closed_upto_def)
  then have "bfs es [s] ((set es)\<^sup>* `` S) = (set es)\<^sup>* `` (insert s S)"
    unfolding bfs_correct [OF \<open>closed_upto es [s] ((set es)\<^sup>* `` S)\<close>] by auto
  with Cons.IH [of "insert s S"] show ?case by simp
qed simp

lemmas bfs_eval = bfs.simps bfs_hits.simps successors_def

end
