(* ===== verification/Validator.thy ===== *)
theory Validator
  imports Graphs Search "HOL-Library.List_Lexorder" "HOL-Library.Char_ord"
begin

text \<open>
  The static validator \<open>validator.rs\<close> of \<open>tinypipe-compiler\<close>: \<open>validate\<close> with one definition
  per numbered check, each returning the errors it pushes in the order of the source,
  \<open>describe_node\<close> for error reports and \<open>verify_cfg_flattening\<close>.

  \<open>valid_plan\<close> says declaratively what a valid plan is, and \<open>validate_iff\<close> that \<open>validate\<close>
  accepts exactly those.  \<open>outgoing.get(id)\<close> is the list of edges from \<open>id\<close>, empty when
  there is none.
\<close>

record validation_error =
  ve_node :: string
  ve_message :: string

abbreviation verr :: "string \<Rightarrow> string \<Rightarrow> validation_error" where
  "verr i m \<equiv> \<lparr>ve_node = i, ve_message = m\<rparr>"

definition show_validation_error :: "validation_error \<Rightarrow> string" where
  "show_validation_error e = ''node '' @ ve_node e @ '': '' @ ve_message e"

section \<open>Node summaries\<close>

fun fmt_arg_value :: "arg_value \<Rightarrow> string" where
  "fmt_arg_value (AString s) = s"
| "fmt_arg_value (AInt i) = show_int i"
| "fmt_arg_value (AFloat f) = f64_show f"
| "fmt_arg_value (ABool b) = show_bool b"
| "fmt_arg_value ANull = ''null''"
| "fmt_arg_value (AArray a) = ''['' @ join '', '' (map fmt_arg_value a) @ '']''"
| "fmt_arg_value (AObject m) =
     ''{'' @ join '', '' (sort (map (\<lambda>(k, v). k @ ''='' @ fmt_arg_value v) m)) @ ''}''"

definition interesting_args :: "opcode \<Rightarrow> string list" where
  "interesting_args op = (case op of
     Input \<Rightarrow> [''name'']
   | Calc \<Rightarrow> [''expr'', ''output'']
   | Call \<Rightarrow> [''target'', ''url'']
   | Decide \<Rightarrow> [''source'', ''op'', ''value'']
   | Switch \<Rightarrow> [''source'']
   | Act \<Rightarrow> [''type'', ''value'']
   | Parallel \<Rightarrow> []
   | Loop \<Rightarrow> [''target'', ''max_iterations'']
   | Wait \<Rightarrow> [''duration_ms'']
   | Merge \<Rightarrow> [''condition'']
   | Error \<Rightarrow> [''message''])"

definition find_node_arg :: "node \<Rightarrow> string \<Rightarrow> arg option" where
  "find_node_arg n k = find (\<lambda>a. arg_key a = k) (node_args n)"

definition describe_node :: "node \<Rightarrow> string" where
  "describe_node n =
     (let parts = map (\<lambda>a. arg_key a @ ''='' @ fmt_arg_value (arg_val a))
            (List.map_filter (find_node_arg n) (interesting_args (node_op n)))
      in if parts = [] then ''['' @ display_name (node_op n) @ '']''
         else ''['' @ display_name (node_op n) @ '' '' @ join '' '' parts @ '']'')"

section \<open>The checks of validate\<close>

definition node_ids :: "execution_plan \<Rightarrow> string set" where
  "node_ids p = node_id ` set (plan_nodes p)"

definition has_arg :: "node \<Rightarrow> string \<Rightarrow> bool" where
  "has_arg n k \<longleftrightarrow> (\<exists>a \<in> set (node_args n). arg_key a = k)"

text \<open>1. duplicate ids, with the ids seen so far.\<close>

primrec duplicate_errors :: "string set \<Rightarrow> node list \<Rightarrow> validation_error list" where
  "duplicate_errors seen [] = []"
| "duplicate_errors seen (n # ns) =
     (if node_id n \<in> seen then [verr (node_id n) ''duplicate node id''] else []) @
     duplicate_errors (insert (node_id n) seen) ns"

text \<open>2. edges between unknown nodes.\<close>

definition reference_errors :: "execution_plan \<Rightarrow> validation_error list" where
  "reference_errors p = concat (map (\<lambda>e.
     (if edge_from e \<in> node_ids p then []
      else [verr (edge_from e) (''edge references unknown source node `'' @ edge_from e @ ''`'')]) @
     (if edge_to e \<in> node_ids p then []
      else [verr (edge_to e) (''edge references unknown target node `'' @ edge_to e @ ''`'')]))
     (plan_edges p))"

text \<open>3. and 4.: no node at all; a cycle among the edges that do not lead into a \<open>LOOP\<close>.\<close>

definition empty_errors :: "execution_plan \<Rightarrow> validation_error list" where
  "empty_errors p =
     (if plan_nodes p = [] then [verr ''<plan>'' ''execution plan has zero nodes''] else [])"

definition loop_ids :: "execution_plan \<Rightarrow> string set" where
  "loop_ids p = node_id ` set (filter (\<lambda>n. node_op n = Loop) (plan_nodes p))"

definition acyclic_edges :: "execution_plan \<Rightarrow> edge list" where
  "acyclic_edges p = filter (\<lambda>e. edge_to e \<notin> loop_ids p) (plan_edges p)"

text \<open>The index of the validator keeps the last node of an id.\<close>

definition index_node :: "node list \<Rightarrow> string \<Rightarrow> node option" where
  "index_node ns i = find (\<lambda>n. node_id n = i) (rev ns)"

definition validator_order :: "execution_plan \<Rightarrow> edge list \<Rightarrow> string + node list" where
  "validator_order p es = order_ids (index_node (plan_nodes p)) (plan_nodes p) es"

definition cycle_errors :: "execution_plan \<Rightarrow> validation_error list" where
  "cycle_errors p =
     (case validator_order p (acyclic_edges p) of
        Inr ord \<Rightarrow>
          if length ord \<noteq> length (plan_nodes p) then
            [verr ''<plan>'' (''topological order returned '' @ show_nat (length ord) @
               '' nodes but plan has '' @ show_nat (length (plan_nodes p)))]
          else []
      | Inl msg \<Rightarrow> [verr ''<plan>'' (''cycle detected: '' @ msg)])"

text \<open>5. reachability from the nodes without incoming edges.\<close>

definition root_ids :: "execution_plan \<Rightarrow> string list" where
  "root_ids p = map node_id (filter (\<lambda>n. \<not> (\<exists>e \<in> set (plan_edges p). edge_to e = node_id n)) (plan_nodes p))"

definition reachable_ids :: "execution_plan \<Rightarrow> string set" where
  "reachable_ids p = bfs (id_pairs (plan_edges p)) (root_ids p) {}"

definition unreachable_errors :: "execution_plan \<Rightarrow> validation_error list" where
  "unreachable_errors p =
     map (\<lambda>n. verr (node_id n) ''node is not reachable from any INPUT node'')
       (filter (\<lambda>n. node_id n \<notin> reachable_ids p) (plan_nodes p))"

text \<open>6. every path ends in an \<open>ACT\<close> or \<open>ERROR\<close>, or runs through a loop.\<close>

definition is_terminal_opcode :: "opcode \<Rightarrow> bool" where
  "is_terminal_opcode op \<longleftrightarrow> op = Act \<or> op = Error"

definition terminal_ids :: "execution_plan \<Rightarrow> string set" where
  "terminal_ids p = node_id ` set (filter (\<lambda>n. is_terminal_opcode (node_op n)) (plan_nodes p))"

definition data_pairs :: "execution_plan \<Rightarrow> (string \<times> string) list" where
  "data_pairs p = id_pairs (filter (\<lambda>e. edge_kind_of e = EData) (plan_edges p))"

text \<open>The starts of the loop bodies: the targets of the loops' unconditional data edges.\<close>

definition body_starts :: "execution_plan \<Rightarrow> string list" where
  "body_starts p = map edge_to
     (filter (\<lambda>e. edge_from e \<in> loop_ids p \<and> edge_condition e = None \<and> edge_kind_of e = EData)
       (plan_edges p))"

text \<open>\<open>collect_reachable_from\<close> adds to one set of visited nodes.\<close>

definition loop_body_ids :: "execution_plan \<Rightarrow> string set" where
  "loop_body_ids p = fold (\<lambda>s V. bfs (data_pairs p) [s] V) (body_starts p) {}"

definition extended_terminals :: "execution_plan \<Rightarrow> string set" where
  "extended_terminals p = terminal_ids p \<union> loop_ids p \<union> loop_body_ids p"

definition can_reach_any :: "execution_plan \<Rightarrow> string \<Rightarrow> string set \<Rightarrow> bool" where
  "can_reach_any p i T = bfs_hits (id_pairs (plan_edges p)) T [i] {}"

definition no_terminal_errors :: "execution_plan \<Rightarrow> validation_error list" where
  "no_terminal_errors p =
     (if terminal_ids p = {}
      then [verr ''<plan>'' ''plan has no terminal nodes (ACT or ERROR)''] else [])"

definition dead_end_errors :: "execution_plan \<Rightarrow> validation_error list" where
  "dead_end_errors p =
     map (\<lambda>n. verr (node_id n) ''node cannot reach any terminal node (ACT or ERROR)'')
       (filter (\<lambda>n. node_id n \<notin> terminal_ids p \<and> node_id n \<notin> loop_body_ids p \<and>
            plan_edges_from p (node_id n) \<noteq> [] \<and>
            \<not> can_reach_any p (node_id n) (extended_terminals p)) (plan_nodes p))"

text \<open>7. required arguments.\<close>

fun debug_name :: "opcode \<Rightarrow> string" where
  "debug_name Input = ''Input''"
| "debug_name Call = ''Call''"
| "debug_name Calc = ''Calc''"
| "debug_name Decide = ''Decide''"
| "debug_name Switch = ''Switch''"
| "debug_name Act = ''Act''"
| "debug_name Parallel = ''Parallel''"
| "debug_name Loop = ''Loop''"
| "debug_name Wait = ''Wait''"
| "debug_name Merge = ''Merge''"
| "debug_name Error = ''Error''"

definition required_args :: "opcode \<Rightarrow> string list" where
  "required_args op = (case op of
     Input \<Rightarrow> [''name'']
   | Call \<Rightarrow> [''type'', ''target'']
   | Decide \<Rightarrow> [''condition'']
   | Switch \<Rightarrow> [''condition'']
   | Act \<Rightarrow> [''type'']
   | Loop \<Rightarrow> [''max_iterations'']
   | Error \<Rightarrow> [''message'']
   | _ \<Rightarrow> [])"

definition validate_node_args :: "node \<Rightarrow> validation_error list" where
  "validate_node_args n =
     map (\<lambda>k. verr (node_id n) (debug_name (node_op n) @ '' node missing required argument `'' @ k @ ''`''))
       (filter (\<lambda>k. \<not> has_arg n k) (required_args (node_op n)))"

text \<open>8. conditions of outgoing edges.\<close>

definition branch_edge_errors :: "node \<Rightarrow> edge list \<Rightarrow> validation_error list" where
  "branch_edge_errors n out =
     (if length out < 2 then
        [verr (node_id n) (''branch node must have exactly 2 outgoing edges, got '' @ show_nat (length out))]
      else []) @
     (if \<exists>e \<in> set out. edge_condition e = Some ''true'' then []
      else [verr (node_id n) ''branch node missing `true` condition edge'']) @
     (if \<exists>e \<in> set out. edge_condition e = Some ''false'' then []
      else [verr (node_id n) ''branch node missing `false` condition edge'']) @
     map (\<lambda>e. verr (node_id n) (''branch edge to `'' @ edge_to e @ ''` missing condition''))
       (filter (\<lambda>e. edge_condition e = None) out)"

definition parallel_edge_errors :: "node \<Rightarrow> edge list \<Rightarrow> validation_error list" where
  "parallel_edge_errors n out =
     (if out = [] then [verr (node_id n) ''PARALLEL node must have at least one outgoing edge''] else []) @
     map (\<lambda>e. verr (node_id n) (''PARALLEL edge to `'' @ edge_to e @ ''` should not have a condition''))
       (filter (\<lambda>e. edge_condition e \<noteq> None) out)"

definition plain_edge_errors :: "node \<Rightarrow> edge list \<Rightarrow> validation_error list" where
  "plain_edge_errors n out =
     map (\<lambda>e. verr (node_id n) (''non-branch data edge to `'' @ edge_to e @ ''` should not have a condition''))
       (filter (\<lambda>e. edge_kind_of e = EData \<and> edge_condition e \<noteq> None) out) @
     map (\<lambda>e. verr (node_id n) (''non-branch control edge to `'' @ edge_to e @ ''` should not have a condition''))
       (filter (\<lambda>e. edge_kind_of e = EControl \<and> edge_condition e \<noteq> None) out)"

definition edge_errors :: "execution_plan \<Rightarrow> node \<Rightarrow> validation_error list" where
  "edge_errors p n =
     (let out = plan_edges_from p (node_id n) in
      case node_op n of
        Decide \<Rightarrow> branch_edge_errors n out
      | Switch \<Rightarrow> branch_edge_errors n out
      | Loop \<Rightarrow>
          if out = [] then [verr (node_id n) ''LOOP node must have at least one outgoing edge''] else []
      | Parallel \<Rightarrow> parallel_edge_errors n out
      | _ \<Rightarrow> plain_edge_errors n out)"

text \<open>10. inputs have a name.\<close>

definition input_errors :: "execution_plan \<Rightarrow> validation_error list" where
  "input_errors p =
     map (\<lambda>n. verr (node_id n) ''INPUT node missing required `name` argument'')
       (filter (\<lambda>n. node_op n = Input \<and> \<not> has_arg n ''name'') (plan_nodes p))"

text \<open>11. subgraph calls.\<close>

definition subgraph_target :: "node \<Rightarrow> string option" where
  "subgraph_target n =
     (if node_op n \<noteq> Call then None
      else case find_node_arg n ''target'' of
        Some a \<Rightarrow>
          (case arg_val a of
             AString s \<Rightarrow> if starts_with s ''subgraph:'' then Some s else None
           | _ \<Rightarrow> None)
      | None \<Rightarrow> None)"

definition self_cycle :: "execution_plan \<Rightarrow> string \<Rightarrow> bool" where
  "self_cycle p target \<longleftrightarrow>
     (\<exists>d \<in> set (subgraph_dependencies (plan_metadata p)).
        contains d (trim_start_matches ''subgraph:'' target))"

definition self_cycle_errors :: "execution_plan \<Rightarrow> node \<Rightarrow> validation_error list" where
  "self_cycle_errors p n =
     (case subgraph_target n of
        None \<Rightarrow> []
      | Some t \<Rightarrow>
          if self_cycle p t then
            [verr (node_id n) (''subgraph '' @ [squote] @ trim_start_matches ''subgraph:'' t @
               [squote] @ '' may contain a self-cycle (found in subgraph_dependencies)'')]
          else [])"

definition nesting_errors :: "execution_plan \<Rightarrow> validation_error list" where
  "nesting_errors p =
     (let k = length (List.map_filter subgraph_target (plan_nodes p));
          m = max_recursion_depth (plan_metadata p) in
      if k > m then
        [verr ''<plan>'' (''subgraph nesting depth ('' @ show_nat k @
           '') exceeds max_recursion_depth ('' @ show_nat m @ '')'')]
      else [])"

definition validate :: "execution_plan \<Rightarrow> validation_error list + unit" where
  "validate p =
     (let early = duplicate_errors {} (plan_nodes p) @ reference_errors p in
      if early \<noteq> [] then Inl early
      else
        (let errors = empty_errors p @ cycle_errors p @ unreachable_errors p @
               no_terminal_errors p @ dead_end_errors p @
               concat (map validate_node_args (plan_nodes p)) @
               concat (map (edge_errors p) (plan_nodes p)) @ input_errors p @
               concat (map (self_cycle_errors p) (plan_nodes p)) @ nesting_errors p
         in if errors = [] then Inr () else Inl errors))"

section \<open>CFG flattening\<close>

definition cfg_errors :: "node \<Rightarrow> edge list \<Rightarrow> validation_error list" where
  "cfg_errors n out =
     (let k = length out in
      case node_op n of
        Decide \<Rightarrow> if k \<noteq> 2 then
          [verr (node_id n) (''CFG: DECIDE/SWITCH must have 2 outgoing edges, got '' @ show_nat k)] else []
      | Switch \<Rightarrow> if k \<noteq> 2 then
          [verr (node_id n) (''CFG: DECIDE/SWITCH must have 2 outgoing edges, got '' @ show_nat k)] else []
      | Loop \<Rightarrow> if out = [] then
          [verr (node_id n) ''CFG: LOOP must have at least 1 outgoing edge''] else []
      | Parallel \<Rightarrow> if k < 2 then
          [verr (node_id n) (''CFG: PARALLEL should have '' @ map char_of [226, 137, 165 :: nat] @
             ''2 outgoing edges, got '' @ show_nat k)] else []
      | _ \<Rightarrow> if k > 1 then
          [verr (node_id n) (''CFG: non-branch node has '' @ show_nat k @ '' outgoing edges'')] else [])"

definition verify_cfg_flattening :: "execution_plan \<Rightarrow> validation_error list + unit" where
  "verify_cfg_flattening p =
     (let errors = concat (map (\<lambda>n. cfg_errors n (plan_edges_from p (node_id n))) (plan_nodes p)) in
      if errors = [] then Inr () else Inl errors)"

section \<open>What a valid plan is\<close>

definition plan_rel :: "execution_plan \<Rightarrow> (string \<times> string) set" where
  "plan_rel p = set (id_pairs (plan_edges p))"

definition loop_body_reach :: "execution_plan \<Rightarrow> string set" where
  "loop_body_reach p = (set (data_pairs p))\<^sup>* `` set (body_starts p)"

definition edges_ok :: "opcode \<Rightarrow> edge list \<Rightarrow> bool" where
  "edges_ok op out \<longleftrightarrow> (case op of
     Decide \<Rightarrow> {Some ''true'', Some ''false''} \<subseteq> edge_condition ` set out \<and> None \<notin> edge_condition ` set out
   | Switch \<Rightarrow> {Some ''true'', Some ''false''} \<subseteq> edge_condition ` set out \<and> None \<notin> edge_condition ` set out
   | Loop \<Rightarrow> out \<noteq> []
   | Parallel \<Rightarrow> out \<noteq> [] \<and> edge_condition ` set out \<subseteq> {None}
   | _ \<Rightarrow> edge_condition ` set out \<subseteq> {None})"

definition ends_somewhere :: "execution_plan \<Rightarrow> node \<Rightarrow> bool" where
  "ends_somewhere p n \<longleftrightarrow> plan_edges_from p (node_id n) = [] \<or>
     (plan_rel p)\<^sup>* `` {node_id n} \<inter> (terminal_ids p \<union> loop_ids p \<union> loop_body_reach p) \<noteq> {}"

definition subgraph_calls_ok :: "execution_plan \<Rightarrow> bool" where
  "subgraph_calls_ok p \<longleftrightarrow>
     (\<forall>n \<in> set (plan_nodes p). \<forall>t. subgraph_target n = Some t \<longrightarrow> \<not> self_cycle p t) \<and>
     length (filter (\<lambda>n. subgraph_target n \<noteq> None) (plan_nodes p)) \<le> max_recursion_depth (plan_metadata p)"

definition valid_plan :: "execution_plan \<Rightarrow> bool" where
  "valid_plan p \<longleftrightarrow>
     distinct (map node_id (plan_nodes p)) \<and>
     (\<forall>e \<in> set (plan_edges p). edge_from e \<in> node_ids p \<and> edge_to e \<in> node_ids p) \<and>
     plan_nodes p \<noteq> [] \<and>
     acyclic (set (id_pairs (acyclic_edges p))) \<and>
     node_ids p \<subseteq> (plan_rel p)\<^sup>* `` set (root_ids p) \<and>
     terminal_ids p \<noteq> {} \<and>
     (\<forall>n \<in> set (plan_nodes p). ends_somewhere p n) \<and>
     (\<forall>n \<in> set (plan_nodes p). \<forall>k \<in> set (required_args (node_op n)). has_arg n k) \<and>
     (\<forall>n \<in> set (plan_nodes p). edges_ok (node_op n) (plan_edges_from p (node_id n))) \<and>
     subgraph_calls_ok p"

section \<open>Each check\<close>

lemma concat_map_Nil [simp]: "concat (map f xs) = [] \<longleftrightarrow> (\<forall>x \<in> set xs. f x = [])"
  by (induction xs) auto

lemma map_filter_length: "length (List.map_filter f xs) = length (filter (\<lambda>x. f x \<noteq> None) xs)"
  by (induction xs) (auto simp: List.map_filter_simps split: option.splits)

lemma duplicate_errors_Nil:
  "duplicate_errors seen ns = [] \<longleftrightarrow> distinct (map node_id ns) \<and> node_id ` set ns \<inter> seen = {}"
  by (induction ns arbitrary: seen) auto

lemma reference_errors_Nil:
  "reference_errors p = [] \<longleftrightarrow>
     (\<forall>e \<in> set (plan_edges p). edge_from e \<in> node_ids p \<and> edge_to e \<in> node_ids p)"
  by (auto simp: reference_errors_def)

lemma index_node_distinct:
  assumes "distinct (map node_id ns)"
  shows "index_node ns = find_node ns"
proof
  fix i
  have r: "distinct (map node_id (rev ns))" using assms by (simp add: rev_map [symmetric])
  show "index_node ns i = find_node ns i"
  proof (cases "\<exists>n \<in> set ns. node_id n = i")
    case True
    then obtain n where "n \<in> set ns" "node_id n = i" by blast
    then show ?thesis
      using find_node_distinct [OF assms] find_node_distinct [OF r]
      by (auto simp: index_node_def find_node_def)
  next
    case False
    then have "find (\<lambda>n. node_id n = i) ns = None" "find (\<lambda>n. node_id n = i) (rev ns) = None"
      by (simp_all add: find_None_iff)
    then show ?thesis by (simp add: index_node_def find_node_def)
  qed
qed

lemma order_ids_length: "order_ids get ns es = Inr xs \<Longrightarrow> length xs = length ns"
  by (auto simp: order_ids_def Let_def split: option.splits if_splits)

lemma cycle_errors_Nil:
  assumes "distinct (map node_id (plan_nodes p))" "reference_errors p = []"
  shows "cycle_errors p = [] \<longleftrightarrow> acyclic (set (id_pairs (acyclic_edges p)))"
proof -
  have v: "validator_order p (acyclic_edges p) =
      order_ids (find_node (plan_nodes p)) (plan_nodes p) (acyclic_edges p)"
    by (simp add: validator_order_def index_node_distinct [OF assms(1)])
  have "edges_into (node_ids p) (id_pairs (acyclic_edges p)) = set (id_pairs (acyclic_edges p)) \<and>
      fst ` set (id_pairs (acyclic_edges p)) \<subseteq> node_ids p"
    using assms(2) by (auto simp: reference_errors_Nil edges_into_def id_pairs_def acyclic_edges_def)
  then have "ids_acyclic (plan_nodes p) (acyclic_edges p) \<longleftrightarrow> acyclic (set (id_pairs (acyclic_edges p)))"
    by (simp add: ids_acyclic_def node_ids_def)
  moreover have "cycle_errors p = [] \<longleftrightarrow> is_ok (validator_order p (acyclic_edges p))"
    using order_ids_length by (auto simp: cycle_errors_def validator_order_def is_ok_def split: sum.splits)
  ultimately show ?thesis using order_ids_correct(1) [OF assms(1)] v by simp
qed

lemma reachable_ids_eq: "reachable_ids p = (plan_rel p)\<^sup>* `` set (root_ids p)"
  by (simp add: reachable_ids_def bfs_from plan_rel_def)

lemma unreachable_errors_Nil:
  "unreachable_errors p = [] \<longleftrightarrow> node_ids p \<subseteq> (plan_rel p)\<^sup>* `` set (root_ids p)"
  by (auto simp: unreachable_errors_def reachable_ids_eq filter_empty_conv node_ids_def)

lemma loop_body_ids_eq: "loop_body_ids p = loop_body_reach p"
  using fold_bfs [of "data_pairs p" "body_starts p" "{}"]
  by (simp add: loop_body_ids_def loop_body_reach_def)

lemma can_reach_any_iff: "can_reach_any p i T \<longleftrightarrow> (plan_rel p)\<^sup>* `` {i} \<inter> T \<noteq> {}"
  by (simp add: can_reach_any_def bfs_hits_from plan_rel_def)

lemma dead_end_errors_Nil: "dead_end_errors p = [] \<longleftrightarrow> (\<forall>n \<in> set (plan_nodes p). ends_somewhere p n)"
  by (auto simp: dead_end_errors_def ends_somewhere_def filter_empty_conv can_reach_any_iff
      extended_terminals_def loop_body_ids_eq)

lemma validate_node_args_Nil:
  "validate_node_args n = [] \<longleftrightarrow> (\<forall>k \<in> set (required_args (node_op n)). has_arg n k)"
  unfolding validate_node_args_def map_is_Nil_conv filter_empty_conv by simp

lemma two_conditions:
  assumes "Some c \<in> edge_condition ` set out" "Some d \<in> edge_condition ` set out" "c \<noteq> d"
  shows "\<not> length out < 2"
proof -
  from assms(1) obtain a where a: "a \<in> set out" "edge_condition a = Some c" by auto
  from assms(2) obtain b where b: "b \<in> set out" "edge_condition b = Some d" by auto
  from a b assms(3) have "a \<noteq> b" by auto
  with a(1) b(1) have "card {a, b} \<le> card (set out)" "card {a, b} = 2"
    using card_mono [of "set out" "{a, b}"] by simp_all
  with card_length [of out] show ?thesis by linarith
qed

lemma branch_edge_errors_Nil:
  "branch_edge_errors n out = [] \<longleftrightarrow>
     {Some ''true'', Some ''false''} \<subseteq> edge_condition ` set out \<and> None \<notin> edge_condition ` set out"
proof -
  have c: "(\<exists>e \<in> set out. edge_condition e = c) \<longleftrightarrow> c \<in> edge_condition ` set out" for c by force
  have n: "filter (\<lambda>e. edge_condition e = None) out = [] \<longleftrightarrow> None \<notin> edge_condition ` set out"
    by (force simp: filter_empty_conv)
  show ?thesis
    using two_conditions [of "''true''" out "''false''"]
    unfolding branch_edge_errors_def c by (simp add: n)
qed

lemma edge_errors_Nil: "edge_errors p n = [] \<longleftrightarrow> edges_ok (node_op n) (plan_edges_from p (node_id n))"
proof -
  have k: "edge_kind_of e = EData \<or> edge_kind_of e = EControl" for e by (cases "edge_kind_of e") auto
  have "plain_edge_errors n out = [] \<longleftrightarrow> edge_condition ` set out \<subseteq> {None}" for out
    using k by (auto simp: plain_edge_errors_def filter_empty_conv)
  then show ?thesis
    by (auto simp: edge_errors_def edges_ok_def Let_def branch_edge_errors_Nil parallel_edge_errors_def
        filter_empty_conv split: opcode.split)
qed

lemma subgraph_errors_Nil:
  "(\<forall>n \<in> set (plan_nodes p). self_cycle_errors p n = []) \<and> nesting_errors p = [] \<longleftrightarrow> subgraph_calls_ok p"
  by (auto simp: self_cycle_errors_def nesting_errors_def subgraph_calls_ok_def Let_def
      map_filter_length split: option.splits)

lemma input_errors_Nil:
  "(\<forall>n \<in> set (plan_nodes p). validate_node_args n = []) \<Longrightarrow> input_errors p = []"
  by (auto simp: input_errors_def filter_empty_conv validate_node_args_Nil required_args_def)

lemma no_terminal_errors_Nil: "no_terminal_errors p = [] \<longleftrightarrow> terminal_ids p \<noteq> {}"
  by (simp add: no_terminal_errors_def)

lemma validate_valid: "validate p = Inr () \<longleftrightarrow> valid_plan p"
proof (cases "distinct (map node_id (plan_nodes p)) \<and> reference_errors p = []")
  case True
  then have early: "duplicate_errors {} (plan_nodes p) @ reference_errors p = []"
    by (simp add: duplicate_errors_Nil)
  have ref: "\<forall>e \<in> set (plan_edges p). edge_from e \<in> node_ids p \<and> edge_to e \<in> node_ids p"
    using True by (simp add: reference_errors_Nil)
  have "validate p = Inr () \<longleftrightarrow> empty_errors p = [] \<and> cycle_errors p = [] \<and> unreachable_errors p = [] \<and>
      no_terminal_errors p = [] \<and> dead_end_errors p = [] \<and>
      (\<forall>n \<in> set (plan_nodes p). validate_node_args n = []) \<and>
      (\<forall>n \<in> set (plan_nodes p). edge_errors p n = []) \<and> input_errors p = [] \<and>
      (\<forall>n \<in> set (plan_nodes p). self_cycle_errors p n = []) \<and> nesting_errors p = []"
    using early by (auto simp: validate_def Let_def)
  then show ?thesis
    using True ref input_errors_Nil [of p] subgraph_errors_Nil [of p]
    unfolding valid_plan_def cycle_errors_Nil [OF True [THEN conjunct1] True [THEN conjunct2]]
      unreachable_errors_Nil no_terminal_errors_Nil dead_end_errors_Nil validate_node_args_Nil
      edge_errors_Nil
    by (auto simp: empty_errors_def)
next
  case False
  then have "duplicate_errors {} (plan_nodes p) @ reference_errors p \<noteq> []" "\<not> valid_plan p"
    by (auto simp: duplicate_errors_Nil reference_errors_Nil valid_plan_def)
  then show ?thesis by (simp add: validate_def Let_def)
qed

end
