(* ===== verification/Errors.thy ===== *)
theory Errors
  imports Strings
begin

text \<open>
  Errors of the interpreter and the IR version window (\<open>tinypipe-vm/src/error.rs\<close>).
  \<open>OutOfFuel\<close> is not a constructor of the source: it marks an interpreter run whose
  recursion bound was too small, and the development proves it unreachable.
\<close>

datatype exec_error =
    CycleDetected
  | NodeNotFound string
  | VariableNotFound string
  | CallFailed string string
  | EvalError string
  | LoopLimitExceeded u32
  | TimeLimitExceeded nat
  | MemoryLimitExceeded nat nat
  | NodeBudgetExceeded u32 u32
  | RecursionDepthExceeded u32 u32
  | RecursionLimitExceeded string
  | Custom string
  | VersionMismatch string
  | SchemaDriftDetected string string string
  | OutOfFuel

definition min_supported_version :: nat where
  "min_supported_version = 2"

definition max_supported_version :: nat where
  "max_supported_version = 4"

definition check_version_compatibility :: "nat \<Rightarrow> string + unit" where
  "check_version_compatibility v =
     (if v < min_supported_version then
        Inl (''IR version '' @ show_nat v @ '' is too old. Minimum supported: '' @
          show_nat min_supported_version @ ''. Recompile the plan.'')
      else if v > max_supported_version then
        Inl (''IR version '' @ show_nat v @ '' is too new. Maximum supported: '' @
          show_nat max_supported_version @ ''. Upgrade the VM.'')
      else Inr ())"

lemma version_window: "is_ok (check_version_compatibility v) \<longleftrightarrow> 2 \<le> v \<and> v \<le> 4"
  by (simp add: check_version_compatibility_def min_supported_version_def max_supported_version_def)

end
