(* ===== verification/Contexts.thy ===== *)
theory Contexts
  imports Values
begin

text \<open>
  The execution context (\<open>Context\<close> of \<open>tinypipe-api/src/types.rs\<close>, here \<open>tp_context\<close>): global variables, one scope per
  branch of a \<open>PARALLEL\<close> node, the snapshot taken on entry to it and the branch that is
  active.  The lemmas give the laws of reading and writing (a locale that both \<open>Scope\<close> and
  \<open>Context\<close> interpret), the isolation of branches, and a key-wise description of what
  \<open>merge_branches\<close> computes.
\<close>

section \<open>Scopes\<close>

datatype merge_strategy = Last | First | Min | Max | Concat | Sum | Avg

record scope =
  scope_variables :: "tp_value smap"
  merge_strategies :: "merge_strategy smap"

definition scope_new :: scope where
  "scope_new = \<lparr>scope_variables = [], merge_strategies = []\<rparr>"

definition scope_child :: "scope \<Rightarrow> scope" where
  "scope_child parent =
     \<lparr>scope_variables = scope_variables parent, merge_strategies = merge_strategies parent\<rparr>"

definition scope_get :: "scope \<Rightarrow> string \<Rightarrow> tp_value option" where
  "scope_get s k = map_of (scope_variables s) k"

definition scope_set :: "string \<Rightarrow> tp_value \<Rightarrow> scope \<Rightarrow> scope" where
  "scope_set k v s = s\<lparr>scope_variables := upd k v (scope_variables s)\<rparr>"

definition scope_set_merge_strategy :: "string \<Rightarrow> merge_strategy \<Rightarrow> scope \<Rightarrow> scope" where
  "scope_set_merge_strategy k st s = s\<lparr>merge_strategies := upd k st (merge_strategies s)\<rparr>"

definition get_merge_strategy :: "scope \<Rightarrow> string \<Rightarrow> merge_strategy" where
  "get_merge_strategy s k =
     (case map_of (merge_strategies s) k of Some st \<Rightarrow> st | None \<Rightarrow> Last)"

section \<open>The context\<close>

record tp_context =
  variables :: "tp_value smap"
  branch_scopes :: "scope nmap"
  parent_scope :: "scope option"
  active_branch :: "u32 option"

definition context_new :: "tp_context" where
  "context_new =
     \<lparr>variables = [], branch_scopes = [], parent_scope = None, active_branch = None\<rparr>"

definition active_value :: "tp_context \<Rightarrow> string \<Rightarrow> tp_value option" where
  "active_value c k =
     (case active_branch c of
        None \<Rightarrow> None
      | Some bid \<Rightarrow>
          (case map_of (branch_scopes c) bid of
             None \<Rightarrow> None
           | Some s \<Rightarrow> map_of (scope_variables s) k))"

definition parent_value :: "tp_context \<Rightarrow> string \<Rightarrow> tp_value option" where
  "parent_value c k =
     (case parent_scope c of None \<Rightarrow> None | Some p \<Rightarrow> map_of (scope_variables p) k)"

definition ctx_get :: "tp_context \<Rightarrow> string \<Rightarrow> tp_value option" where
  "ctx_get c k =
     (case active_value c k of
        Some v \<Rightarrow> Some v
      | None \<Rightarrow>
          (case parent_value c k of
             Some v \<Rightarrow> Some v
           | None \<Rightarrow> map_of (variables c) k))"

definition ctx_set :: "string \<Rightarrow> tp_value \<Rightarrow> tp_context \<Rightarrow> tp_context" where
  "ctx_set k v c =
     (case active_branch c of
        Some bid \<Rightarrow>
          c\<lparr>branch_scopes :=
              modify_or_insert bid (scope_set k v) (scope_set k v scope_new) (branch_scopes c)\<rparr>
      | None \<Rightarrow> c\<lparr>variables := upd k v (variables c)\<rparr>)"

definition enter_parallel :: "tp_context \<Rightarrow> tp_context" where
  "enter_parallel c =
     c\<lparr>parent_scope := Some \<lparr>scope_variables = variables c, merge_strategies = []\<rparr>,
       branch_scopes := [], active_branch := None\<rparr>"

definition exit_parallel :: "tp_context \<Rightarrow> tp_context" where
  "exit_parallel c = c\<lparr>active_branch := None\<rparr>"

definition set_branch :: "u32 \<Rightarrow> tp_context \<Rightarrow> tp_context" where
  "set_branch bid c =
     c\<lparr>active_branch := Some bid, branch_scopes := or_insert bid scope_new (branch_scopes c)\<rparr>"

definition clear_branch :: "tp_context \<Rightarrow> tp_context" where
  "clear_branch c = c\<lparr>active_branch := None\<rparr>"

definition insert_branch_scope :: "u32 \<Rightarrow> scope \<Rightarrow> tp_context \<Rightarrow> tp_context" where
  "insert_branch_scope bid s c = c\<lparr>branch_scopes := upd bid s (branch_scopes c)\<rparr>"

definition take_branch_scope :: "u32 \<Rightarrow> tp_context \<Rightarrow> scope option \<times> tp_context" where
  "take_branch_scope bid c =
     (map_of (branch_scopes c) bid, c\<lparr>branch_scopes := remove_key bid (branch_scopes c)\<rparr>)"

definition ctx_set_merge_strategy :: "string \<Rightarrow> merge_strategy \<Rightarrow> tp_context \<Rightarrow> tp_context" where
  "ctx_set_merge_strategy k st c =
     (case active_branch c of
        Some bid \<Rightarrow>
          c\<lparr>branch_scopes :=
              modify_or_insert bid (scope_set_merge_strategy k st)
                (scope_set_merge_strategy k st scope_new) (branch_scopes c)\<rparr>
      | None \<Rightarrow> c)"

text \<open>One variable of one branch scope, merged into the global variables.\<close>

definition merge_min :: "tp_value \<Rightarrow> tp_value \<Rightarrow> tp_value" where
  "merge_min v existing =
     (case (as_f64 v, as_f64 existing) of
        (Some a, Some b) \<Rightarrow> if f64_less a b then v else existing
      | _ \<Rightarrow> existing)"

definition merge_max :: "tp_value \<Rightarrow> tp_value \<Rightarrow> tp_value" where
  "merge_max v existing =
     (case (as_f64 v, as_f64 existing) of
        (Some a, Some b) \<Rightarrow> if f64_less b a then v else existing
      | _ \<Rightarrow> existing)"

definition merge_concat :: "tp_value \<Rightarrow> tp_value \<Rightarrow> tp_value" where
  "merge_concat v existing =
     (case (existing, v) of
        (VString a, VString b) \<Rightarrow> VString (a @ b)
      | (VArray a, VArray b) \<Rightarrow> VArray (a @ b)
      | _ \<Rightarrow> v)"

definition merge_sum :: "tp_value \<Rightarrow> tp_value \<Rightarrow> tp_value" where
  "merge_sum v existing = (case checked_add existing v of Some s \<Rightarrow> s | None \<Rightarrow> existing)"

definition merge_avg :: "tp_value \<Rightarrow> tp_value \<Rightarrow> tp_value" where
  "merge_avg v existing =
     (case (as_f64 existing, as_f64 v) of
        (Some a, Some b) \<Rightarrow> VFloat (f64_div (f64_add a b) f64_two)
      | _ \<Rightarrow> existing)"

definition merge_entry :: "merge_strategy \<Rightarrow> string \<Rightarrow> tp_value \<Rightarrow> tp_value smap \<Rightarrow> tp_value smap" where
  "merge_entry strategy key v vars =
     (case strategy of
        Last \<Rightarrow> upd key v vars
      | First \<Rightarrow> or_insert key v vars
      | Min \<Rightarrow> modify_or_insert key (merge_min v) v vars
      | Max \<Rightarrow> modify_or_insert key (merge_max v) v vars
      | Concat \<Rightarrow> modify_or_insert key (merge_concat v) v vars
      | Sum \<Rightarrow> modify_or_insert key (merge_sum v) v vars
      | Avg \<Rightarrow> modify_or_insert key (merge_avg v) v vars)"

definition merge_scope :: "scope \<Rightarrow> tp_value smap \<Rightarrow> tp_value smap" where
  "merge_scope s vars =
     fold (\<lambda>key. let v = (case map_of (scope_variables s) key of Some v \<Rightarrow> v | None \<Rightarrow> VNull)
                 in merge_entry (get_merge_strategy s key) key v)
       (map fst (scope_variables s)) vars"

definition merge_branches :: "tp_context \<Rightarrow> tp_context" where
  "merge_branches c =
     (let scopes = sort_key fst (branch_scopes c) in
      c\<lparr>variables := fold (\<lambda>(_, s). merge_scope s) scopes (variables c),
        branch_scopes := [], parent_scope := None, active_branch := None\<rparr>)"

definition all_variables :: "tp_context \<Rightarrow> tp_value smap" where
  "all_variables c =
     (case active_branch c of
        None \<Rightarrow> variables c
      | Some bid \<Rightarrow>
          (case map_of (branch_scopes c) bid of
             None \<Rightarrow> variables c
           | Some s \<Rightarrow> fold (\<lambda>(k, v). upd k v) (scope_variables s) (variables c)))"

text \<open>\<open>json_len v\<close> stands for the length of \<open>serde_json::to_string(v)\<close>.\<close>

definition estimated_bytes :: "(tp_value \<Rightarrow> nat) \<Rightarrow> tp_context \<Rightarrow> nat" where
  "estimated_bytes json_len c =
     sum_list (map (\<lambda>(k, v). length k + json_len v) (variables c)) +
     sum_list (map (\<lambda>(k, v). length k + json_len v)
       (concat (map (\<lambda>(_, s). scope_variables s) (branch_scopes c))))"

section \<open>Reading and writing\<close>

text \<open>
  The interface the interpreter relies on: a store with a read and a write, and the keys
  whose writes are visible to the next read.
\<close>

locale var_store =
  fixes get :: "'s \<Rightarrow> string \<Rightarrow> tp_value option"
    and set_var :: "string \<Rightarrow> tp_value \<Rightarrow> 's \<Rightarrow> 's"
    and vis :: "'s \<Rightarrow> string \<Rightarrow> bool"
  assumes get_set_same: "vis s k \<Longrightarrow> get (set_var k v s) k = Some v"
    and get_set_other: "k \<noteq> k' \<Longrightarrow> get (set_var k v s) k' = get s k'"
    and vis_set: "vis (set_var k v s) k' = vis s k'"
begin

text \<open>Writing a list of pairs: the last write of a key wins, other keys keep their value.\<close>

lemma get_fold_other:
  "k \<notin> set (map fst ps) \<Longrightarrow> get (fold (\<lambda>(k, v). set_var k v) ps s) k = get s k"
  by (induction ps arbitrary: s) (auto simp: get_set_other)

lemma vis_fold: "vis (fold (\<lambda>(k, v). set_var k v) ps s) k = vis s k"
proof (induction ps arbitrary: s)
  case Nil
  then show ?case by simp
next
  case (Cons p ps)
  obtain a b where "p = (a, b)" by (cases p)
  with Cons.IH [of "set_var a b s"] show ?case by (simp add: vis_set)
qed

lemma get_fold:
  "vis s k \<Longrightarrow> get (fold (\<lambda>(k, v). set_var k v) ps s) k =
     (case map_of (rev ps) k of Some v \<Rightarrow> Some v | None \<Rightarrow> get s k)"
proof (induction ps rule: rev_induct)
  case Nil
  then show ?case by simp
next
  case (snoc p ps)
  obtain a b where p: "p = (a, b)" by (cases p)
  let ?t = "fold (\<lambda>(k, v). set_var k v) ps s"
  show ?case
  proof (cases "a = k")
    case True
    have "vis ?t k" using snoc.prems by (simp add: vis_fold)
    then have "get (set_var k b ?t) k = Some b" by (rule get_set_same)
    with True show ?thesis by (simp add: p)
  next
    case False
    then have "get (set_var a b ?t) k = get ?t k" by (rule get_set_other)
    with False snoc show ?thesis by (simp add: p)
  qed
qed

text \<open>
  Renaming by an edge mapping: each pair copies a variable that is set; a target no pair
  names keeps its value.
\<close>

lemma get_rename_other:
  "k \<notin> set (map snd ps) \<Longrightarrow>
   get (fold (\<lambda>(a, b) s. case get s a of Some v \<Rightarrow> set_var b v s | None \<Rightarrow> s) ps s) k = get s k"
proof (induction ps arbitrary: s)
  case Nil
  then show ?case by simp
next
  case (Cons p ps)
  then show ?case by (cases p) (auto simp: get_set_other split: option.splits)
qed

end

text \<open>A write to the context is visible unless it goes to the globals behind a snapshot.\<close>

definition write_visible :: "tp_context \<Rightarrow> string \<Rightarrow> bool" where
  "write_visible c k \<longleftrightarrow> active_branch c \<noteq> None \<or> parent_value c k = None"

lemma ctx_get_set_same: "write_visible c k \<Longrightarrow> ctx_get (ctx_set k v c) k = Some v"
  by (cases "active_branch c")
    (auto simp: write_visible_def ctx_get_def ctx_set_def active_value_def parent_value_def
      scope_set_def map_of_modify_or_insert split: option.splits)

lemma ctx_get_set_other: "k \<noteq> k' \<Longrightarrow> ctx_get (ctx_set k v c) k' = ctx_get c k'"
  by (cases "active_branch c")
    (auto simp: ctx_get_def ctx_set_def active_value_def parent_value_def scope_new_def
      scope_set_def map_of_modify_or_insert split: option.splits)

lemma write_visible_set: "write_visible (ctx_set k v c) k' = write_visible c k'"
  by (auto simp: write_visible_def ctx_set_def parent_value_def split: option.splits)

interpretation scope_store: var_store scope_get scope_set "\<lambda>_ _. True"
  by unfold_locales (simp_all add: scope_get_def scope_set_def)

interpretation ctx_store: var_store ctx_get ctx_set write_visible
  by unfold_locales (simp_all add: ctx_get_set_same ctx_get_set_other write_visible_set)

section \<open>Facts about scopes\<close>

lemma ctx_set_active [simp]: "active_branch (ctx_set k v c) = active_branch c"
  by (auto simp: ctx_set_def split: option.splits)

lemma ctx_set_parent [simp]: "parent_scope (ctx_set k v c) = parent_scope c"
  by (auto simp: ctx_set_def split: option.splits)

lemma ctx_set_branch_variables: "active_branch c \<noteq> None \<Longrightarrow> variables (ctx_set k v c) = variables c"
  by (auto simp: ctx_set_def)

lemma ctx_set_other_scope:
  "active_branch c \<noteq> Some b \<Longrightarrow> map_of (branch_scopes (ctx_set k v c)) b = map_of (branch_scopes c) b"
  by (auto simp: ctx_set_def map_of_modify_or_insert split: option.splits)

text \<open>What branch \<open>b\<close> sees: the reads after \<open>set_branch b\<close>.\<close>

definition branch_view :: "u32 \<Rightarrow> tp_context \<Rightarrow> string \<Rightarrow> tp_value option" where
  "branch_view b c = ctx_get (set_branch b c)"

lemma branch_view_scope:
  "branch_view b c k =
     (case Option.bind (map_of (branch_scopes c) b) (\<lambda>s. map_of (scope_variables s) k) of
        Some v \<Rightarrow> Some v
      | None \<Rightarrow> (case parent_value c k of Some v \<Rightarrow> Some v | None \<Rightarrow> map_of (variables c) k))"
  by (auto simp: branch_view_def set_branch_def ctx_get_def active_value_def parent_value_def
      map_of_or_insert scope_new_def split: option.splits)

lemma branch_write_isolated:
  assumes "b \<noteq> b'"
  shows "branch_view b' (ctx_set k v (set_branch b c)) = branch_view b' c"
proof
  fix x
  have "map_of (branch_scopes (ctx_set k v (set_branch b c))) b' =
      map_of (branch_scopes (set_branch b c)) b'"
    using assms by (intro ctx_set_other_scope) (simp add: set_branch_def)
  also have "\<dots> = map_of (branch_scopes c) b'"
    using assms by (simp add: set_branch_def map_of_or_insert)
  finally have scopes: "map_of (branch_scopes (ctx_set k v (set_branch b c))) b' =
      map_of (branch_scopes c) b'" .
  have "parent_value (ctx_set k v (set_branch b c)) x = parent_value c x"
    "variables (ctx_set k v (set_branch b c)) = variables c"
    by (simp_all add: parent_value_def set_branch_def ctx_set_branch_variables)
  with scopes show "branch_view b' (ctx_set k v (set_branch b c)) x = branch_view b' c x"
    by (auto simp: branch_view_scope split: option.split)
qed

lemma branch_write_global_unchanged:
  "variables (ctx_set k v (set_branch b c)) = variables c"
  by (simp add: set_branch_def ctx_set_branch_variables)

section \<open>Merging branches\<close>

text \<open>What one write adds to the value a key has so far.\<close>

definition combine :: "merge_strategy \<Rightarrow> tp_value \<Rightarrow> tp_value option \<Rightarrow> tp_value" where
  "combine strategy v cur =
     (case cur of
        None \<Rightarrow> v
      | Some x \<Rightarrow>
          (case strategy of
             Last \<Rightarrow> v | First \<Rightarrow> x | Min \<Rightarrow> merge_min v x | Max \<Rightarrow> merge_max v x
           | Concat \<Rightarrow> merge_concat v x | Sum \<Rightarrow> merge_sum v x | Avg \<Rightarrow> merge_avg v x))"

lemma map_of_merge_entry:
  "map_of (merge_entry st key v vars) = (map_of vars)(key \<mapsto> combine st v (map_of vars key))"
  by (cases st)
    (auto simp: merge_entry_def combine_def map_of_modify_or_insert map_of_or_insert fun_eq_iff
      split: option.splits)

lemma map_of_merge_scope:
  assumes "wf_map (scope_variables s)"
  shows "map_of (merge_scope s vars) key =
     (case map_of (scope_variables s) key of
        None \<Rightarrow> map_of vars key
      | Some v \<Rightarrow> Some (combine (get_merge_strategy s key) v (map_of vars key)))"
proof -
  define f where "f = (\<lambda>key. let v = (case map_of (scope_variables s) key of
      Some v \<Rightarrow> v | None \<Rightarrow> VNull) in merge_entry (get_merge_strategy s key) key v)"
  have f: "map_of (f k vs) = (map_of vs)(k \<mapsto>
      combine (get_merge_strategy s k) (case map_of (scope_variables s) k of
        Some v \<Rightarrow> v | None \<Rightarrow> VNull) (map_of vs k))" for k vs
    by (simp add: f_def map_of_merge_entry)
  have "distinct ks \<Longrightarrow> map_of (fold f ks vs) key =
      (if key \<in> set ks then map_of (f key vs) key else map_of vs key)" for ks vs
  proof (induction ks arbitrary: vs)
    case Nil
    then show ?case by simp
  next
    case (Cons k ks)
    then show ?case by (auto simp: f)
  qed
  moreover have "distinct (map fst (scope_variables s))" using assms by (simp add: wf_map_def)
  moreover have "key \<in> fst ` set (scope_variables s) \<longleftrightarrow> map_of (scope_variables s) key \<noteq> None"
    by (simp add: map_of_eq_None_iff)
  moreover have "merge_scope s vars = fold f (map fst (scope_variables s)) vars"
    by (simp add: merge_scope_def f_def)
  ultimately show ?thesis by (auto simp: f split: option.splits)
qed

text \<open>The same for a list of scopes, key by key.\<close>

definition merged_value :: "scope list \<Rightarrow> string \<Rightarrow> tp_value option \<Rightarrow> tp_value option" where
  "merged_value ss key =
     fold (\<lambda>s cur. case map_of (scope_variables s) key of
         None \<Rightarrow> cur
       | Some v \<Rightarrow> Some (combine (get_merge_strategy s key) v cur)) ss"

definition context_ok :: "tp_context \<Rightarrow> bool" where
  "context_ok c \<longleftrightarrow> wf_map (variables c) \<and> wf_map (branch_scopes c) \<and>
     (\<forall>p \<in> set (branch_scopes c). wf_map (scope_variables (snd p)))"

lemma map_of_fold_merge_scope:
  "(\<And>p. p \<in> set ps \<Longrightarrow> wf_map (scope_variables (snd p))) \<Longrightarrow>
   map_of (fold (\<lambda>(_, s). merge_scope s) ps vars) key =
     merged_value (map snd ps) key (map_of vars key)"
proof (induction ps arbitrary: vars)
  case Nil
  then show ?case by (simp add: merged_value_def)
next
  case (Cons p ps)
  obtain b s where p: "p = (b, s)" by (cases p)
  with Cons.prems have "wf_map (scope_variables s)" by force
  then have "map_of (merge_scope s vars) key = merged_value [s] key (map_of vars key)"
    by (simp add: map_of_merge_scope merged_value_def split: option.splits)
  moreover have "map_of (fold (\<lambda>(_, s). merge_scope s) ps (merge_scope s vars)) key =
      merged_value (map snd ps) key (map_of (merge_scope s vars) key)"
    by (rule Cons.IH) (use Cons.prems in auto)
  ultimately show ?case by (simp add: p merged_value_def)
qed

lemma merge_branches_value:
  assumes "context_ok c"
  shows "map_of (variables (merge_branches c)) key =
     merged_value (map snd (sort_key fst (branch_scopes c))) key (map_of (variables c) key)"
  using assms unfolding merge_branches_def Let_def
  by (simp, subst map_of_fold_merge_scope) (auto simp: context_ok_def)

lemma merge_branches_get:
  "ctx_get (merge_branches c) = map_of (variables (merge_branches c))"
  by (auto simp: fun_eq_iff ctx_get_def active_value_def parent_value_def merge_branches_def Let_def)

lemma merged_value_None:
  "(\<And>s. s \<in> set ss \<Longrightarrow> map_of (scope_variables s) key = None) \<Longrightarrow> merged_value ss key cur = cur"
  unfolding merged_value_def by (induction ss arbitrary: cur) auto

lemma merged_value_append:
  "merged_value (ss @ ts) key cur = merged_value ts key (merged_value ss key cur)"
  by (simp add: merged_value_def)

lemma merged_value_last:
  assumes "map_of (scope_variables s) key = Some v" "get_merge_strategy s key = Last"
    and "\<And>t. t \<in> set ts \<Longrightarrow> map_of (scope_variables t) key = None"
  shows "merged_value (ss @ s # ts) key cur = Some v"
  using merged_value_None [of ts key "Some v"] assms
  by (simp add: merged_value_append) (simp add: merged_value_def combine_def split: option.splits)

section \<open>Well-formedness\<close>

lemma context_ok_new: "context_ok context_new"
  by (simp add: context_ok_def context_new_def)

lemma upd_elem: "p \<in> set (upd k v m) \<Longrightarrow> p = (k, v) \<or> p \<in> set m"
  unfolding upd_def by (induction m) (auto split: if_splits)

lemma context_ok_set: "context_ok c \<Longrightarrow> context_ok (ctx_set k v c)"
proof -
  assume ok: "context_ok c"
  show ?thesis
  proof (cases "active_branch c")
    case None
    with ok show ?thesis by (simp add: context_ok_def ctx_set_def)
  next
    case (Some b)
    have new: "wf_map (scope_variables (scope_set k v scope_new))"
      by (simp add: scope_set_def scope_new_def)
    have old: "map_of (branch_scopes c) b = Some s \<Longrightarrow> wf_map (scope_variables (scope_set k v s))"
      for s using ok by (auto simp: context_ok_def scope_set_def dest!: map_of_SomeD)
    show ?thesis using ok new old
      by (auto simp: context_ok_def ctx_set_def Some modify_or_insert_def
          split: option.splits dest!: upd_elem)
  qed
qed

lemma context_ok_set_branch: "context_ok c \<Longrightarrow> context_ok (set_branch b c)"
  by (auto simp: context_ok_def set_branch_def or_insert_def scope_new_def
      split: option.splits dest!: upd_elem)

lemma context_ok_clear_branch: "context_ok c \<Longrightarrow> context_ok (clear_branch c)"
  by (simp add: context_ok_def clear_branch_def)

lemma context_ok_enter_parallel: "context_ok c \<Longrightarrow> context_ok (enter_parallel c)"
  by (simp add: context_ok_def enter_parallel_def)

lemma wf_map_merge_entry: "wf_map vars \<Longrightarrow> wf_map (merge_entry st k v vars)"
  by (cases st) (simp_all add: merge_entry_def)

lemma wf_map_fold: "(\<And>x m. wf_map m \<Longrightarrow> wf_map (f x m)) \<Longrightarrow> wf_map m \<Longrightarrow> wf_map (fold f xs m)"
  by (induction xs arbitrary: m) auto

lemma wf_map_merge_scope: "wf_map vars \<Longrightarrow> wf_map (merge_scope s vars)"
  unfolding merge_scope_def by (rule wf_map_fold) (auto simp: Let_def wf_map_merge_entry)

lemma context_ok_merge_branches: "context_ok c \<Longrightarrow> context_ok (merge_branches c)"
  by (auto simp: context_ok_def merge_branches_def Let_def intro!: wf_map_fold wf_map_merge_scope)

text \<open>Writing the value a variable has in the scope that receives the write changes nothing.\<close>

definition own_value :: "tp_context \<Rightarrow> string \<Rightarrow> tp_value option" where
  "own_value c k =
     (case active_branch c of Some _ \<Rightarrow> active_value c k | None \<Rightarrow> map_of (variables c) k)"

lemma ctx_set_own: "own_value c k = Some v \<Longrightarrow> ctx_set k v c = c"
  by (auto simp: own_value_def ctx_set_def active_value_def modify_or_insert_def scope_set_def
      upd_same split: option.splits)

lemma own_value_set_same: "own_value (ctx_set k v c) k = Some v"
  by (auto simp: own_value_def ctx_set_def active_value_def scope_set_def map_of_modify_or_insert
      split: option.splits)

lemma own_value_set_other: "k \<noteq> k' \<Longrightarrow> own_value (ctx_set k v c) k' = own_value c k'"
  by (auto simp: own_value_def ctx_set_def active_value_def scope_set_def scope_new_def
      map_of_modify_or_insert split: option.splits)

section \<open>Properties of the context\<close>

text \<open>C10: a write made while one branch of a \<open>PARALLEL\<close> node is active changes nothing another branch
  reads, and none of the global variables: the branches are isolated until they are merged.\<close>

theorem branches_isolated:
  assumes "b \<noteq> b'"
  shows "ctx_get (set_branch b' (ctx_set k v (set_branch b c))) = ctx_get (set_branch b' c) \<and>
    variables (ctx_set k v (set_branch b c)) = variables c"
  using branch_write_isolated [OF assms, of k v c] branch_write_global_unchanged [of k v b c]
  by (simp add: branch_view_def)

theorem branches_isolated_witness:
  "ctx_get (set_branch 1 (ctx_set ''x'' VNull (set_branch 0 context_new))) = ctx_get (set_branch 1 context_new)"
  using branches_isolated [of 0 1 "''x''" VNull context_new] by simp

text \<open>C7: after \<open>merge_branches\<close> every variable is readable without a branch and holds what the branch
  scopes in ascending order of their number combine it to, each with its own merge strategy,
  starting from the global value; a key no branch wrote keeps its value.\<close>

theorem merge_branches_combines:
  assumes "context_ok c"
  shows "ctx_get (merge_branches c) key =
    merged_value (map snd (sort_key fst (branch_scopes c))) key (map_of (variables c) key)"
  using merge_branches_value [OF assms] by (simp add: merge_branches_get)

definition two_branches :: "tp_context" where
  "two_branches =
     ctx_set ''x'' (VInt 2) (set_branch 1 (ctx_set ''x'' (VInt 1) (set_branch 0 context_new)))"

theorem merge_branches_combines_witness:
  "ctx_get (merge_branches two_branches) ''x'' = Some (VInt 2)"
proof -
  have ok: "context_ok two_branches"
    by (simp add: two_branches_def context_ok_set context_ok_set_branch context_ok_new)
  have "branch_scopes two_branches = [(0, scope_new\<lparr>scope_variables := [(''x'', VInt 1)]\<rparr>),
      (1, scope_new\<lparr>scope_variables := [(''x'', VInt 2)]\<rparr>)]"
    by (simp add: two_branches_def ctx_set_def set_branch_def context_new_def scope_set_def
        scope_new_def modify_or_insert_def or_insert_def upd_def)
  with merge_branches_combines [OF ok, of "''x''"] show ?thesis
    by (simp add: merged_value_def combine_def scope_new_def get_merge_strategy_def)
qed

end
