(* ===== verification/Eval.thy ===== *)
theory Eval
  imports Errors Contexts
begin

text \<open>
  The expression language of \<open>CALC\<close> nodes, edge conditions and arguments:
  \<open>eval_expression\<close>, \<open>resolve_numeric\<close> and \<open>resolve_arg_value\<close> of
  \<open>tinypipe-vm/src/compiled_executor.rs\<close> with their parsing helpers.

  \<open>eval_step\<close> is the body of \<open>eval_expression\<close> with the recursive calls as an argument, one
  definition per section of the body; a section that does not apply returns \<open>None\<close> and the
  next one is tried.  \<open>eval\<close> closes the recursion with fuel.  Every recursive call is on a
  shorter string, so the length of the expression is enough fuel
  (\<open>eval_fuel_enough\<close>), and \<open>eval_expression\<close> satisfies the recursive equation of the
  source (\<open>eval_expression_unfold\<close>).

  \<open>jd\<close> stands for \<open>serde_json::from_str::<String>\<close>; of it the proofs use only that a JSON
  string is at least two bytes longer than its value (its quotes).
\<close>

type_synonym result = "exec_error + tp_value"

section \<open>Parsing helpers\<close>

fun match_bracket :: "int \<Rightarrow> char option \<Rightarrow> nat \<Rightarrow> string \<Rightarrow> nat option" where
  "match_bracket depth quote j [] = None"
| "match_bracket depth (Some q) j (c # cs) =
     match_bracket depth (if c = q then None else Some q) (Suc j) cs"
| "match_bracket depth None j (c # cs) =
     (if c = dquote \<or> c = squote then match_bracket depth (Some c) (Suc j) cs
      else if c = CHR ''['' \<or> c = CHR ''('' \<or> c = CHR ''{'' then
        match_bracket (depth + 1) None (Suc j) cs
      else if c = CHR '']'' \<or> c = CHR '')'' \<or> c = CHR ''}'' then
        (if depth - 1 = 0 then Some j else match_bracket (depth - 1) None (Suc j) cs)
      else match_bracket depth None (Suc j) cs)"

definition find_matching_bracket :: "string \<Rightarrow> nat \<Rightarrow> nat option" where
  "find_matching_bracket expr opening =
     match_bracket 1 None (Suc opening) (drop (Suc opening) expr)"

lemma match_bracket_bounds: "match_bracket d q j s = Some k \<Longrightarrow> j \<le> k \<and> k < j + length s"
  by (induction d q j s rule: match_bracket.induct) (force split: if_splits)+

lemma find_matching_bracket_bounds:
  "find_matching_bracket e i = Some k \<Longrightarrow> i < k \<and> k < length e"
  using match_bracket_bounds [of 1 None "Suc i" "drop (Suc i) e" k]
  by (cases "Suc i \<le> length e") (auto simp: find_matching_bracket_def)

datatype accessor = Field string | Index string

definition field_end :: "string \<Rightarrow> nat \<Rightarrow> nat" where
  "field_end e i = i + length (takeWhile (\<lambda>c. c \<noteq> CHR ''.'' \<and> c \<noteq> CHR ''['') (drop i e))"

lemma field_end_bounds: "i \<le> length e \<Longrightarrow> i \<le> field_end e i \<and> field_end e i \<le> length e"
  using length_takeWhile_le [of "\<lambda>c. c \<noteq> CHR ''.'' \<and> c \<noteq> CHR ''[''" "drop i e"]
  by (auto simp: field_end_def)

text \<open>The loop of \<open>split_accessors\<close>; \<open>first\<close> is \<open>first_start\<close> once an accessor was found.\<close>

function scan_accessors ::
  "string \<Rightarrow> nat \<Rightarrow> int \<Rightarrow> char option \<Rightarrow> accessor list \<Rightarrow> nat option \<Rightarrow> nat \<Rightarrow>
   (accessor list \<times> nat option \<times> nat) option" where
  "scan_accessors e i depth quote accs first stop =
     (if length e \<le> i then Some (accs, first, stop)
      else case quote of
        Some q \<Rightarrow> scan_accessors e (Suc i) depth (if e ! i = q then None else quote) accs first stop
      | None \<Rightarrow>
          if e ! i = dquote \<or> e ! i = squote then
            scan_accessors e (Suc i) depth (Some (e ! i)) accs first stop
          else if e ! i = CHR ''['' \<and> depth = 0 \<and> 0 < i then
            (case find_matching_bracket e i of
               None \<Rightarrow> None
             | Some close \<Rightarrow>
                 if trim (slice e (Suc i) close) = [] then None
                 else scan_accessors e (Suc close) depth None
                   (accs @ [Index (slice e (Suc i) close)])
                   (if first = None then Some i else first) (Suc close))
          else if e ! i = CHR ''.'' \<and> depth = 0 \<and> 0 < i \<and> Suc i < length e then
            (if trim (slice e (Suc i) (field_end e (Suc i))) = [] then None
             else scan_accessors e (field_end e (Suc i)) depth None
               (accs @ [Field (trim (slice e (Suc i) (field_end e (Suc i))))])
               (if first = None then Some i else first) (field_end e (Suc i)))
          else if e ! i = CHR ''('' \<or> e ! i = CHR ''['' \<or> e ! i = CHR ''{'' then
            scan_accessors e (Suc i) (depth + 1) None accs first stop
          else if e ! i = CHR '')'' \<or> e ! i = CHR '']'' \<or> e ! i = CHR ''}'' then
            scan_accessors e (Suc i) (depth - 1) None accs first stop
          else scan_accessors e (Suc i) depth None accs first stop)"
  by pat_completeness auto
termination
proof (relation "measure (\<lambda>(e, i, _). length e - i)", goal_cases)
  case (3 e i)
  then show ?case using find_matching_bracket_bounds [of e i] by fastforce
next
  case (4 e i)
  then show ?case using field_end_bounds [of "Suc i" e] by (clarsimp, linarith)
qed auto

declare scan_accessors.simps [simp del]

definition split_accessors :: "string \<Rightarrow> (string \<times> accessor list) option" where
  "split_accessors e =
     (case scan_accessors e 0 0 None [] None 0 of
        None \<Rightarrow> None
      | Some (accs, first, stop) \<Rightarrow>
          (case first of
             None \<Rightarrow> None
           | Some start \<Rightarrow>
               if trim (drop stop e) \<noteq> [] then None
               else if trim (take start e) = [] then None
               else Some (trim (take start e), accs)))"

fun split_commas :: "int \<Rightarrow> char option \<Rightarrow> string \<Rightarrow> string \<Rightarrow> string list" where
  "split_commas depth quote current [] = (if trim current = [] then [] else [current])"
| "split_commas depth (Some q) current (c # cs) =
     split_commas depth (if c = q then None else Some q) (current @ [c]) cs"
| "split_commas depth None current (c # cs) =
     (if c = dquote \<or> c = squote then split_commas depth (Some c) (current @ [c]) cs
      else if c = CHR ''('' \<or> c = CHR ''['' \<or> c = CHR ''{'' then
        split_commas (depth + 1) None (current @ [c]) cs
      else if c = CHR '')'' \<or> c = CHR '']'' \<or> c = CHR ''}'' then
        split_commas (depth - 1) None (current @ [c]) cs
      else if c = CHR '','' \<and> depth = 0 then current # split_commas depth None [] cs
      else split_commas depth None (current @ [c]) cs)"

definition split_top_level_commas :: "string \<Rightarrow> string list" where
  "split_top_level_commas s = split_commas 0 None [] s"

definition is_concat_expr :: "string \<Rightarrow> bool" where
  "is_concat_expr s \<longleftrightarrow> contains s (dquote # '' +'') \<or> contains s (squote # '' +'')"

definition trim_quotes :: "string \<Rightarrow> string" where
  "trim_quotes s = trim_matches (\<lambda>c. c = dquote \<or> c = backslash) s"

section \<open>The sections of eval_expression\<close>

definition cannot_evaluate :: "string \<Rightarrow> exec_error" where
  "cannot_evaluate expr = EvalError (''cannot evaluate: '' @ expr)"

text \<open>The unquoted expression and whether it was quoted.\<close>

definition eval_decode :: "(string \<Rightarrow> string option) \<Rightarrow> string \<Rightarrow> string \<times> bool" where
  "eval_decode jd trimmed =
     (case jd trimmed of
        Some s \<Rightarrow> (s, True)
      | None \<Rightarrow>
          if 2 \<le> length trimmed \<and>
             ((starts_with trimmed [dquote] \<and> ends_with trimmed [dquote]) \<or>
              (starts_with trimmed [squote] \<and> ends_with trimmed [squote])) \<and>
             \<not> is_concat_expr trimmed
          then (slice trimmed 1 (length trimmed - 1), True)
          else (trimmed, False))"

text \<open>The length of a range; the subtraction wraps in a release build.\<close>

definition range_length :: "i64 \<Rightarrow> i64 \<Rightarrow> i64 \<Rightarrow> i64" where
  "range_length start stop step = trunc_div (max (wrap_i64 (stop - start)) 0) step"

definition range_literal :: "string \<Rightarrow> i64 list \<Rightarrow> result" where
  "range_literal expr nums =
     (case nums of
        [stop] \<Rightarrow> Inr (VInt stop)
      | [start, stop] \<Rightarrow> Inr (VInt (wrap_i64 (stop - start)))
      | [start, stop, step] \<Rightarrow>
          if step > 0 then Inr (VInt (range_length start stop step)) else Inl (cannot_evaluate expr)
      | _ \<Rightarrow> Inl (cannot_evaluate expr))"

definition range_dynamic :: "string \<Rightarrow> i64 list \<Rightarrow> result" where
  "range_dynamic expr vals =
     (case vals of
        [stop] \<Rightarrow> Inr (VInt stop)
      | [start, stop] \<Rightarrow> Inr (VInt (wrap_i64 (stop - start)))
      | [start, stop, step] \<Rightarrow>
          if step > 0 then Inr (VInt (range_length start stop step))
          else Inl (EvalError ''range() step must be a positive integer'')
      | _ \<Rightarrow> Inl (cannot_evaluate expr))"

definition range_arg :: "(string \<Rightarrow> result) \<Rightarrow> string \<Rightarrow> exec_error + i64" where
  "range_arg rec a = bind_res (rec a) (\<lambda>v. case v of
       VInt i \<Rightarrow> Inr i
     | VFloat f \<Rightarrow> Inr (f64_to_i64 f)
     | v \<Rightarrow> Inl (EvalError (''range() arguments must be integers, got: '' @ type_name v)))"

definition call_args :: "nat \<Rightarrow> string \<Rightarrow> string option" where
  "call_args k expr = (case find_matching_bracket expr k of
       Some close \<Rightarrow> if close = length expr - 1 then Some (slice expr (Suc k) close) else None
     | None \<Rightarrow> None)"

definition eval_range :: "(string \<Rightarrow> result) \<Rightarrow> string \<Rightarrow> result option" where
  "eval_range rec expr =
     (if starts_with expr ''range('' then
        (case call_args 5 expr of
           None \<Rightarrow> None
         | Some args_str \<Rightarrow>
             (let args = filter (\<lambda>a. a \<noteq> []) (map trim (split_top_level_commas args_str)) in
              Some (case those (map parse_i64 args) of
                 Some nums \<Rightarrow> range_literal expr nums
               | None \<Rightarrow> bind_res (map_res (range_arg rec) args) (range_dynamic expr))))
      else None)"

definition len_value :: "tp_value \<Rightarrow> result" where
  "len_value v = (case v of
       VArray a \<Rightarrow> Inr (VInt (int (length a)))
     | VString s \<Rightarrow> Inr (VInt (int (char_count s)))
     | VObject m \<Rightarrow> Inr (VInt (int (length m)))
     | v \<Rightarrow> Inl (EvalError (''len() requires an array, string or object, got: '' @ type_name v)))"

definition eval_len :: "(string \<Rightarrow> result) \<Rightarrow> bool \<Rightarrow> string \<Rightarrow> result option" where
  "eval_len rec was_quoted expr =
     (if \<not> was_quoted \<and> starts_with expr ''len('' then
        (case call_args 3 expr of
           None \<Rightarrow> None
         | Some arg \<Rightarrow>
             if trim arg = [] then None else Some (bind_res (rec (trim arg)) len_value))
      else None)"

definition eval_constant :: "string \<Rightarrow> result option" where
  "eval_constant expr =
     (if expr = ''true'' \<or> expr = ''True'' then Some (Inr (VBool True))
      else if expr = ''false'' \<or> expr = ''False'' then Some (Inr (VBool False))
      else if expr = ''null'' \<or> expr = ''None'' then Some (Inr VNull)
      else None)"

definition dict_pair ::
  "(string \<Rightarrow> result) \<Rightarrow> string \<Rightarrow> string \<Rightarrow> tp_value smap \<Rightarrow> exec_error + tp_value smap" where
  "dict_pair rec expr pair m =
     (case split_once pair '':'' of
        None \<Rightarrow> Inl (cannot_evaluate expr)
      | Some (k, v) \<Rightarrow>
          (let key = trim_quotes (trim k) in
           if key = [] then Inl (cannot_evaluate expr)
           else bind_res (rec (trim v)) (\<lambda>x. Inr (upd key x m))))"

definition eval_dict :: "(string \<Rightarrow> result) \<Rightarrow> string \<Rightarrow> string \<Rightarrow> result option" where
  "eval_dict rec trimmed expr =
     (if starts_with trimmed ''{'' \<and> ends_with trimmed ''}'' then
        (let inner = slice trimmed 1 (length trimmed - 1) in
         Some (if trim inner = [] then Inr (VObject [])
               else bind_res (fold_res (dict_pair rec expr) (split_top_level_commas inner) [])
                 (\<lambda>m. Inr (VObject m))))
      else None)"

definition eval_not :: "(string \<Rightarrow> result) \<Rightarrow> string \<Rightarrow> result option" where
  "eval_not rec expr =
     (if starts_with expr ''not '' \<or> starts_with expr ''!'' then
        (let rest = (if starts_with expr ''not '' then drop 4 expr else drop 1 expr) in
         Some (bind_res (rec (trim rest)) (\<lambda>v. Inr (VBool (\<not> is_truthy v)))))
      else None)"

definition cmp_values :: "string \<Rightarrow> tp_value \<Rightarrow> tp_value \<Rightarrow> bool" where
  "cmp_values op lv rv =
     (if op = ''=='' then values_equal lv rv
      else if op = ''!='' then \<not> values_equal lv rv
      else if op = ''>'' then compare_values lv rv (\<lambda>a b. f64_less b a)
      else if op = ''<'' then compare_values lv rv (\<lambda>a b. f64_less a b)
      else if op = ''>='' then compare_values lv rv (\<lambda>a b. f64_less_eq b a)
      else if op = ''<='' then compare_values lv rv (\<lambda>a b. f64_less_eq a b)
      else False)"

definition cmp_ops :: "string list" where
  "cmp_ops = [''>='', ''<='', ''!='', ''=='', ''>'', ''<'']"

primrec eval_cmp :: "(string \<Rightarrow> result) \<Rightarrow> string \<Rightarrow> string list \<Rightarrow> result option" where
  "eval_cmp rec expr [] = None"
| "eval_cmp rec expr (op # ops) =
     (case find_str op expr of
        None \<Rightarrow> eval_cmp rec expr ops
      | Some pos \<Rightarrow>
          (let left = trim (take pos expr); right = trim (drop (pos + length op) expr) in
           if left \<noteq> [] \<and> right \<noteq> [] then
             Some (bind_res (rec left) (\<lambda>lv. bind_res (rec right) (\<lambda>rv.
               Inr (VBool (cmp_values op lv rv)))))
           else eval_cmp rec expr ops))"

definition eval_atom :: "tp_context \<Rightarrow> tp_value nmap \<Rightarrow> string \<Rightarrow> result option" where
  "eval_atom ctx outs expr =
     (case parse_i64 expr of
        Some n \<Rightarrow> Some (Inr (VInt n))
      | None \<Rightarrow>
     (case f64_parse expr of
        Some f \<Rightarrow> Some (Inr (VFloat f))
      | None \<Rightarrow>
     (let clean = (case strip_prefix expr ''$'' of Some s \<Rightarrow> s | None \<Rightarrow> expr) in
     (case ctx_get ctx clean of
        Some v \<Rightarrow> Some (Inr v)
      | None \<Rightarrow>
     (case parse_u32 clean of
        Some idx \<Rightarrow> (case map_of outs idx of Some v \<Rightarrow> Some (Inr v) | None \<Rightarrow> None)
      | None \<Rightarrow> None)))))"

definition resolve_numeric :: "(string \<Rightarrow> result) \<Rightarrow> tp_context \<Rightarrow> string \<Rightarrow> i64 option" where
  "resolve_numeric rec ctx key =
     (case parse_i64 key of
        Some n \<Rightarrow> Some n
      | None \<Rightarrow>
     (case Option.bind (ctx_get ctx key) as_f64 of
        Some f \<Rightarrow> Some (f64_to_i64 f)
      | None \<Rightarrow>
     (if contains key ''.'' \<or> contains key ''['' \<or> contains key ''('' then
        (case rec key of
           Inr v \<Rightarrow> map_option f64_to_i64 (as_f64 v)
         | Inl _ \<Rightarrow> None)
      else None)))"

definition arith_op :: "char \<Rightarrow> i64 \<Rightarrow> i64 \<Rightarrow> i64 option" where
  "arith_op op a b =
     (if op = CHR ''+'' then checked_i64 (a + b)
      else if op = CHR ''-'' then checked_i64 (a - b)
      else if op = CHR ''*'' then checked_i64 (a * b)
      else if b \<noteq> 0 then checked_i64 (trunc_div a b) else None)"

definition arith_ops :: string where
  "arith_ops = ''+-*/''"

primrec eval_arith ::
  "(string \<Rightarrow> result) \<Rightarrow> tp_context \<Rightarrow> string \<Rightarrow> char list \<Rightarrow> result option" where
  "eval_arith rec ctx expr [] = None"
| "eval_arith rec ctx expr (op # ops) =
     (case find_str [op] expr of
        None \<Rightarrow> eval_arith rec ctx expr ops
      | Some pos \<Rightarrow>
          if pos = 0 \<or> pos = length expr - 1 then eval_arith rec ctx expr ops
          else
            (case (resolve_numeric rec ctx (trim (take pos expr)),
                   resolve_numeric rec ctx (trim (drop (Suc pos) expr))) of
               (Some a, Some b) \<Rightarrow>
                 (case arith_op op a b of
                    Some r \<Rightarrow> Some (Inr (VInt r))
                  | None \<Rightarrow> eval_arith rec ctx expr ops)
             | _ \<Rightarrow> eval_arith rec ctx expr ops))"

definition unwrap_or_default :: "string option \<Rightarrow> string" where
  "unwrap_or_default s = (case s of Some x \<Rightarrow> x | None \<Rightarrow> [])"

definition eval_concat :: "(string \<Rightarrow> result) \<Rightarrow> string \<Rightarrow> result option" where
  "eval_concat rec expr =
     (case find_str ''+'' expr of
        None \<Rightarrow> None
      | Some pos \<Rightarrow>
          if 0 < pos \<and> pos < length expr - 1 then
            (case (rec (trim (take pos expr)), rec (trim (drop (Suc pos) expr))) of
               (Inr a, Inr b) \<Rightarrow>
                 if concat_part a \<noteq> None \<or> concat_part b \<noteq> None then
                   Some (Inr (VString (unwrap_or_default (concat_part a) @
                     unwrap_or_default (concat_part b))))
                 else None
             | _ \<Rightarrow> None)
          else None)"

text \<open>
  One accessor of a chain.  \<open>Inl r\<close> ends the chain with the result \<open>r\<close>: an error, or the
  text itself when the expression was quoted.
\<close>

definition quoted_fail :: "bool \<Rightarrow> string \<Rightarrow> string \<Rightarrow> result" where
  "quoted_fail was_quoted expr msg =
     (if was_quoted then Inr (VString expr) else Inl (EvalError msg))"

definition access_field :: "(string \<Rightarrow> result) \<Rightarrow> string \<Rightarrow> tp_value \<Rightarrow> result + tp_value" where
  "access_field fail name v =
     (case v of
        VObject m \<Rightarrow> (case map_of m name of Some x \<Rightarrow> Inr x | None \<Rightarrow> Inl (fail name))
      | VArray items \<Rightarrow>
          (case Option.bind (parse_usize name) (list_at items) of
             Some x \<Rightarrow> Inr x
           | None \<Rightarrow> Inl (fail name))
      | _ \<Rightarrow> Inl (fail name))"

definition access_index :: "(string \<Rightarrow> result) \<Rightarrow> tp_value \<Rightarrow> tp_value \<Rightarrow> result + tp_value" where
  "access_index fail v key =
     (case (v, key) of
        (VArray items, VInt i) \<Rightarrow>
          (let n = int (length items); idx = (if i < 0 then n + i else i) in
           if idx < 0 \<or> n \<le> idx then
             Inl (fail (''subscript: index '' @ show_int i @ '' out of bounds (len '' @ show_int n @ '')''))
           else Inr (items ! nat idx))
      | (VObject m, VString k) \<Rightarrow>
          (case map_of m k of
             Some x \<Rightarrow> Inr x
           | None \<Rightarrow> Inl (fail (''subscript: key '' @ [dquote] @ k @ [dquote] @ '' not found'')))
      | (VObject m, VInt k) \<Rightarrow>
          (case map_of m (show_int k) of
             Some x \<Rightarrow> Inr x
           | None \<Rightarrow> Inl (fail (''subscript: key '' @ [dquote] @ show_int k @ [dquote] @ '' not found'')))
      | (VArray _, VString k) \<Rightarrow>
          Inl (fail (''subscript: array cannot be indexed by string '' @ [dquote] @ k @ [dquote]))
      | (VNull, _) \<Rightarrow> Inl (fail ''subscript: cannot subscript null'')
      | (w, _) \<Rightarrow> Inl (fail (''subscript: cannot subscript value of type '' @ type_name w)))"

definition access_step ::
  "(string \<Rightarrow> result) \<Rightarrow> bool \<Rightarrow> string \<Rightarrow> accessor \<Rightarrow> tp_value \<Rightarrow> result + tp_value" where
  "access_step rec was_quoted expr acc v =
     (case acc of
        Field name \<Rightarrow>
          access_field (\<lambda>_. quoted_fail was_quoted expr (''cannot evaluate: '' @ expr)) name v
      | Index key_str \<Rightarrow>
          (case rec key_str of
             Inl e \<Rightarrow> Inl (Inl e)
           | Inr key \<Rightarrow> access_index (quoted_fail was_quoted expr) v key))"

definition eval_access :: "(string \<Rightarrow> result) \<Rightarrow> bool \<Rightarrow> string \<Rightarrow> result option" where
  "eval_access rec was_quoted expr =
     (case split_accessors expr of
        None \<Rightarrow> None
      | Some (base, accs) \<Rightarrow>
          Some (case rec base of
             Inl _ \<Rightarrow> quoted_fail was_quoted expr (''cannot evaluate: '' @ expr)
           | Inr v \<Rightarrow>
               (case fold_res (access_step rec was_quoted expr) accs v of
                  Inl r \<Rightarrow> r
                | Inr w \<Rightarrow> Inr w)))"

section \<open>The evaluator\<close>

text \<open>The sections in the order of the source; the first that applies decides.\<close>

primrec first_some :: "'a option list \<Rightarrow> 'a \<Rightarrow> 'a" where
  "first_some [] d = d"
| "first_some (x # xs) d = (case x of Some r \<Rightarrow> r | None \<Rightarrow> first_some xs d)"

definition eval_step ::
  "(string \<Rightarrow> string option) \<Rightarrow> tp_context \<Rightarrow> tp_value nmap \<Rightarrow> (string \<Rightarrow> result) \<Rightarrow> string \<Rightarrow> result" where
  "eval_step jd ctx outs rec e =
     (let trimmed = trim e;
          (expr, was_quoted) = eval_decode jd trimmed
      in if expr = [] then Inr VNull
         else first_some
           [eval_range rec expr,
            eval_len rec was_quoted expr,
            eval_constant expr,
            eval_dict rec trimmed expr,
            eval_not rec expr,
            eval_cmp rec expr cmp_ops,
            eval_atom ctx outs expr,
            eval_arith rec ctx expr arith_ops,
            eval_concat rec expr,
            eval_access rec was_quoted expr]
           (if was_quoted then Inr (VString expr) else Inl (cannot_evaluate expr)))"

primrec eval ::
  "(string \<Rightarrow> string option) \<Rightarrow> tp_context \<Rightarrow> tp_value nmap \<Rightarrow> nat \<Rightarrow> string \<Rightarrow> result" where
  "eval jd ctx outs 0 e = Inl OutOfFuel"
| "eval jd ctx outs (Suc k) e = eval_step jd ctx outs (eval jd ctx outs k) e"

definition eval_expression ::
  "(string \<Rightarrow> string option) \<Rightarrow> tp_context \<Rightarrow> tp_value nmap \<Rightarrow> string \<Rightarrow> result" where
  "eval_expression jd ctx outs e = eval jd ctx outs (Suc (length e)) e"

definition resolve_arg_value ::
  "(string \<Rightarrow> string option) \<Rightarrow> tp_context \<Rightarrow> tp_value nmap \<Rightarrow> string \<Rightarrow> tp_value" where
  "resolve_arg_value jd ctx outs value_str =
     (let s = trim value_str; clean = trim_quotes s;
          quoted = starts_with s [dquote] \<and> ends_with s [dquote];
          ev = eval_expression jd ctx outs s in
      if quoted \<and> \<not> is_concat_expr s then VString (trim_quotes s)
      else first_some
        [ctx_get ctx clean,
         (if is_concat_expr s then (case ev of Inr v \<Rightarrow> Some v | Inl _ \<Rightarrow> None) else None),
         (if quoted then Some (VString clean) else None),
         map_option VInt (parse_i64 s),
         map_option VFloat (f64_parse s),
         (if s = ''true'' then Some (VBool True) else None),
         (if s = ''false'' then Some (VBool False) else None),
         (if s = ''null'' then Some VNull else None),
         ctx_get ctx s,
         (case ev of Inr v \<Rightarrow> Some v | Inl _ \<Rightarrow> None)]
        (VString s))"

section \<open>Every recursive call is on a shorter string\<close>

lemma trim_less: "length s < n \<Longrightarrow> length (trim s) < n"
  using trim_length [of s] by simp

lemma split_commas_length:
  "x \<in> set (split_commas d q cur s) \<Longrightarrow> length x \<le> length cur + length s"
proof (induction d q cur s rule: split_commas.induct)
  case (1 d q cur)
  then show ?case by (simp split: if_splits)
next
  case (2 d q cur c cs)
  then show ?case by fastforce
next
  case (3 d cur c cs)
  have "length x \<le> length cur + length (c # cs)"
    if "length x \<le> length (cur @ [c]) + length cs \<or> x = cur \<or> length x \<le> length cs" using that by auto
  moreover have "length x \<le> length (cur @ [c]) + length cs \<or> x = cur \<or> length x \<le> length cs"
    using "3.IH" "3.prems" by (auto split: if_splits)
  ultimately show ?case by blast
qed

lemma split_top_level_commas_length: "x \<in> set (split_top_level_commas s) \<Longrightarrow> length x \<le> length s"
  using split_commas_length [of x 0 None "[]" s] by (simp add: split_top_level_commas_def)

lemma call_args_length: "call_args k e = Some a \<Longrightarrow> length a < length e"
proof -
  assume "call_args k e = Some a"
  then obtain c where c: "find_matching_bracket e k = Some c" "a = slice e (Suc k) c"
    by (auto simp: call_args_def split: option.splits if_splits)
  from find_matching_bracket_bounds [OF c(1)] slice_length(1) [of e "Suc k" c] show ?thesis
    unfolding c(2) by linarith
qed

lemma scan_accessors_length:
  assumes "scan_accessors e i d q accs first stop = Some (accs', first', stop')"
    and "\<forall>k. Index k \<in> set accs \<longrightarrow> length k < length e" "\<forall>j. first = Some j \<longrightarrow> j < length e"
  shows "(\<forall>k. Index k \<in> set accs' \<longrightarrow> length k < length e) \<and> (\<forall>j. first' = Some j \<longrightarrow> j < length e)"
  using assms
proof (induction e i d q accs first stop rule: scan_accessors.induct)
  case (1 e i d q accs first stop)
  have key: "length (slice e (Suc i) c) < length e" if "\<not> length e \<le> i" for c
    using slice_length(2) [of e "Suc i" c] that by simp
  show ?case
  proof (cases "length e \<le> i")
    case True
    with "1.prems" show ?thesis by (simp add: scan_accessors.simps [of e i])
  next
    case False
    note IH = "1.IH" [OF False]
    note prems = "1.prems"(1) [unfolded scan_accessors.simps [of e i]]
    show ?thesis
    proof (cases q)
      case (Some x)
      with prems False have "scan_accessors e (Suc i) d (if e ! i = x then None else q) accs first stop =
          Some (accs', first', stop')" by simp
      from IH(7) [OF Some this "1.prems"(2,3)] show ?thesis .
    next
      case None
      have fst: "\<forall>j. (if first = None then Some i else first) = Some j \<longrightarrow> j < length e"
        using "1.prems"(3) False by auto
      consider (quote) "e ! i = dquote \<or> e ! i = squote"
        | (index) "\<not> (e ! i = dquote \<or> e ! i = squote)" "e ! i = CHR ''['' \<and> d = 0 \<and> 0 < i"
        | (field) "\<not> (e ! i = dquote \<or> e ! i = squote)" "\<not> (e ! i = CHR ''['' \<and> d = 0 \<and> 0 < i)"
            "e ! i = CHR ''.'' \<and> d = 0 \<and> 0 < i \<and> Suc i < length e"
        | (other) "\<not> (e ! i = dquote \<or> e ! i = squote)" "\<not> (e ! i = CHR ''['' \<and> d = 0 \<and> 0 < i)"
            "\<not> (e ! i = CHR ''.'' \<and> d = 0 \<and> 0 < i \<and> Suc i < length e)" by blast
      then show ?thesis
      proof cases
        case quote
        with prems False None have "scan_accessors e (Suc i) d (Some (e ! i)) accs first stop =
            Some (accs', first', stop')" by simp
        from IH(1) [OF None quote this "1.prems"(2,3)] show ?thesis .
      next
        case index
        note eqs = prems [unfolded None option.case if_not_P [OF False] if_not_P [OF index(1)] if_P [OF index(2)]]
        from eqs obtain c where c: "find_matching_bracket e i = Some c" by (cases "find_matching_bracket e i") auto
        note eqs = eqs [unfolded c option.case]
        then have t: "trim (slice e (Suc i) c) \<noteq> []" by (auto split: if_splits)
        have k: "\<forall>k. Index k \<in> set (accs @ [Index (slice e (Suc i) c)]) \<longrightarrow> length k < length e"
          using "1.prems"(2) key [OF False] by auto
        from IH(2) [OF None index c t eqs [unfolded if_not_P [OF t]] k fst] show ?thesis .
      next
        case field
        let ?j = "field_end e (Suc i)"
        note eqs = prems [unfolded None option.case if_not_P [OF False] if_not_P [OF field(1)]
            if_not_P [OF field(2)] if_P [OF field(3)]]
        then have t: "trim (slice e (Suc i) ?j) \<noteq> []" by (auto split: if_splits)
        have k: "\<forall>k. Index k \<in> set (accs @ [Field (trim (slice e (Suc i) ?j))]) \<longrightarrow> length k < length e"
          using "1.prems"(2) by auto
        from IH(3) [OF None field t eqs [unfolded if_not_P [OF t]] k fst] show ?thesis .
      next
        case other
        note eqs = prems [unfolded None option.case if_not_P [OF False] if_not_P [OF other(1)]
            if_not_P [OF other(2)] if_not_P [OF other(3)]]
        show ?thesis
          using IH(4) [OF None other _ _ "1.prems"(2,3)] IH(5) [OF None other _ _ _ "1.prems"(2,3)]
            IH(6) [OF None other _ _ _ "1.prems"(2,3)] eqs by presburger
      qed
    qed
  qed
qed

lemma split_accessors_length:
  assumes "split_accessors e = Some (base, accs)"
  shows "length base < length e" "Index k \<in> set accs \<Longrightarrow> length k < length e"
proof -
  from assms obtain start stop where
    s: "scan_accessors e 0 0 None [] None 0 = Some (accs, Some start, stop)" "base = trim (take start e)"
    by (auto simp: split_accessors_def split: option.splits if_splits)
  from scan_accessors_length [OF s(1)] have "start < length e" "\<forall>k. Index k \<in> set accs \<longrightarrow> length k < length e"
    by auto
  with s(2) show "length base < length e" "Index k \<in> set accs \<Longrightarrow> length k < length e"
    by (auto intro: trim_less)
qed

lemma find_str_halves:
  assumes "find_str p e = Some i" "p \<noteq> []"
  shows "length (trim (take i e)) < length e" "length (trim (drop (i + length p) e)) < length e"
proof -
  from find_str_less [OF assms] have i: "i < length e" .
  then show "length (trim (take i e)) < length e" by (auto intro!: trim_less)
  from assms(2) have "0 < length p" by simp
  with i have "length e - (i + length p) < length e" by linarith
  then show "length (trim (drop (i + length p) e)) < length e" by (auto intro!: trim_less)
qed

lemma find_char_halves:
  assumes "find_str [c] e = Some i"
  shows "length (trim (take i e)) < length e" "length (trim (drop (Suc i) e)) < length e"
  using find_str_halves [OF assms] by simp_all

named_theorems eval_cong \<open>sections agree when the recursive calls agree\<close>

definition agree_below :: "nat \<Rightarrow> (string \<Rightarrow> result) \<Rightarrow> (string \<Rightarrow> result) \<Rightarrow> bool" where
  "agree_below n rec rec' \<longleftrightarrow> (\<forall>x. length x < n \<longrightarrow> rec x = rec' x)"

lemma agree_belowD: "agree_below n rec rec' \<Longrightarrow> length x < n \<Longrightarrow> rec x = rec' x"
  by (simp add: agree_below_def)

lemma eval_range_cong [eval_cong]:
  assumes "agree_below (length e) rec rec'"
  shows "eval_range rec e = eval_range rec' e"
proof (cases "call_args 5 e")
  case None
  then show ?thesis by (simp add: eval_range_def)
next
  case (Some a)
  have "rec x = rec' x" if "x \<in> set (map trim (split_top_level_commas a))" for x
  proof (rule agree_belowD [OF assms])
    from that obtain y where "y \<in> set (split_top_level_commas a)" "x = trim y" by auto
    with split_top_level_commas_length [of y a] trim_length [of y] call_args_length [OF Some]
    show "length x < length e" by simp
  qed
  then have "map_res (range_arg rec) (filter (\<lambda>a. a \<noteq> []) (map trim (split_top_level_commas a))) =
      map_res (range_arg rec') (filter (\<lambda>a. a \<noteq> []) (map trim (split_top_level_commas a)))"
    by (intro map_res_cong) (auto simp: range_arg_def)
  with Some show ?thesis by (simp add: eval_range_def Let_def split: option.split)
qed

lemma eval_len_cong [eval_cong]:
  assumes "agree_below (length e) rec rec'"
  shows "eval_len rec q e = eval_len rec' q e"
  using agree_belowD [OF assms trim_less [OF call_args_length]]
  by (simp add: eval_len_def split: option.splits)

lemma eval_dict_cong [eval_cong]:
  assumes "agree_below (length t) rec rec'"
  shows "eval_dict rec t e = eval_dict rec' t e"
proof (cases "starts_with t ''{'' \<and> ends_with t ''}''")
  case False
  then show ?thesis by (auto simp: eval_dict_def)
next
  case True
  let ?inner = "slice t 1 (length t - 1)"
  have "t \<noteq> []" using True by (auto simp: starts_with_def)
  then have i: "length ?inner < length t" using slice_length(2) [of t 1 "length t - 1"] by (cases t) auto
  have "fold_res (dict_pair rec e) (split_top_level_commas ?inner) [] =
      fold_res (dict_pair rec' e) (split_top_level_commas ?inner) []"
  proof (rule fold_res_cong)
    fix x and m :: "tp_value smap"
    assume "x \<in> set (split_top_level_commas ?inner)"
    with split_top_level_commas_length [of x ?inner] i have x: "length x < length t" by simp
    show "dict_pair rec e x m = dict_pair rec' e x m"
      using x agree_belowD [OF assms trim_less]
      by (auto simp: dict_pair_def split_once_def Let_def split: option.splits)
  qed
  then show ?thesis by (simp add: eval_dict_def Let_def)
qed

lemma eval_not_cong [eval_cong]:
  assumes "agree_below (length e) rec rec'"
  shows "eval_not rec e = eval_not rec' e"
proof (cases "e = []")
  case True
  then show ?thesis by (simp add: eval_not_def starts_with_def)
next
  case False
  then have "length (trim (drop 4 e)) < length e" "length (trim (drop 1 e)) < length e"
    by (auto intro!: trim_less)
  with agree_belowD [OF assms] show ?thesis by (simp add: eval_not_def Let_def)
qed

lemma eval_cmp_cong [eval_cong]:
  assumes "agree_below (length e) rec rec'" "[] \<notin> set ops"
  shows "eval_cmp rec e ops = eval_cmp rec' e ops"
  using assms(2)
proof (induction ops)
  case Nil
  then show ?case by simp
next
  case (Cons op ops)
  then have "op \<noteq> []" by auto
  with Cons agree_belowD [OF assms(1)] find_str_halves [of op e] show ?case
    by (simp add: Let_def split: option.splits)
qed

lemma resolve_numeric_cong:
  "rec key = rec' key \<Longrightarrow> resolve_numeric rec ctx key = resolve_numeric rec' ctx key"
  unfolding resolve_numeric_def by (erule ssubst) (rule refl)

lemma eval_arith_cong [eval_cong]:
  assumes "agree_below (length e) rec rec'"
  shows "eval_arith rec ctx e ops = eval_arith rec' ctx e ops"
proof (induction ops)
  case Nil
  then show ?case by simp
next
  case (Cons op ops)
  show ?case
  proof (cases "find_str [op] e")
    case None
    with Cons show ?thesis by simp
  next
    case (Some i)
    have "resolve_numeric rec ctx (trim (take i e)) = resolve_numeric rec' ctx (trim (take i e))"
      "resolve_numeric rec ctx (trim (drop (Suc i) e)) = resolve_numeric rec' ctx (trim (drop (Suc i) e))"
      using find_char_halves [OF Some] agree_belowD [OF assms] by (auto intro: resolve_numeric_cong)
    with Some Cons show ?thesis by (simp split: option.split)
  qed
qed

lemma eval_concat_cong [eval_cong]:
  assumes "agree_below (length e) rec rec'"
  shows "eval_concat rec e = eval_concat rec' e"
proof (cases "find_str ''+'' e")
  case None
  then show ?thesis by (simp add: eval_concat_def)
next
  case (Some i)
  with find_char_halves [OF Some] agree_belowD [OF assms] show ?thesis by (simp add: eval_concat_def)
qed

lemma eval_access_cong [eval_cong]:
  assumes "agree_below (length e) rec rec'"
  shows "eval_access rec q e = eval_access rec' q e"
proof (cases "split_accessors e")
  case None
  then show ?thesis by (simp add: eval_access_def)
next
  case (Some t)
  obtain base accs where t: "t = (base, accs)" by (cases t)
  note b = split_accessors_length [OF Some [unfolded t]]
  have "access_step rec q e acc v = access_step rec' q e acc v" if "acc \<in> set accs" for acc v
  proof (cases acc)
    case (Field f)
    then show ?thesis by (simp add: access_step_def)
  next
    case (Index k)
    with that b(2) have "length k < length e" by blast
    with Index agree_belowD [OF assms] show ?thesis by (simp add: access_step_def)
  qed
  then have "fold_res (access_step rec q e) accs v = fold_res (access_step rec' q e) accs v" for v
    by (rule fold_res_cong)
  with Some t agree_belowD [OF assms b(1)] show ?thesis
    by (cases "rec' base") (simp_all add: eval_access_def)
qed

text \<open>What the proofs use of the JSON string decoder.\<close>

definition json_strings_shrink :: "(string \<Rightarrow> string option) \<Rightarrow> bool" where
  "json_strings_shrink jd \<longleftrightarrow> (\<forall>s t. jd s = Some t \<longrightarrow> length t + 2 \<le> length s)"

lemma eval_decode_length:
  assumes "json_strings_shrink jd" "eval_decode jd t = (e, q)"
  shows "length e \<le> length t"
  using assms slice_length(2) [of t 1 "length t - 1"]
  by (force simp: eval_decode_def json_strings_shrink_def split: option.splits if_splits)

lemma agree_below_mono: "agree_below n rec rec' \<Longrightarrow> m \<le> n \<Longrightarrow> agree_below m rec rec'"
  by (simp add: agree_below_def)

lemma eval_step_cong:
  assumes "json_strings_shrink jd" "agree_below (length e) rec rec'"
  shows "eval_step jd ctx outs rec e = eval_step jd ctx outs rec' e"
proof -
  obtain x q where d: "eval_decode jd (trim e) = (x, q)" by (cases "eval_decode jd (trim e)")
  have t: "agree_below (length (trim e)) rec rec'"
    using assms(2) trim_length by (rule agree_below_mono)
  have x: "agree_below (length x) rec rec'"
    using t eval_decode_length [OF assms(1) d] by (rule agree_below_mono)
  have ops: "[] \<notin> set cmp_ops" by (simp add: cmp_ops_def)
  show ?thesis
    by (simp only: eval_step_def Let_def d prod.case
      eval_range_cong [OF x] eval_len_cong [OF x] eval_dict_cong [OF t] eval_not_cong [OF x]
      eval_cmp_cong [OF x ops] eval_arith_cong [OF x] eval_concat_cong [OF x] eval_access_cong [OF x])
qed

lemma eval_fuel_enough:
  assumes "json_strings_shrink jd"
  shows "length e < m \<Longrightarrow> length e < n \<Longrightarrow> eval jd ctx outs m e = eval jd ctx outs n e"
proof (induction m arbitrary: n e)
  case 0
  then show ?case by simp
next
  case (Suc m)
  from Suc.prems(2) obtain k where n: "n = Suc k" by (cases n) auto
  have "agree_below (length e) (eval jd ctx outs m) (eval jd ctx outs k)"
    unfolding agree_below_def using Suc.prems n by (auto intro: Suc.IH)
  with assms show ?case by (simp add: n eval_step_cong)
qed

lemma eval_expression_eq:
  "json_strings_shrink jd \<Longrightarrow> length e < n \<Longrightarrow> eval jd ctx outs n e = eval_expression jd ctx outs e"
  unfolding eval_expression_def by (rule eval_fuel_enough) simp_all

lemma eval_expression_rec:
  assumes "json_strings_shrink jd"
  shows "eval_expression jd ctx outs e = eval_step jd ctx outs (eval_expression jd ctx outs) e"
proof -
  have "agree_below (length e) (eval jd ctx outs (length e)) (eval_expression jd ctx outs)"
    using assms by (simp add: agree_below_def eval_expression_eq)
  with assms show ?thesis
    by (simp add: eval_expression_def [of jd ctx outs e] eval_step_cong)
qed

section \<open>Errors of the evaluator\<close>

text \<open>Every error of \<open>eval_expression\<close> is an \<open>EvalError\<close>.\<close>

definition err_ok :: "exec_error + 'a \<Rightarrow> bool" where
  "err_ok r \<longleftrightarrow> (case r of Inl e \<Rightarrow> (\<exists>m. e = EvalError m) | Inr _ \<Rightarrow> True)"

lemma err_ok_simps [simp]: "err_ok (Inr v)" "err_ok (Inl e) \<longleftrightarrow> (\<exists>m. e = EvalError m)"
  by (simp_all add: err_ok_def)

lemma err_ok_bind: "err_ok r \<Longrightarrow> (\<And>x. err_ok (f x)) \<Longrightarrow> err_ok (bind_res r f)"
  by (cases r) simp_all

lemma err_ok_map: "(\<And>x. err_ok (f x)) \<Longrightarrow> err_ok (map_res f xs)"
  by (induction xs) (auto intro!: err_ok_bind)

lemma err_ok_fold: "(\<And>x s. err_ok (f x s)) \<Longrightarrow> err_ok (fold_res f xs s)"
  by (induction xs arbitrary: s) (auto intro!: err_ok_bind)

lemma cannot_evaluate_eval_error [simp]: "\<exists>m. cannot_evaluate e = EvalError m"
  by (simp add: cannot_evaluate_def)

definition err_ok_opt :: "result option \<Rightarrow> bool" where
  "err_ok_opt r \<longleftrightarrow> (case r of None \<Rightarrow> True | Some x \<Rightarrow> err_ok x)"

lemma err_ok_opt_simps [simp]: "err_ok_opt None" "err_ok_opt (Some r) = err_ok r"
  by (simp_all add: err_ok_opt_def)

lemma err_ok_first: "\<forall>x \<in> set xs. err_ok_opt x \<Longrightarrow> err_ok d \<Longrightarrow> err_ok (first_some xs d)"
  by (induction xs) (auto split: option.split)

lemma err_ok_range: "(\<And>x. err_ok (rec x)) \<Longrightarrow> err_ok_opt (eval_range rec e)"
  by (auto simp: eval_range_def Let_def range_arg_def range_literal_def range_dynamic_def
      cannot_evaluate_def split: option.split list.split tp_value.split intro!: err_ok_bind err_ok_map)

lemma err_ok_len: "(\<And>x. err_ok (rec x)) \<Longrightarrow> err_ok_opt (eval_len rec q e)"
  by (auto simp: eval_len_def len_value_def split: option.split tp_value.split intro!: err_ok_bind)

lemma err_ok_constant: "err_ok_opt (eval_constant e)"
  by (simp add: eval_constant_def)

lemma err_ok_dict: "(\<And>x. err_ok (rec x)) \<Longrightarrow> err_ok_opt (eval_dict rec t e)"
  by (auto simp: eval_dict_def dict_pair_def Let_def split: option.split
      intro!: err_ok_bind err_ok_fold)

lemma err_ok_not: "(\<And>x. err_ok (rec x)) \<Longrightarrow> err_ok_opt (eval_not rec e)"
  by (auto simp: eval_not_def Let_def intro!: err_ok_bind)

lemma err_ok_cmp: "(\<And>x. err_ok (rec x)) \<Longrightarrow> err_ok_opt (eval_cmp rec e ops)"
  by (induction ops) (auto simp: Let_def split: option.split intro!: err_ok_bind)

lemma err_ok_atom: "err_ok_opt (eval_atom ctx outs e)"
  by (simp add: eval_atom_def Let_def split: option.split)

lemma err_ok_arith: "err_ok_opt (eval_arith rec ctx e ops)"
  by (induction ops) (auto split: option.split)

lemma err_ok_concat: "err_ok_opt (eval_concat rec e)"
  by (simp add: eval_concat_def split: option.split sum.split)

lemma err_ok_quoted_fail [simp]: "err_ok (quoted_fail q e m)"
  by (simp add: quoted_fail_def)

lemma access_field_err: "(\<And>n. err_ok (fail n)) \<Longrightarrow> access_field fail name v = Inl r \<Longrightarrow> err_ok r"
  by (auto simp: access_field_def split: tp_value.splits option.splits)

lemma access_index_err: "(\<And>n. err_ok (fail n)) \<Longrightarrow> access_index fail v key = Inl r \<Longrightarrow> err_ok r"
  by (cases v; cases key) (auto simp: access_index_def Let_def split: option.splits if_splits)

lemma access_step_err:
  assumes rec: "\<And>x. err_ok (rec x)" and r: "access_step rec q e acc v = Inl r"
  shows "err_ok r"
proof (cases acc)
  case (Field name)
  with r have "access_field (\<lambda>_. quoted_fail q e (''cannot evaluate: '' @ e)) name v = Inl r"
    by (simp add: access_step_def)
  then show ?thesis by (rule access_field_err [rotated]) (rule err_ok_quoted_fail)
next
  case (Index k)
  show ?thesis
  proof (cases "rec k")
    case (Inl e')
    with r Index rec [of k] show ?thesis by (auto simp: access_step_def)
  next
    case (Inr key)
    with r Index have "access_index (quoted_fail q e) v key = Inl r" by (simp add: access_step_def)
    then show ?thesis by (rule access_index_err [rotated]) (rule err_ok_quoted_fail)
  qed
qed

lemma fold_access_err:
  assumes rec: "\<And>x. err_ok (rec x)"
  shows "fold_res (access_step rec q e) accs v = Inl r \<Longrightarrow> err_ok r"
proof (induction accs arbitrary: v)
  case Nil
  then show ?case by simp
next
  case (Cons a accs)
  show ?case
  proof (cases "access_step rec q e a v")
    case (Inl r')
    with Cons.prems access_step_err [OF rec Inl] show ?thesis by simp
  next
    case (Inr w)
    with Cons.prems have "fold_res (access_step rec q e) accs w = Inl r" by simp
    then show ?thesis by (rule Cons.IH)
  qed
qed

lemma err_ok_access:
  assumes rec: "\<And>x. err_ok (rec x)"
  shows "err_ok_opt (eval_access rec q e)"
proof (cases "split_accessors e")
  case None
  then show ?thesis by (simp add: eval_access_def)
next
  case (Some t)
  obtain base accs where t: "t = (base, accs)" by (cases t)
  show ?thesis
  proof (cases "rec base")
    case (Inl e')
    with Some t show ?thesis by (simp add: eval_access_def)
  next
    case (Inr v)
    with Some t fold_access_err [where q = q and e = e and accs = accs and v = v, OF rec] show ?thesis
      by (cases "fold_res (access_step rec q e) accs v") (simp_all add: eval_access_def)
  qed
qed

lemma err_ok_step:
  assumes "\<And>x. err_ok (rec x)"
  shows "err_ok (eval_step jd ctx outs rec e)"
  by (auto simp: eval_step_def Let_def simp del: first_some.simps split: prod.split intro!: err_ok_first
      err_ok_range err_ok_len err_ok_constant err_ok_dict err_ok_not err_ok_cmp err_ok_atom
      err_ok_arith err_ok_concat err_ok_access assms)

lemma err_ok_eval:
  assumes "json_strings_shrink jd"
  shows "err_ok (eval_expression jd ctx outs e)"
proof (induction e rule: measure_induct_rule [of length])
  case (less e)
  define rec where "rec x = (if length x < length e then eval_expression jd ctx outs x else Inr VNull)" for x
  have "agree_below (length e) (eval_expression jd ctx outs) rec"
    by (simp add: agree_below_def rec_def)
  then have "eval_expression jd ctx outs e = eval_step jd ctx outs rec e"
    using assms by (subst eval_expression_rec [OF assms]) (rule eval_step_cong)
  moreover have "err_ok (rec x)" for x using less.IH by (simp add: rec_def)
  ultimately show ?case by (simp add: err_ok_step)
qed

section \<open>Evaluation on literals\<close>

lemma first_some_pick:
  "x = Some r \<Longrightarrow> first_some (x # xs) d = r"
  "x = None \<Longrightarrow> first_some (x # xs) d = first_some xs d"
  by auto

lemma first_some_block: "first_some xs d = first_some xs d" ..

lemmas eval_sections = eval_step_def eval_decode_def is_concat_expr_def eval_range_def eval_len_def
  eval_constant_def eval_dict_def eval_not_def cmp_ops_def eval_atom_def resolve_numeric_def
  arith_ops_def arith_op_def eval_concat_def eval_access_def call_args_def
  find_matching_bracket_def unwrap_or_default_def f64_parse_def f64_parse_number_def
  parse_exponent_def first_some_pick

text \<open>A decoder of JSON strings without escapes.\<close>

definition plain_json_string :: "string \<Rightarrow> string option" where
  "plain_json_string s =
     (let inner = slice s 1 (length s - 1) in
      if 2 \<le> length s \<and> starts_with s [dquote] \<and> ends_with s [dquote] \<and>
         dquote \<notin> set inner \<and> backslash \<notin> set inner
      then Some inner else None)"

lemma plain_json_string_shrinks: "json_strings_shrink plain_json_string"
proof -
  have "length (slice s 1 (length s - 1)) + 2 \<le> length s" if "2 \<le> length s" for s :: string
    using that slice_length(1) [of s 1 "length s - 1"] by linarith
  then show ?thesis by (auto simp: json_strings_shrink_def plain_json_string_def Let_def split: if_splits)
qed

section \<open>Properties of the evaluator\<close>

text \<open>C8: the evaluation of an expression always ends: with the fuel the model gives it, it satisfies the
  recursion of the source (every section calls the evaluator on a shorter text), provided the
  JSON decoder returns less than the quoted text it read.\<close>

theorem eval_expression_total:
  assumes "json_strings_shrink jd"
  shows "eval_expression jd ctx outs e = eval_step jd ctx outs (eval_expression jd ctx outs) e \<and>
    eval_expression jd ctx outs e \<noteq> Inl OutOfFuel"
  using eval_expression_rec [OF assms] err_ok_eval [OF assms, of ctx outs e]
  by (auto simp: err_ok_def)

theorem eval_expression_total_witness:
  "eval_expression plain_json_string context_new [] ''len(len(x))'' \<noteq> Inl OutOfFuel"
  using eval_expression_total [OF plain_json_string_shrinks] by blast

text \<open>whatever the expression, evaluation fails with an \<open>EvalError\<close> or not at all; and an argument
  that neither evaluates nor names a variable nor reads as a number, \<open>true\<close>, \<open>false\<close> or \<open>null\<close> is
  resolved to its own text, without its quotes when it is quoted: resolution never fails.\<close>

theorem eval_errors:
  assumes "json_strings_shrink jd"
  shows "(\<forall>err. eval_expression jd ctx outs e = Inl err \<longrightarrow> (\<exists>m. err = EvalError m)) \<and>
    (\<forall>err. eval_expression jd ctx outs (trim e) = Inl err \<and>
      ctx_get ctx (trim_quotes (trim e)) = None \<and> ctx_get ctx (trim e) = None \<and>
      parse_i64 (trim e) = None \<and> f64_parse (trim e) = None \<and>
      trim e \<notin> {''true'', ''false'', ''null''} \<longrightarrow>
      resolve_arg_value jd ctx outs e =
        VString (if starts_with (trim e) [dquote] \<and> ends_with (trim e) [dquote]
          then trim_quotes (trim e) else trim e))"
  using err_ok_eval [OF assms, of ctx outs e] by (auto simp: err_ok_def resolve_arg_value_def Let_def)

theorem eval_errors_witness:
  "resolve_arg_value plain_json_string context_new [] ''a,b'' = VString ''a,b'' \<or>
   is_ok (eval_expression plain_json_string context_new [] ''a,b'')"
proof (cases "eval_expression plain_json_string context_new [] (trim ''a,b'')")
  case (Inl err)
  have "\<And>k. ctx_get context_new k = None"
    by (simp add: context_new_def ctx_get_def active_value_def parent_value_def)
  moreover have "trim ''a,b'' = ''a,b''" "parse_i64 ''a,b'' = None" "f64_parse ''a,b'' = None"
    "\<not> starts_with ''a,b'' [dquote]"
    by (simp_all add: string_eval f64_parse_def f64_parse_number_def parse_exponent_def)
  ultimately show ?thesis
    using eval_errors [OF plain_json_string_shrinks, of context_new "[]" "''a,b''"] Inl by simp
next
  case (Inr v)
  then show ?thesis by (simp add: string_eval)
qed

end
