(* ===== verification/Executor.thy ===== *)
theory Executor
  imports Eval Graphs
begin

text \<open>
  The interpreter \<open>CompiledExecutor\<close> (\<open>tinypipe-vm/src/compiled_executor.rs\<close>): \<open>run_node\<close>
  with one definition per opcode arm, \<open>run_loop\<close>, \<open>propagate_edges\<close> and the gating checks.

  The mutable locals that \<open>execute_with\<close> threads through \<open>run_node\<close> are the record \<open>xst\<close>;
  the executor itself (plan, registry, and the per-run constants \<open>order\<close> and
  \<open>loop_bodies\<close>) is the record \<open>executor\<close>.

  The outside world is the record \<open>world\<close>.  An answer of the registry or of the clock may
  differ from moment to moment: it is a function of the node being executed and of the
  counter of executed nodes at that time, a pair that does not repeat within a run.

  \<open>PARALLEL\<close> runs one thread per branch.  A thread works on copies of the state and the
  copies are merged in the order of the branch numbers after all threads joined, so the
  threads are modelled one after the other.  A thread may itself meet a \<open>PARALLEL\<close> node;
  the recursion carries fuel, and \<open>run_node_fuel\<close> shows the number of nodes to be enough.
\<close>

section \<open>The world\<close>

type_synonym moment = "u32 \<times> u32"

record world =
  w_json_string :: "string \<Rightarrow> string option"
  w_json_value :: "string \<Rightarrow> json option"
  w_value_bytes :: "tp_value \<Rightarrow> nat"
  w_elapsed :: "moment \<Rightarrow> nat"
  w_dispatch :: "moment \<Rightarrow> string \<Rightarrow> tp_value smap \<Rightarrow> tp_context \<Rightarrow> string + tp_value"
  w_subgraph :: "moment \<Rightarrow> string \<Rightarrow> tp_context \<Rightarrow> string + tp_context \<times> tp_value"
  w_schema_hash :: "moment \<Rightarrow> string \<Rightarrow> string + string"
  w_in_flight :: "moment \<Rightarrow> u32"

record executor =
  e_plan :: compiled_plan
  e_world :: world
  e_order :: "u32 list"
  e_bodies :: "u32 set nmap"

record xst =
  x_ctx :: "tp_context"
  x_outs :: "tp_value nmap"
  x_order :: "string list"
  x_enabled :: "u32 set"
  x_control :: "u32 list"
  x_skipped :: "u32 set"
  x_count :: u32
  x_output :: "tp_value option"

type_synonym step = "exec_error + xst"

text \<open>\<open>PausePolicy\<close> and \<open>LoopState\<close> (\<open>pause.rs\<close>).\<close>

record pause_policy =
  pp_max_nodes :: "u32 option"
  pp_node_ids :: "string list option"

definition pause_policy_default :: pause_policy where
  "pause_policy_default = \<lparr>pp_max_nodes = None, pp_node_ids = None\<rparr>"

definition should_pause :: "pause_policy \<Rightarrow> u32 \<Rightarrow> string \<Rightarrow> bool" where
  "should_pause p count nid \<longleftrightarrow>
     (case pp_max_nodes p of Some m \<Rightarrow> m \<le> count | None \<Rightarrow> False) \<or>
     (case pp_node_ids p of Some ids \<Rightarrow> nid \<in> set ids | None \<Rightarrow> False)"

record loop_state =
  ls_loop :: u32
  ls_iteration :: u32
  ls_body_position :: nat

datatype node_outcome = NodeOk | NodePaused loop_state

section \<open>Helpers of the arms\<close>

definition find_arg :: "compiled_node \<Rightarrow> string \<Rightarrow> string option" where
  "find_arg n k = map_option ca_value (find (\<lambda>a. ca_key a = k) (cn_args n))"

definition find_arg2 :: "compiled_node \<Rightarrow> string \<Rightarrow> string \<Rightarrow> string option" where
  "find_arg2 n k k' = map_option ca_value (find (\<lambda>a. ca_key a = k \<or> ca_key a = k') (cn_args n))"

definition eval_in :: "executor \<Rightarrow> xst \<Rightarrow> string \<Rightarrow> result" where
  "eval_in ex st e = eval_expression (w_json_string (e_world ex)) (x_ctx st) (x_outs st) e"

definition resolve_in :: "executor \<Rightarrow> xst \<Rightarrow> string \<Rightarrow> tp_value" where
  "resolve_in ex st s = resolve_arg_value (w_json_string (e_world ex)) (x_ctx st) (x_outs st) s"

definition set_out :: "u32 \<Rightarrow> tp_value \<Rightarrow> xst \<Rightarrow> xst" where
  "set_out i v st = st\<lparr>x_outs := upd i v (x_outs st)\<rparr>"

definition set_var :: "string \<Rightarrow> tp_value \<Rightarrow> xst \<Rightarrow> xst" where
  "set_var k v st = st\<lparr>x_ctx := ctx_set k v (x_ctx st)\<rparr>"

definition set_var_opt :: "string option \<Rightarrow> tp_value \<Rightarrow> xst \<Rightarrow> xst" where
  "set_var_opt k v st = (case k of Some name \<Rightarrow> set_var name v st | None \<Rightarrow> st)"

definition enable :: "u32 \<Rightarrow> xst \<Rightarrow> xst" where
  "enable i st = st\<lparr>x_enabled := insert i (x_enabled st)\<rparr>"

definition satisfy_control :: "u32 \<Rightarrow> xst \<Rightarrow> xst" where
  "satisfy_control i st =
     (if i < length (x_control st)
      then st\<lparr>x_control := (x_control st)[i := u32_add (x_control st ! i) 1]\<rparr> else st)"

definition apply_mapping :: "(string \<times> string) list option \<Rightarrow> xst \<Rightarrow> xst" where
  "apply_mapping m st =
     (case m of
        None \<Rightarrow> st
      | Some ps \<Rightarrow> fold (\<lambda>(from_key, to_key) st.
          case ctx_get (x_ctx st) from_key of
            Some v \<Rightarrow> set_var to_key v st | None \<Rightarrow> st) ps st)"

section \<open>Gating\<close>

definition control_pred_count :: "compiled_plan \<Rightarrow> u32 list" where
  "control_pred_count p = fold (\<lambda>e cs.
       if ce_kind e = EControl \<and> ce_to e < length cs
       then cs[ce_to e := u32_add (cs ! ce_to e) 1] else cs)
     (cp_edges p) (replicate (length (cp_nodes p)) 0)"

definition bool_condition :: "compiled_edge \<Rightarrow> bool" where
  "bool_condition e = (case ce_condition e of
       Some c \<Rightarrow> eq_ignore_ascii_case c ''true'' \<or> eq_ignore_ascii_case c ''false''
     | None \<Rightarrow> False)"

definition wants_true :: "compiled_edge \<Rightarrow> bool" where
  "wants_true e = (case ce_condition e of
       Some c \<Rightarrow> eq_ignore_ascii_case c ''true'' | None \<Rightarrow> False)"

text \<open>A data edge from a \<open>DECIDE\<close> whose decision differs from the edge's condition.\<close>

definition decide_edge :: "compiled_plan \<Rightarrow> compiled_edge \<Rightarrow> bool" where
  "decide_edge p e \<longleftrightarrow> ce_kind e = EData \<and> op_at p (ce_from e) = Some Decide \<and> bool_condition e"

definition edge_mismatch :: "compiled_plan \<Rightarrow> tp_value nmap \<Rightarrow> compiled_edge \<Rightarrow> bool" where
  "edge_mismatch p outs e \<longleftrightarrow> decide_edge p e \<and>
     (case map_of outs (ce_from e) of Some (VBool b) \<Rightarrow> b \<noteq> wants_true e | _ \<Rightarrow> True)"

definition branch_mismatch :: "compiled_plan \<Rightarrow> tp_value nmap \<Rightarrow> opcode \<Rightarrow> u32 \<Rightarrow> bool" where
  "branch_mismatch p outs op i \<longleftrightarrow>
     (op = Merge \<longrightarrow> \<not> (\<exists>e \<in> set (cp_edges p). ce_to e = i \<and> ce_kind e = EData \<and>
        ce_condition e = None \<and> map_of outs (ce_from e) \<noteq> None)) \<and>
     (\<exists>e \<in> set (cp_edges p). ce_to e = i \<and> edge_mismatch p outs e)"

definition is_branch_dead :: "compiled_plan \<Rightarrow> tp_value nmap \<Rightarrow> u32 \<Rightarrow> bool" where
  "is_branch_dead p outs i \<longleftrightarrow>
     (\<exists>e \<in> set (cp_edges p). ce_to e = i \<and> decide_edge p e \<and>
        (case map_of outs (ce_from e) of Some (VBool b) \<Rightarrow> b \<noteq> wants_true e | _ \<Rightarrow> False))"

definition control_pending :: "compiled_plan \<Rightarrow> xst \<Rightarrow> u32 \<Rightarrow> bool" where
  "control_pending p st i \<longleftrightarrow>
     i < length (cp_nodes p) \<and> x_control st ! i < control_pred_count p ! i"

definition in_some_body :: "executor \<Rightarrow> u32 \<Rightarrow> bool" where
  "in_some_body ex i \<longleftrightarrow> (\<exists>b \<in> set (e_bodies ex). i \<in> snd b)"

definition data_pred_missing :: "executor \<Rightarrow> xst \<Rightarrow> u32 \<Rightarrow> bool" where
  "data_pred_missing ex st i \<longleftrightarrow>
     (\<exists>e \<in> set (cp_edges (e_plan ex)). ce_to e = i \<and> ce_kind e = EData \<and>
        map_of (x_outs st) (ce_from e) = None \<and>
        op_at (e_plan ex) (ce_from e) \<noteq> Some Input \<and>
        \<not> in_some_body ex (ce_from e) \<and>
        \<not> is_branch_dead (e_plan ex) (x_outs st) (ce_from e))"

text \<open>The node is passed over: inside a loop body, not enabled, or deferred by a gate.\<close>

definition skipped :: "executor \<Rightarrow> compiled_node \<Rightarrow> xst \<Rightarrow> bool" where
  "skipped ex n st \<longleftrightarrow>
     cn_index n \<in> x_skipped st \<or>
     cn_index n \<notin> x_enabled st \<or>
     branch_mismatch (e_plan ex) (x_outs st) (cn_op n) (cn_index n) \<or>
     control_pending (e_plan ex) st (cn_index n) \<or>
     data_pred_missing ex st (cn_index n)"

section \<open>Budgets\<close>

definition time_limit_us :: "compiled_plan \<Rightarrow> nat" where
  "time_limit_us p = cm_max_execution_time_ms (cp_metadata p) * 1000"

definition node_budget :: "compiled_plan \<Rightarrow> u32" where
  "node_budget p = cm_max_node_execution_count (cp_metadata p)"

definition mem_limit :: "compiled_plan \<Rightarrow> nat" where
  "mem_limit p = cm_max_context_memory_bytes (cp_metadata p)"

definition charge :: "executor \<Rightarrow> u32 \<Rightarrow> xst \<Rightarrow> step" where
  "charge ex i st =
     (let p = e_plan ex; c = u32_add (x_count st) 1 in
      if w_elapsed (e_world ex) (i, c) > time_limit_us p then
        Inl (TimeLimitExceeded (time_limit_us p div 1000))
      else if c > node_budget p then Inl (NodeBudgetExceeded c (node_budget p))
      else Inr (st\<lparr>x_count := c\<rparr>))"

definition check_memory :: "executor \<Rightarrow> xst \<Rightarrow> step" where
  "check_memory ex st =
     (let b = estimated_bytes (w_value_bytes (e_world ex)) (x_ctx st); m = mem_limit (e_plan ex) in
      if b > m then Inl (MemoryLimitExceeded m b) else Inr st)"

text \<open>Recording the node and switching to the scope of its branch.\<close>

definition enter_node :: "compiled_node \<Rightarrow> xst \<Rightarrow> xst" where
  "enter_node n st = st\<lparr>x_order := x_order st @ [cn_id n],
     x_ctx := (case cn_branch n of Some b \<Rightarrow> set_branch b (x_ctx st) | None \<Rightarrow> clear_branch (x_ctx st))\<rparr>"

section \<open>Edge propagation\<close>

definition edge_enables :: "executor \<Rightarrow> u32 \<Rightarrow> xst \<Rightarrow> compiled_edge \<Rightarrow> exec_error + bool" where
  "edge_enables ex i st e =
     (case ce_condition e of
        None \<Rightarrow> Inr True
      | Some c \<Rightarrow>
          (case (op_at (e_plan ex) i = Some Decide \<and> (c = ''true'' \<or> c = ''false''),
                 map_of (x_outs st) i) of
             (True, Some (VBool b)) \<Rightarrow> Inr (b = (c = ''true''))
           | _ \<Rightarrow> bind_res (eval_in ex st c) (\<lambda>v. Inr (is_truthy v))))"

definition propagate_edge :: "executor \<Rightarrow> u32 \<Rightarrow> compiled_edge \<Rightarrow> xst \<Rightarrow> step" where
  "propagate_edge ex i e st =
     (if ce_from e \<noteq> i then Inr st
      else if ce_kind e = EControl then Inr (enable (ce_to e) (satisfy_control (ce_to e) st))
      else bind_res (edge_enables ex i st e) (\<lambda>yes.
        if yes then Inr (enable (ce_to e) (apply_mapping (ce_mapping e) st)) else Inr st))"

definition propagate_edges :: "executor \<Rightarrow> compiled_node \<Rightarrow> xst \<Rightarrow> step" where
  "propagate_edges ex n st =
     (if cn_op n = Switch \<or> cn_op n = Loop \<or> cn_op n = Parallel then Inr st
      else fold_res (propagate_edge ex (cn_index n)) (cp_edges (e_plan ex)) st)"

section \<open>The arms of run_node\<close>

definition unwrap_or :: "string option \<Rightarrow> string \<Rightarrow> string" where
  "unwrap_or s d = (case s of Some x \<Rightarrow> x | None \<Rightarrow> d)"

definition input_name :: "compiled_node \<Rightarrow> string" where
  "input_name n = unwrap_or (map_option trim_quotes (find_arg n ''name'')) (cn_id n)"

definition run_input :: "executor \<Rightarrow> compiled_node \<Rightarrow> xst \<Rightarrow> step" where
  "run_input ex n st =
     propagate_edges ex n
       (case ctx_get (x_ctx st) (input_name n) of
          Some v \<Rightarrow> set_out (cn_index n) v st
        | None \<Rightarrow>
            (case find_arg n ''default'' of
               Some d \<Rightarrow> set_out (cn_index n) (parse_json_value (w_json_value (e_world ex)) d) st
             | None \<Rightarrow> st))"

text \<open>\<open>CALC\<close> up to the propagation of edges, as the main pass and loop bodies share it.\<close>

definition calc_value :: "executor \<Rightarrow> compiled_node \<Rightarrow> xst \<Rightarrow> step" where
  "calc_value ex n st =
     bind_res (eval_in ex st (unwrap_or (find_arg n ''expr'') (cn_id n))) (\<lambda>r.
       let st' = set_out (cn_index n) r st in
       case map_option trim_quotes (find_arg n ''output'') of
         Some var \<Rightarrow> Inr (if var \<noteq> [] then set_var var r st' else st')
       | None \<Rightarrow> Inr st')"

definition run_calc :: "executor \<Rightarrow> compiled_node \<Rightarrow> xst \<Rightarrow> step" where
  "run_calc ex n st = bind_res (calc_value ex n st) (propagate_edges ex n)"

definition call_target :: "compiled_node \<Rightarrow> string" where
  "call_target n = unwrap_or (map_option trim_quotes (find_arg n ''target'')) ''unknown''"

definition output_var :: "compiled_node \<Rightarrow> string option" where
  "output_var n = map_option trim_quotes (find_arg n ''output'')"

definition call_params :: "executor \<Rightarrow> string list \<Rightarrow> compiled_node \<Rightarrow> xst \<Rightarrow> tp_value smap" where
  "call_params ex reserved n st =
     fold (\<lambda>a m. if ca_key a \<in> set reserved then m else upd (ca_key a) (resolve_in ex st (ca_value a)) m)
       (cn_args n) []"

definition subgraph_call ::
  "executor \<Rightarrow> compiled_node \<Rightarrow> string \<Rightarrow> tp_value smap \<Rightarrow> xst \<Rightarrow> step" where
  "subgraph_call ex n name params st =
     (let input = fold (\<lambda>(k, v). ctx_set k v) params (x_ctx st);
          m = (cn_index n, x_count st)
      in if cm_max_recursion_depth (cp_metadata (e_plan ex)) \<le> w_in_flight (e_world ex) m
         then Inl (RecursionLimitExceeded name)
         else case w_subgraph (e_world ex) m name input of
           Inl e \<Rightarrow> Inl (CallFailed name e)
         | Inr (c, out) \<Rightarrow>
             Inr (set_out (cn_index n) out
               (set_var_opt (output_var n) out
                 (st\<lparr>x_ctx := fold (\<lambda>(k, v). ctx_set k v) (variables c) (x_ctx st)\<rparr>))))"

definition schema_drift :: "executor \<Rightarrow> compiled_node \<Rightarrow> string \<Rightarrow> xst \<Rightarrow> exec_error option" where
  "schema_drift ex n target st =
     (if starts_with target ''rpc:'' then None
      else
        (let tool = trim_start_matches ''tool:'' target in
         case find (\<lambda>d. dep_name d = tool \<and> dep_schema_hash d \<noteq> [])
             (cm_tool_deps (cp_metadata (e_plan ex))) of
           None \<Rightarrow> None
         | Some d \<Rightarrow>
             (let latest = (case w_schema_hash (e_world ex) (cn_index n, x_count st) tool of
                  Inr h \<Rightarrow> h | Inl _ \<Rightarrow> []) in
              if latest \<noteq> [] \<and> dep_schema_hash d \<noteq> latest
              then Some (SchemaDriftDetected tool (dep_schema_hash d) latest) else None)))"

text \<open>The value that replaces a failed call, when \<open>on_error\<close> asks for one.\<close>

definition on_error_value :: "executor \<Rightarrow> compiled_node \<Rightarrow> tp_value option" where
  "on_error_value ex n =
     (let on_error = unwrap_or (map_option trim_quotes (find_arg n ''on_error'')) ''abort'' in
      if on_error = ''continue_with_null'' then Some VNull
      else if on_error = ''continue_with_fallback'' then
        Some (case find_arg n ''fallback_value'' of
            Some fb \<Rightarrow> parse_json_value (w_json_value (e_world ex)) fb | None \<Rightarrow> VNull)
      else None)"

definition dispatch_call ::
  "executor \<Rightarrow> compiled_node \<Rightarrow> string \<Rightarrow> tp_value smap \<Rightarrow> tp_value option \<Rightarrow> xst \<Rightarrow> step" where
  "dispatch_call ex n target params fallback st =
     (case w_dispatch (e_world ex) (cn_index n, x_count st) target params (x_ctx st) of
        Inr v \<Rightarrow> Inr (set_out (cn_index n) v (set_var_opt (output_var n) v st))
      | Inl e \<Rightarrow>
          (case fallback of
             Some v \<Rightarrow> Inr (set_out (cn_index n) v (set_var_opt (output_var n) v st))
           | None \<Rightarrow> Inl (CallFailed target e)))"

definition run_call :: "executor \<Rightarrow> compiled_node \<Rightarrow> xst \<Rightarrow> step" where
  "run_call ex n st =
     (let target = call_target n;
          params = call_params ex [''target'', ''output'', ''on_error'', ''fallback_value''] n st
      in bind_res
        (if starts_with target ''subgraph:'' then
           subgraph_call ex n (trim_start_matches ''subgraph:'' target) params st
         else case schema_drift ex n target st of
           Some err \<Rightarrow> Inl err
         | None \<Rightarrow> dispatch_call ex n target params (on_error_value ex n) st)
        (propagate_edges ex n))"

definition condition_arg :: "compiled_node \<Rightarrow> string option" where
  "condition_arg n = map_option trim_quotes (find_arg n ''condition'')"

definition run_decide :: "executor \<Rightarrow> compiled_node \<Rightarrow> xst \<Rightarrow> step" where
  "run_decide ex n st =
     (let decision = (case condition_arg n of
            Some c \<Rightarrow> (case eval_in ex st c of Inr v \<Rightarrow> is_truthy v | Inl _ \<Rightarrow> False)
          | None \<Rightarrow> False)
      in propagate_edges ex n (set_out (cn_index n) (VBool decision) st))"

definition action_type :: "compiled_node \<Rightarrow> string" where
  "action_type n = unwrap_or (map_option trim_quotes (find_arg2 n ''type'' ''action_type'')) []"

definition act_marker :: "string \<Rightarrow> tp_value" where
  "act_marker t = VString (''[ACT:'' @ t @ '']'')"

text \<open>
  The value at the last unconditional data edge into the node whose source has one, and if
  there is none the last data edge at all.
\<close>

definition pred_values :: "compiled_plan \<Rightarrow> tp_value nmap \<Rightarrow> (compiled_edge \<Rightarrow> bool) \<Rightarrow> tp_value list" where
  "pred_values p outs P = List.map_filter (\<lambda>e. if P e then map_of outs (ce_from e) else None) (cp_edges p)"

definition pred_value :: "compiled_plan \<Rightarrow> tp_value nmap \<Rightarrow> u32 \<Rightarrow> tp_value option" where
  "pred_value p outs i =
     (case last_opt (pred_values p outs
             (\<lambda>e. ce_to e = i \<and> ce_kind e = EData \<and> ce_condition e = None)) of
        Some v \<Rightarrow> Some v
      | None \<Rightarrow> last_opt (pred_values p outs (\<lambda>e. ce_to e = i \<and> ce_kind e = EData)))"

definition return_value :: "executor \<Rightarrow> compiled_node \<Rightarrow> xst \<Rightarrow> tp_value option" where
  "return_value ex n st =
     (case find_arg2 n ''content'' ''value'' of
        Some a \<Rightarrow> Some (resolve_in ex st a)
      | None \<Rightarrow> pred_value (e_plan ex) (x_outs st) (cn_index n))"

definition run_act :: "executor \<Rightarrow> compiled_node \<Rightarrow> xst \<Rightarrow> step" where
  "run_act ex n st =
     (let st1 = set_out (cn_index n) (act_marker (action_type n)) st in
      propagate_edges ex n
        (if action_type n = ''return'' then
           (let v = (case return_value ex n st1 of
                 Some v \<Rightarrow> v | None \<Rightarrow> VObject (all_variables (x_ctx st1)))
            in set_out (cn_index n) v (st1\<lparr>x_output := Some v\<rparr>))
         else st1))"

text \<open>\<open>matched\<close> is carried along the outgoing edges of a \<open>SWITCH\<close>.\<close>

definition switch_edge :: "string \<Rightarrow> compiled_edge \<Rightarrow> bool \<times> xst \<Rightarrow> bool \<times> xst" where
  "switch_edge source e t =
     (let (matched, st) = t; taken = enable (ce_to e) (apply_mapping (ce_mapping e) st) in
      case ce_condition e of
        Some c \<Rightarrow>
          if c = source then (True, taken)
          else if c = ''default'' \<and> \<not> matched then (matched, taken)
          else (matched, st)
      | None \<Rightarrow> if \<not> matched then (matched, taken) else (matched, st))"

definition run_switch :: "executor \<Rightarrow> compiled_node \<Rightarrow> xst \<Rightarrow> step" where
  "run_switch ex n st =
     (let source = (case find_arg n ''source'' of
            Some a \<Rightarrow> format_value (resolve_in ex st a) | None \<Rightarrow> format_value VNull);
          (_, st') = fold (switch_edge source) (edges_from (e_plan ex) (cn_index n)) (False, st)
      in Inr (set_out (cn_index n) (VString source) st'))"

definition run_wait :: "executor \<Rightarrow> compiled_node \<Rightarrow> xst \<Rightarrow> step" where
  "run_wait ex n st =
     (let secs = (case find_arg n ''duration_secs'' of
            Some a \<Rightarrow> (case parse_i64 a of Some s \<Rightarrow> s | None \<Rightarrow> 0) | None \<Rightarrow> 0)
      in if secs > 300 then
           Inl (Custom (''WAIT duration '' @ show_int secs @ ''s exceeds v1 maximum of 300s''))
         else propagate_edges ex n (set_out (cn_index n) VNull st))"

definition run_merge :: "executor \<Rightarrow> compiled_node \<Rightarrow> xst \<Rightarrow> step" where
  "run_merge ex n st =
     (let st' = st\<lparr>x_ctx := merge_branches (x_ctx st)\<rparr> in
      propagate_edges ex n (set_out (cn_index n) (VObject (variables (x_ctx st'))) st'))"

definition run_error :: "compiled_node \<Rightarrow> exec_error" where
  "run_error n =
     Custom (unwrap_or (map_option trim_quotes (find_arg n ''message'')) ''execution error'')"

section \<open>Loops\<close>

definition loop_max_iterations :: "compiled_node \<Rightarrow> u32" where
  "loop_max_iterations n =
     (case find_arg n ''max_iterations'' of
        Some a \<Rightarrow> (case parse_u32 a of Some k \<Rightarrow> k | None \<Rightarrow> 100)
      | None \<Rightarrow> 100)"

text \<open>The bound an incoming data edge carries: the first one whose source holds an integer.\<close>

definition loop_bound_value :: "compiled_plan \<Rightarrow> tp_value nmap \<Rightarrow> u32 \<Rightarrow> compiled_edge \<Rightarrow> i64 option" where
  "loop_bound_value p outs i e =
     (if ce_to e = i \<and> ce_kind e = EData \<and> op_at p (ce_from e) \<noteq> Some Input then
        (case map_of outs (ce_from e) of Some (VInt b) \<Rightarrow> Some b | _ \<Rightarrow> None)
      else None)"

definition loop_iterations :: "compiled_plan \<Rightarrow> tp_value nmap \<Rightarrow> compiled_node \<Rightarrow> u32" where
  "loop_iterations p outs n =
     (case List.map_filter (loop_bound_value p outs (cn_index n)) (cp_edges p) of
        b # _ \<Rightarrow> i64_as_u32 (max b 0)
      | [] \<Rightarrow> loop_max_iterations n)"

datatype body_flow = FNext | FNoPause | FBreak | FSkipRest

text \<open>A node of a loop body: the arms \<open>run_loop\<close> repeats; other opcodes only store null.\<close>

definition body_act :: "executor \<Rightarrow> compiled_node \<Rightarrow> xst \<Rightarrow> xst \<times> body_flow" where
  "body_act ex n st =
     (if action_type n = ''return'' then
        (set_out (cn_index n) (case return_value ex n st of Some v \<Rightarrow> v | None \<Rightarrow> VNull) st, FBreak)
      else if action_type n = ''break'' then (st, FBreak)
      else if action_type n = ''continue'' then (st, FSkipRest)
      else (set_out (cn_index n) (act_marker (action_type n)) st, FNext))"

definition body_call :: "executor \<Rightarrow> compiled_node \<Rightarrow> xst \<Rightarrow> exec_error + xst \<times> body_flow" where
  "body_call ex n st =
     (let target = call_target n; params = call_params ex [''target'', ''output''] n st in
      if starts_with target ''subgraph:'' then
        bind_res (subgraph_call ex n (trim_start_matches ''subgraph:'' target) params st)
          (\<lambda>st'. Inr (st', FNoPause))
      else bind_res (dispatch_call ex n target params None st) (\<lambda>st'. Inr (st', FNext)))"

definition body_decide :: "executor \<Rightarrow> compiled_node \<Rightarrow> xst \<Rightarrow> step" where
  "body_decide ex n st =
     (case condition_arg n of
        Some c \<Rightarrow> bind_res (eval_in ex st c) (\<lambda>v. Inr (set_out (cn_index n) (VBool (is_truthy v)) st))
      | None \<Rightarrow> Inr (set_out (cn_index n) (VBool False) st))"

definition body_node :: "executor \<Rightarrow> compiled_node \<Rightarrow> xst \<Rightarrow> exec_error + xst \<times> body_flow" where
  "body_node ex n st =
     (case cn_op n of
        Calc \<Rightarrow> bind_res (calc_value ex n st) (\<lambda>st'. Inr (st', FNext))
      | Call \<Rightarrow> body_call ex n st
      | Decide \<Rightarrow> bind_res (body_decide ex n st) (\<lambda>st'. Inr (st', FNext))
      | Input \<Rightarrow> Inr (case ctx_get (x_ctx st) (input_name n) of
            Some v \<Rightarrow> set_out (cn_index n) v st | None \<Rightarrow> st, FNext)
      | Act \<Rightarrow> Inr (body_act ex n st)
      | _ \<Rightarrow> Inr (set_out (cn_index n) VNull st, FNext))"

datatype body_end = BodyDone | BodyBreak | BodyPaused loop_state

definition pauses :: "pause_policy option \<Rightarrow> u32 \<Rightarrow> string \<Rightarrow> bool" where
  "pauses pause count nid = (case pause of Some p \<Rightarrow> should_pause p count nid | None \<Rightarrow> False)"

fun run_body ::
  "executor \<Rightarrow> pause_policy option \<Rightarrow> u32 \<Rightarrow> u32 \<Rightarrow> (nat \<times> u32) list \<Rightarrow> xst \<Rightarrow>
   exec_error + xst \<times> body_end" where
  "run_body ex pause li it [] st = Inr (st, BodyDone)"
| "run_body ex pause li it ((pos, i) # rest) st =
     (case get_node (e_plan ex) i of
        None \<Rightarrow> Inl (NodeNotFound (''body index '' @ show_nat i))
      | Some n \<Rightarrow>
          if branch_mismatch (e_plan ex) (x_outs st) (cn_op n) i then run_body ex pause li it rest st
          else
            bind_res (bind_res (charge ex (cn_index n) st) (body_node ex n)) (\<lambda>(st', flow).
              case flow of
                FBreak \<Rightarrow> Inr (st', BodyBreak)
              | FSkipRest \<Rightarrow> Inr (st', BodyDone)
              | FNoPause \<Rightarrow> run_body ex pause li it rest st'
              | FNext \<Rightarrow>
                  if pauses pause (x_count st') (cn_id n) then
                    Inr (st', BodyPaused \<lparr>ls_loop = li, ls_iteration = it, ls_body_position = Suc pos\<rparr>)
                  else run_body ex pause li it rest st'))"

text \<open>The remaining iterations; the first one starts at body position \<open>pos\<close>.\<close>

primrec run_iterations ::
  "executor \<Rightarrow> pause_policy option \<Rightarrow> u32 \<Rightarrow> string option \<Rightarrow> u32 list \<Rightarrow> nat \<Rightarrow> u32 \<Rightarrow> nat \<Rightarrow> xst \<Rightarrow>
   exec_error + xst \<times> loop_state option" where
  "run_iterations ex pause li target body 0 it pos st = Inr (st, None)"
| "run_iterations ex pause li target body (Suc k) it pos st =
     bind_res (run_body ex pause li it (drop pos (enumerate 0 body))
         (set_var_opt target (VInt (int it)) st))
       (\<lambda>(st', e). case e of
          BodyDone \<Rightarrow> run_iterations ex pause li target body k (Suc it) 0 st'
        | BodyBreak \<Rightarrow> Inr (st', None)
        | BodyPaused ls \<Rightarrow> Inr (st', Some ls))"

definition body_order :: "executor \<Rightarrow> u32 \<Rightarrow> u32 list" where
  "body_order ex i = filter (\<lambda>j. j \<in> loop_body (e_plan ex) i) (e_order ex)"

definition own_body :: "executor \<Rightarrow> u32 \<Rightarrow> u32 set" where
  "own_body ex i = (case map_of (e_bodies ex) i of Some b \<Rightarrow> b | None \<Rightarrow> {})"

text \<open>After the last iteration: expressions of the body that have no value yet ...\<close>

definition late_calc :: "executor \<Rightarrow> u32 \<Rightarrow> compiled_node \<Rightarrow> xst \<Rightarrow> xst" where
  "late_calc ex li n st =
     (if cn_index n \<notin> own_body ex li \<or> cn_op n \<noteq> Calc \<or> find_arg n ''output'' \<noteq> None \<or>
         map_of (x_outs st) (cn_index n) \<noteq> None
      then st
      else case find_arg n ''expr'' of
        None \<Rightarrow> st
      | Some e \<Rightarrow> (case eval_in ex st e of Inr v \<Rightarrow> set_out (cn_index n) v st | Inl _ \<Rightarrow> st))"

text \<open>... the nodes fed only by the body are enabled ...\<close>

definition enable_fed :: "executor \<Rightarrow> u32 \<Rightarrow> compiled_node \<Rightarrow> xst \<Rightarrow> xst" where
  "enable_fed ex li n st =
     (let i = cn_index n;
          preds = map ce_from (filter (\<lambda>e. ce_to e = i \<and> ce_kind e = EData) (cp_edges (e_plan ex)))
      in if i \<in> x_enabled st \<or> i \<in> x_skipped st then st
         else if preds \<noteq> [] \<and> (\<forall>j \<in> set preds. j \<in> own_body ex li) then enable i st
         else st)"

text \<open>... and the edges that leave the loop are propagated.\<close>

definition leave_edge :: "executor \<Rightarrow> u32 \<Rightarrow> compiled_edge \<Rightarrow> xst \<Rightarrow> xst" where
  "leave_edge ex li e st =
     (if ce_from e = li \<and> ce_to e \<notin> own_body ex li then
        (if ce_kind e = EControl then enable (ce_to e) (satisfy_control (ce_to e) st)
         else enable (ce_to e) (apply_mapping (ce_mapping e) st))
      else st)"

definition finish_loop :: "executor \<Rightarrow> compiled_node \<Rightarrow> xst \<Rightarrow> xst" where
  "finish_loop ex n st =
     (let li = cn_index n;
          st1 = (if li \<in> x_skipped st then st
                 else fold (enable_fed ex li) (cp_nodes (e_plan ex))
                   (fold (late_calc ex li) (cp_nodes (e_plan ex)) st));
          st2 = fold (leave_edge ex li) (cp_edges (e_plan ex)) st1
      in set_out li VNull st2)"

definition run_loop ::
  "executor \<Rightarrow> pause_policy option \<Rightarrow> (u32 \<times> nat) option \<Rightarrow> compiled_node \<Rightarrow> xst \<Rightarrow>
   exec_error + xst \<times> node_outcome" where
  "run_loop ex pause cursor n st =
     (let p = e_plan ex; li = cn_index n;
          max_iter = loop_iterations p (x_outs st) n;
          target = map_option trim_quotes (find_arg n ''target'');
          (it, pos) = (case cursor of Some c \<Rightarrow> c | None \<Rightarrow> (0, 0))
      in bind_res
        (if loop_starts p EData li = [] then Inr (st, None)
         else run_iterations ex pause li target (body_order ex li) (max_iter - it) it pos
           (st\<lparr>x_skipped := x_skipped st \<union> loop_body p li\<rparr>))
        (\<lambda>(st', e). case e of
           Some ls \<Rightarrow> Inr (st', NodePaused ls)
         | None \<Rightarrow> Inr (finish_loop ex n st', NodeOk)))"

section \<open>PARALLEL\<close>

definition children :: "compiled_plan \<Rightarrow> u32 \<Rightarrow> u32 list" where
  "children p i = map ce_to (edges_from p i)"

definition enable_children :: "compiled_plan \<Rightarrow> u32 \<Rightarrow> xst \<Rightarrow> xst" where
  "enable_children p i st =
     fold (\<lambda>e st. enable (ce_to e) (apply_mapping (ce_mapping e) st)) (edges_from p i) st"

definition branch_at :: "compiled_plan \<Rightarrow> u32 \<Rightarrow> u32 option" where
  "branch_at p i = Option.bind (get_node p i) cn_branch"

text \<open>The nodes of each branch in plan order, and the branch numbers in ascending order.\<close>

definition branch_region :: "executor \<Rightarrow> u32 \<Rightarrow> u32 list" where
  "branch_region ex i =
     (let region = collect_reachable_indices (e_plan ex) (children (e_plan ex) i) in
      filter (\<lambda>j. j \<in> region \<and> branch_at (e_plan ex) j \<noteq> None) (e_order ex))"

definition branch_group :: "executor \<Rightarrow> u32 \<Rightarrow> u32 \<Rightarrow> u32 list" where
  "branch_group ex i b = filter (\<lambda>j. branch_at (e_plan ex) j = Some b) (branch_region ex i)"

definition branch_ids :: "executor \<Rightarrow> u32 \<Rightarrow> u32 list" where
  "branch_ids ex i = sort (remdups (List.map_filter (branch_at (e_plan ex)) (branch_region ex i)))"

definition thread_state :: "executor \<Rightarrow> u32 \<Rightarrow> xst \<Rightarrow> u32 \<Rightarrow> xst" where
  "thread_state ex i st b =
     (let g = set (branch_group ex i b) in
      st\<lparr>x_order := [], x_enabled := set (children (e_plan ex) i) \<inter> g,
         x_skipped := x_skipped st - g, x_count := 0, x_output := None\<rparr>)"

text \<open>One branch after the other; \<open>run\<close> runs a node.\<close>

definition run_thread ::
  "(compiled_node \<Rightarrow> xst \<Rightarrow> exec_error + xst \<times> node_outcome) \<Rightarrow> compiled_plan \<Rightarrow> u32 list \<Rightarrow> xst \<Rightarrow> step" where
  "run_thread run p grp st =
     fold_res (\<lambda>j st. case get_node p j of
         None \<Rightarrow> Inl (NodeNotFound (''region index '' @ show_nat j))
       | Some n \<Rightarrow> bind_res (run n st) (\<lambda>(st', _). Inr st')) grp st"

text \<open>What a finished thread hands back to the main state.\<close>

definition merge_control :: "u32 list \<Rightarrow> u32 list \<Rightarrow> u32 list \<Rightarrow> u32 list" where
  "merge_control initial final current =
     map (\<lambda>(b, a, c). if a > b then a else c) (zip initial (zip final current))"

definition merge_thread :: "u32 list \<Rightarrow> u32 \<times> xst \<Rightarrow> xst \<Rightarrow> xst" where
  "merge_thread initial r st =
     (let (b, t) = r in
      st\<lparr>x_count := u32_add (x_count st) (x_count t),
         x_outs := fold (\<lambda>(k, v). or_insert k v) (x_outs t) (x_outs st),
         x_enabled := x_enabled st \<union> x_enabled t,
         x_control := merge_control initial (x_control t) (x_control st),
         x_ctx := (case fst (take_branch_scope b (x_ctx t)) of
             Some s \<Rightarrow> insert_branch_scope b s (x_ctx st) | None \<Rightarrow> x_ctx st),
         x_output := (if x_output st = None then x_output t else x_output st),
         x_order := x_order st @ x_order t\<rparr>)"

definition run_parallel ::
  "(compiled_node \<Rightarrow> xst \<Rightarrow> exec_error + xst \<times> node_outcome) \<Rightarrow> executor \<Rightarrow> compiled_node \<Rightarrow> xst \<Rightarrow> step" where
  "run_parallel run ex n st =
     (let p = e_plan ex; i = cn_index n;
          st1 = set_out i VNull (enable_children p i (st\<lparr>x_ctx := enter_parallel (x_ctx st)\<rparr>));
          bids = branch_ids ex i
      in if bids = [] then Inr st1
         else
           (let st2 = st1\<lparr>x_skipped := x_skipped st1 \<union> set (branch_region ex i)\<rparr> in
            bind_res
              (map_res (\<lambda>b. bind_res (run_thread run p (branch_group ex i b) (thread_state ex i st2 b))
                 (\<lambda>t. Inr (b, t))) bids)
              (\<lambda>rs. Inr (fold (merge_thread (x_control st2)) rs st2))))"

section \<open>run_node\<close>

definition with_ok :: "step \<Rightarrow> exec_error + xst \<times> node_outcome" where
  "with_ok r = bind_res r (\<lambda>st. Inr (st, NodeOk))"

text \<open>The dispatch on the opcode; \<open>run\<close> runs the nodes of parallel branches.\<close>

definition run_arm ::
  "(compiled_node \<Rightarrow> xst \<Rightarrow> exec_error + xst \<times> node_outcome) \<Rightarrow> executor \<Rightarrow> pause_policy option \<Rightarrow>
   compiled_node \<Rightarrow> xst \<Rightarrow> exec_error + xst \<times> node_outcome" where
  "run_arm run ex pause n st =
     (case cn_op n of
        Input \<Rightarrow> with_ok (run_input ex n st)
      | Calc \<Rightarrow> with_ok (run_calc ex n st)
      | Call \<Rightarrow> with_ok (run_call ex n st)
      | Decide \<Rightarrow> with_ok (run_decide ex n st)
      | Act \<Rightarrow> with_ok (run_act ex n st)
      | Switch \<Rightarrow> with_ok (run_switch ex n st)
      | Parallel \<Rightarrow> with_ok (run_parallel run ex n st)
      | Loop \<Rightarrow> run_loop ex pause None n st
      | Wait \<Rightarrow> with_ok (run_wait ex n st)
      | Merge \<Rightarrow> with_ok (run_merge ex n st)
      | Error \<Rightarrow> Inl (run_error n))"

definition run_node_step ::
  "(compiled_node \<Rightarrow> xst \<Rightarrow> exec_error + xst \<times> node_outcome) \<Rightarrow> executor \<Rightarrow> pause_policy option \<Rightarrow>
   compiled_node \<Rightarrow> xst \<Rightarrow> exec_error + xst \<times> node_outcome" where
  "run_node_step run ex pause n st =
     (if skipped ex n st then Inr (st, NodeOk)
      else bind_res (bind_res (charge ex (cn_index n) st) (check_memory ex))
        (\<lambda>st'. run_arm run ex pause n (enter_node n st')))"

primrec run_node ::
  "nat \<Rightarrow> executor \<Rightarrow> pause_policy option \<Rightarrow> compiled_node \<Rightarrow> xst \<Rightarrow> exec_error + xst \<times> node_outcome" where
  "run_node 0 ex pause n st = Inl OutOfFuel"
| "run_node (Suc k) ex pause n st = run_node_step (run_node k ex None) ex pause n st"

end
