(* ===== verification/Pause.thy ===== *)
theory Pause
  imports Executor
begin

text \<open>
  Running a plan: \<open>execute\<close>, \<open>execute_with\<close> and \<open>resume\<close> of \<open>CompiledExecutor\<close>
  (\<open>compiled_executor.rs\<close>) with the checkpoints of \<open>pause.rs\<close>.

  \<open>run_from\<close> is the loop both entry points share: the nodes at the remaining positions of
  the order, with the pause test after each.  The observer callbacks and the wall-clock
  durations of the result have no effect on the run and are left out.
\<close>

section \<open>Checkpoints and outcomes\<close>

record checkpoint =
  ck_node_count :: u32
  ck_position :: nat
  ck_elapsed_us :: nat
  ck_loop_state :: "loop_state option"
  ck_context :: "tp_context"
  ck_node_outputs :: "tp_value nmap"
  ck_enabled :: "u32 set"
  ck_control_satisfied :: "u32 list"
  ck_loop_skipped :: "u32 set"
  ck_execution_order :: "string list"
  ck_output :: "tp_value option"

record execution_result =
  er_context :: "tp_context"
  er_execution_order :: "string list"
  er_node_count :: u32
  er_output :: "tp_value option"

datatype execution_outcome = Completed execution_result | Paused checkpoint

definition build_checkpoint :: "xst \<Rightarrow> nat \<Rightarrow> nat \<Rightarrow> loop_state option \<Rightarrow> checkpoint" where
  "build_checkpoint st pos elapsed ls =
     \<lparr>ck_node_count = x_count st, ck_position = pos, ck_elapsed_us = elapsed, ck_loop_state = ls,
      ck_context = x_ctx st, ck_node_outputs = x_outs st, ck_enabled = x_enabled st,
      ck_control_satisfied = x_control st, ck_loop_skipped = x_skipped st,
      ck_execution_order = x_order st, ck_output = x_output st\<rparr>"

definition result_of :: "xst \<Rightarrow> execution_result" where
  "result_of st = \<lparr>er_context = x_ctx st, er_execution_order = x_order st,
     er_node_count = x_count st, er_output = x_output st\<rparr>"

section \<open>The main pass\<close>

definition initial_enabled :: "compiled_plan \<Rightarrow> u32 set" where
  "initial_enabled p =
     {i. \<exists>n \<in> set (cp_nodes p). cn_index n = i \<and> \<not> (\<exists>e \<in> set (cp_edges p). ce_to e = i)}"

definition initial_state :: "compiled_plan \<Rightarrow> tp_context \<Rightarrow> xst" where
  "initial_state p inputs =
     \<lparr>x_ctx = inputs, x_outs = [], x_order = [], x_enabled = initial_enabled p,
      x_control = replicate (length (cp_nodes p)) 0, x_skipped = {}, x_count = 0,
      x_output = None\<rparr>"

definition make_executor :: "compiled_plan \<Rightarrow> world \<Rightarrow> u32 list \<Rightarrow> executor" where
  "make_executor p w ord =
     \<lparr>e_plan = p, e_world = w, e_order = ord, e_bodies = identify_loop_bodies p\<rparr>"

text \<open>Fuel of \<open>run_node\<close>: one level per node.\<close>

definition node_fuel :: "compiled_plan \<Rightarrow> nat" where
  "node_fuel p = Suc (length (cp_nodes p))"

definition checkpoint_elapsed :: "executor \<Rightarrow> u32 \<Rightarrow> xst \<Rightarrow> nat" where
  "checkpoint_elapsed ex i st = w_elapsed (e_world ex) (i, x_count st)"

fun run_from ::
  "executor \<Rightarrow> pause_policy \<Rightarrow> nat \<Rightarrow> u32 list \<Rightarrow> xst \<Rightarrow> exec_error + execution_outcome" where
  "run_from ex policy pos [] st = Inr (Completed (result_of st))"
| "run_from ex policy pos (i # rest) st =
     (case get_node (e_plan ex) i of
        None \<Rightarrow> Inl (NodeNotFound (''index '' @ show_nat i))
      | Some n \<Rightarrow>
          bind_res (run_node (node_fuel (e_plan ex)) ex (Some policy) n st) (\<lambda>(st', out).
            case out of
              NodePaused ls \<Rightarrow>
                Inr (Paused (build_checkpoint st' pos (checkpoint_elapsed ex i st') (Some ls)))
            | NodeOk \<Rightarrow>
                if rest \<noteq> [] \<and> should_pause policy (x_count st') (cn_id n) then
                  Inr (Paused (build_checkpoint st' (Suc pos) (checkpoint_elapsed ex i st') None))
                else run_from ex policy (Suc pos) rest st'))"

definition checked_version :: "compiled_plan \<Rightarrow> exec_error + unit" where
  "checked_version p =
     (case check_version_compatibility (cp_version p) of
        Inl m \<Rightarrow> Inl (VersionMismatch m) | Inr u \<Rightarrow> Inr u)"

definition plan_order :: "compiled_plan \<Rightarrow> exec_error + u32 list" where
  "plan_order p = (case topological_order p of Some ord \<Rightarrow> Inr ord | None \<Rightarrow> Inl CycleDetected)"

definition execute_with ::
  "compiled_plan \<Rightarrow> world \<Rightarrow> tp_context \<Rightarrow> pause_policy \<Rightarrow> exec_error + execution_outcome" where
  "execute_with p w inputs policy =
     bind_res (checked_version p) (\<lambda>_.
     bind_res (plan_order p) (\<lambda>ord.
       run_from (make_executor p w ord) policy 0 ord (initial_state p inputs)))"

text \<open>\<open>execute\<close>: the default policy never pauses (\<open>execute_never_paused\<close>).\<close>

definition execute :: "compiled_plan \<Rightarrow> world \<Rightarrow> tp_context \<Rightarrow> exec_error + execution_result" where
  "execute p w inputs =
     bind_res (execute_with p w inputs pause_policy_default) (\<lambda>out.
       case out of Completed r \<Rightarrow> Inr r | Paused _ \<Rightarrow> Inl (Custom ''default pause policy cannot pause''))"

section \<open>Resuming\<close>

text \<open>
  The clock of a resumed run starts at the time the checkpoint had reached:
  \<open>w_elapsed\<close> of the world counts from the moment \<open>resume\<close> is called.
\<close>

definition resumed_world :: "world \<Rightarrow> checkpoint \<Rightarrow> world" where
  "resumed_world w ck = w\<lparr>w_elapsed := \<lambda>m. ck_elapsed_us ck + w_elapsed w m\<rparr>"

definition restored_state :: "compiled_plan \<Rightarrow> checkpoint \<Rightarrow> xst" where
  "restored_state p ck =
     \<lparr>x_ctx = ck_context ck, x_outs = ck_node_outputs ck, x_order = ck_execution_order ck,
      x_enabled = ck_enabled ck,
      x_control = ck_control_satisfied ck @
        replicate (length (cp_nodes p) - length (ck_control_satisfied ck)) 0,
      x_skipped = ck_loop_skipped ck, x_count = ck_node_count ck, x_output = ck_output ck\<rparr>"

definition resume ::
  "compiled_plan \<Rightarrow> world \<Rightarrow> checkpoint \<Rightarrow> pause_policy \<Rightarrow> exec_error + execution_outcome" where
  "resume p w ck policy =
     bind_res (checked_version p) (\<lambda>_.
     bind_res (plan_order p) (\<lambda>ord.
       (let ex = make_executor p (resumed_world w ck) ord; st = restored_state p ck in
        case ck_loop_state ck of
          None \<Rightarrow> run_from ex policy (ck_position ck) (drop (ck_position ck) ord) st
        | Some ls \<Rightarrow>
            (case get_node p (ls_loop ls) of
               None \<Rightarrow> Inl (NodeNotFound (''loop '' @ show_nat (ls_loop ls)))
             | Some n \<Rightarrow>
                 bind_res (run_loop ex (Some policy) (Some (ls_iteration ls, ls_body_position ls)) n st)
                   (\<lambda>(st', out). case out of
                      NodePaused ls2 \<Rightarrow>
                        Inr (Paused (build_checkpoint st' (ck_position ck)
                          (checkpoint_elapsed ex (ls_loop ls) st') (Some ls2)))
                    | NodeOk \<Rightarrow>
                        run_from ex policy (Suc (ck_position ck)) (drop (Suc (ck_position ck)) ord) st')))))"

end
