(* ===== verification/Frames.thy ===== *)
theory Frames
  imports Pause
begin

text \<open>
  What a step of the interpreter leaves alone.  \<open>propagates\<close> relates the states before and
  after edge propagation, \<open>arm_frame\<close> those before and after an opcode arm other than
  \<open>LOOP\<close> and \<open>PARALLEL\<close>, \<open>loop_frame\<close> those around a loop.  The properties of whole runs
  rest on these relations and not on the definitions of the arms.
\<close>

section \<open>Edge propagation\<close>

definition propagates :: "xst \<Rightarrow> xst \<Rightarrow> bool" where
  "propagates st st' \<longleftrightarrow> x_count st' = x_count st \<and> x_order st' = x_order st \<and>
     x_skipped st' = x_skipped st \<and> x_outs st' = x_outs st \<and> x_output st' = x_output st \<and>
     x_enabled st \<subseteq> x_enabled st' \<and> length (x_control st') = length (x_control st)"

lemma propagates_refl [simp]: "propagates st st"
  by (simp add: propagates_def)

lemma propagates_trans [trans]: "propagates a b \<Longrightarrow> propagates b c \<Longrightarrow> propagates a c"
  by (auto simp: propagates_def)

lemma propagates_enable [simp]: "propagates st (enable i st)"
  by (auto simp: propagates_def enable_def)

lemma propagates_control [simp]: "propagates st (satisfy_control i st)"
  by (simp add: propagates_def satisfy_control_def)

lemma propagates_set_var [simp]: "propagates st (set_var k v st)"
  by (simp add: propagates_def set_var_def)

lemma propagates_set_var_opt [simp]: "propagates st (set_var_opt k v st)"
  by (simp add: set_var_opt_def split: option.split)

lemma propagates_ctx [simp]: "propagates st (st\<lparr>x_ctx := c\<rparr>)"
  by (simp add: propagates_def)

lemma propagates_fold: "(\<And>x st. propagates st (f x st)) \<Longrightarrow> propagates st (fold f xs st)"
  by (induction xs arbitrary: st) (auto intro: propagates_trans)

lemma propagates_mapping [simp]: "propagates st (apply_mapping m st)"
  by (auto simp: apply_mapping_def split: option.split intro!: propagates_fold)

lemma propagates_enable_mapping [simp]: "propagates st (enable i (apply_mapping m st))"
  by (rule propagates_trans [OF propagates_mapping propagates_enable])

lemma propagates_enable_control [simp]: "propagates st (enable i (satisfy_control j st))"
  by (rule propagates_trans [OF propagates_control propagates_enable])

lemma propagate_edge_frame: "propagate_edge ex i e st = Inr st' \<Longrightarrow> propagates st st'"
  by (auto simp: propagate_edge_def bind_res_Inr split: if_splits)

lemma propagate_edges_frame: "propagate_edges ex n st = Inr st' \<Longrightarrow> propagates st st'"
proof -
  assume a: "propagate_edges ex n st = Inr st'"
  have "propagates st st'" if "fold_res (propagate_edge ex (cn_index n)) (cp_edges (e_plan ex)) st = Inr st'"
    using that propagates_refl
    by (rule fold_res_invariant) (blast intro: propagates_trans propagate_edge_frame)
  with a show ?thesis by (auto simp: propagate_edges_def split: if_splits)
qed

section \<open>Opcode arms\<close>

definition arm_frame :: "u32 \<Rightarrow> xst \<Rightarrow> xst \<Rightarrow> bool" where
  "arm_frame i st st' \<longleftrightarrow> x_count st' = x_count st \<and> x_order st' = x_order st \<and>
     x_skipped st' = x_skipped st \<and> x_enabled st \<subseteq> x_enabled st' \<and>
     length (x_control st') = length (x_control st) \<and>
     (\<forall>j. j \<noteq> i \<longrightarrow> map_of (x_outs st') j = map_of (x_outs st) j)"

lemma arm_frame_refl [simp]: "arm_frame i st st"
  by (simp add: arm_frame_def)

lemma arm_frame_trans [trans]: "arm_frame i a b \<Longrightarrow> arm_frame i b c \<Longrightarrow> arm_frame i a c"
  by (auto simp: arm_frame_def)

lemma propagates_arm: "propagates st st' \<Longrightarrow> arm_frame i st st'"
  by (simp add: propagates_def arm_frame_def)

lemma arm_frame_set_out [simp]: "arm_frame i st (set_out i v st)"
  by (simp add: arm_frame_def set_out_def)

lemma arm_frame_output [simp]: "arm_frame i st (st\<lparr>x_output := v\<rparr>)"
  by (simp add: arm_frame_def)

lemma arm_then_propagate:
  "arm_frame i st s1 \<Longrightarrow> propagate_edges ex n s1 = Inr st' \<Longrightarrow> arm_frame i st st'"
  by (blast intro: arm_frame_trans propagates_arm propagate_edges_frame)

lemma arm_set_out_after: "propagates st s1 \<Longrightarrow> arm_frame i st (set_out i v s1)"
  by (blast intro: arm_frame_trans propagates_arm arm_frame_set_out)

lemma run_input_frame: "run_input ex n st = Inr st' \<Longrightarrow> arm_frame (cn_index n) st st'"
  by (auto simp: run_input_def split: option.splits intro: arm_then_propagate [rotated])

lemma calc_value_frame: "calc_value ex n st = Inr st' \<Longrightarrow> arm_frame (cn_index n) st st'"
  by (auto simp: calc_value_def bind_res_Inr Let_def split: option.splits if_splits
      intro: arm_frame_trans [OF arm_frame_set_out propagates_arm [OF propagates_set_var]])

lemma run_calc_frame: "run_calc ex n st = Inr st' \<Longrightarrow> arm_frame (cn_index n) st st'"
  by (auto simp: run_calc_def bind_res_Inr intro: arm_then_propagate calc_value_frame)

lemma subgraph_call_frame: "subgraph_call ex n name ps st = Inr st' \<Longrightarrow> arm_frame (cn_index n) st st'"
  by (auto simp: subgraph_call_def Let_def split: if_splits sum.splits prod.splits
      intro!: arm_set_out_after propagates_trans [OF propagates_ctx propagates_set_var_opt])

lemma dispatch_call_frame: "dispatch_call ex n t ps fb st = Inr st' \<Longrightarrow> arm_frame (cn_index n) st st'"
  by (auto simp: dispatch_call_def split: sum.splits option.splits intro: arm_set_out_after)

lemma run_call_frame: "run_call ex n st = Inr st' \<Longrightarrow> arm_frame (cn_index n) st st'"
  by (auto simp: run_call_def Let_def bind_res_Inr split: if_splits option.splits
      intro: arm_then_propagate subgraph_call_frame dispatch_call_frame)

lemma run_decide_frame: "run_decide ex n st = Inr st' \<Longrightarrow> arm_frame (cn_index n) st st'"
  by (auto simp: run_decide_def Let_def intro: arm_then_propagate [rotated])

lemma run_act_frame: "run_act ex n st = Inr st' \<Longrightarrow> arm_frame (cn_index n) st st'"
proof -
  assume a: "run_act ex n st = Inr st'"
  let ?s = "set_out (cn_index n) (act_marker (action_type n)) st"
  have "arm_frame (cn_index n) st (set_out (cn_index n) v (?s\<lparr>x_output := Some v\<rparr>))" for v
    by (rule arm_frame_trans [OF arm_frame_trans [OF arm_frame_set_out arm_frame_output] arm_frame_set_out])
  with a show ?thesis
    unfolding run_act_def Let_def by (auto split: if_splits intro: arm_then_propagate [rotated])
qed

lemma switch_edge_frame: "propagates (snd t) (snd (switch_edge s e t))"
  by (cases t) (auto simp: switch_edge_def Let_def split: option.split)

lemma switch_edges_frame: "propagates (snd t) (snd (fold (switch_edge s) es t))"
proof (induction es arbitrary: t)
  case Nil
  then show ?case by simp
next
  case (Cons e es)
  show ?case using propagates_trans [OF switch_edge_frame Cons.IH] by simp
qed

lemma run_switch_frame: "run_switch ex n st = Inr st' \<Longrightarrow> arm_frame (cn_index n) st st'"
  using switch_edges_frame [of "(False, st)"]
  by (auto simp: run_switch_def Let_def case_prod_beta intro!: arm_set_out_after)

lemma run_wait_frame: "run_wait ex n st = Inr st' \<Longrightarrow> arm_frame (cn_index n) st st'"
  by (auto simp: run_wait_def Let_def split: if_splits intro: arm_then_propagate [rotated])

lemma run_merge_frame: "run_merge ex n st = Inr st' \<Longrightarrow> arm_frame (cn_index n) st st'"
  unfolding run_merge_def Let_def
  by (erule arm_then_propagate [rotated]) (rule arm_set_out_after [OF propagates_ctx])

lemmas arm_frames = run_input_frame run_calc_frame run_call_frame run_decide_frame run_act_frame
  run_switch_frame run_wait_frame run_merge_frame

section \<open>Loops\<close>

text \<open>The counter either stays or has passed the budget check.\<close>

definition charged :: "executor \<Rightarrow> xst \<Rightarrow> xst \<Rightarrow> bool" where
  "charged ex st st' \<longleftrightarrow> x_count st' = x_count st \<or> x_count st' \<le> node_budget (e_plan ex)"

text \<open>What the iterations of a loop with body nodes \<open>B\<close> keep.\<close>

definition body_frame :: "executor \<Rightarrow> u32 set \<Rightarrow> xst \<Rightarrow> xst \<Rightarrow> bool" where
  "body_frame ex B st st' \<longleftrightarrow> charged ex st st' \<and> x_order st' = x_order st \<and>
     x_output st' = x_output st \<and> x_skipped st' = x_skipped st \<and>
     x_enabled st' = x_enabled st \<and> x_control st' = x_control st \<and>
     (\<forall>j. j \<notin> B \<longrightarrow> map_of (x_outs st') j = map_of (x_outs st) j)"

lemma charged_refl [simp]: "charged ex st st"
  by (simp add: charged_def)

lemma charged_trans [trans]: "charged ex a b \<Longrightarrow> charged ex b c \<Longrightarrow> charged ex a c"
  by (auto simp: charged_def)

lemma body_frame_refl [simp]: "body_frame ex B st st"
  by (simp add: body_frame_def)

lemma body_frame_trans [trans]: "body_frame ex B a b \<Longrightarrow> body_frame ex B b c \<Longrightarrow> body_frame ex B a c"
  by (auto simp: body_frame_def intro: charged_trans)

lemma charge_Inr:
  "charge ex i st = Inr st' \<Longrightarrow> st' = st\<lparr>x_count := x_count st'\<rparr> \<and> x_count st' \<le> node_budget (e_plan ex)"
  by (auto simp: charge_def Let_def split: if_splits)

lemma charge_body: "charge ex i st = Inr st' \<Longrightarrow> body_frame ex B st st'"
proof -
  assume "charge ex i st = Inr st'"
  from charge_Inr [OF this] obtain c where "st' = st\<lparr>x_count := c\<rparr>" "c \<le> node_budget (e_plan ex)"
    by blast
  then show ?thesis by (simp add: body_frame_def charged_def)
qed

lemma set_out_body [simp]: "i \<in> B \<Longrightarrow> body_frame ex B st (set_out i v st)"
  by (auto simp: body_frame_def charged_def set_out_def)

lemma ctx_body [simp]: "body_frame ex B st (st\<lparr>x_ctx := c\<rparr>)"
  by (simp add: body_frame_def charged_def)

lemma set_var_body [simp]: "body_frame ex B st (set_var k v st)"
  by (simp add: set_var_def)

lemma set_var_opt_body [simp]: "body_frame ex B st (set_var_opt k v st)"
  by (simp add: set_var_opt_def split: option.split)

lemma set_out_after_body: "i \<in> B \<Longrightarrow> body_frame ex B st s1 \<Longrightarrow> body_frame ex B st (set_out i v s1)"
  by (blast intro: body_frame_trans set_out_body)

lemma calc_value_body: "calc_value ex n st = Inr st' \<Longrightarrow> cn_index n \<in> B \<Longrightarrow> body_frame ex B st st'"
  by (auto simp: calc_value_def bind_res_Inr Let_def split: option.splits if_splits
      intro: body_frame_trans [OF set_out_body set_var_body])

lemma subgraph_call_body:
  "subgraph_call ex n name ps st = Inr st' \<Longrightarrow> cn_index n \<in> B \<Longrightarrow> body_frame ex B st st'"
  by (auto simp: subgraph_call_def Let_def split: if_splits sum.splits prod.splits
      intro!: set_out_after_body body_frame_trans [OF ctx_body set_var_opt_body])

lemma dispatch_call_body:
  "dispatch_call ex n t ps fb st = Inr st' \<Longrightarrow> cn_index n \<in> B \<Longrightarrow> body_frame ex B st st'"
  by (auto simp: dispatch_call_def split: sum.splits option.splits intro: set_out_after_body)

lemma body_call_body:
  "body_call ex n st = Inr (st', fl) \<Longrightarrow> cn_index n \<in> B \<Longrightarrow> body_frame ex B st st'"
  by (auto simp: body_call_def Let_def bind_res_Inr split: if_splits
      intro: subgraph_call_body dispatch_call_body)

lemma body_decide_body:
  "body_decide ex n st = Inr st' \<Longrightarrow> cn_index n \<in> B \<Longrightarrow> body_frame ex B st st'"
  by (auto simp: body_decide_def bind_res_Inr split: option.splits)

lemma body_act_body: "body_act ex n st = (st', fl) \<Longrightarrow> cn_index n \<in> B \<Longrightarrow> body_frame ex B st st'"
  by (auto simp: body_act_def split: if_splits)

lemma body_node_body:
  "body_node ex n st = Inr (st', fl) \<Longrightarrow> cn_index n \<in> B \<Longrightarrow> body_frame ex B st st'"
  by (cases "cn_op n")
    (auto simp: body_node_def bind_res_Inr split: option.splits
      intro: calc_value_body body_call_body body_decide_body body_act_body)

lemma run_body_body:
  "run_body ex pause li it xs st = Inr (st', e) \<Longrightarrow>
   (\<And>pos i n. (pos, i) \<in> set xs \<Longrightarrow> get_node (e_plan ex) i = Some n \<Longrightarrow> cn_index n \<in> B) \<Longrightarrow>
   body_frame ex B st st'"
proof (induction ex pause li it xs st rule: run_body.induct)
  case (1 ex pause li it st)
  then show ?case by simp
next
  case (2 ex pause li it pos i rest st)
  from "2.prems"(1) obtain n where n: "get_node (e_plan ex) i = Some n" by (auto split: option.splits)
  with "2.prems"(2) have iB: "cn_index n \<in> B" by (meson list.set_intros(1))
  have rest: "\<And>pos i n. (pos, i) \<in> set rest \<Longrightarrow> get_node (e_plan ex) i = Some n \<Longrightarrow> cn_index n \<in> B"
    using "2.prems"(2) by (meson list.set_intros(2))
  show ?case
  proof (cases "branch_mismatch (e_plan ex) (x_outs st) (cn_op n) i")
    case True
    with "2.prems"(1) n have "run_body ex pause li it rest st = Inr (st', e)" by simp
    from "2.IH"(1) [OF n True this rest] show ?thesis .
  next
    case False
    with "2.prems"(1) n obtain s1 s2 fl where s: "charge ex (cn_index n) st = Inr s1"
      "body_node ex n s1 = Inr (s2, fl)"
      "(case fl of
          FBreak \<Rightarrow> Inr (s2, BodyBreak)
        | FSkipRest \<Rightarrow> Inr (s2, BodyDone)
        | FNoPause \<Rightarrow> run_body ex pause li it rest s2
        | FNext \<Rightarrow> if pauses pause (x_count s2) (cn_id n) then
              Inr (s2, BodyPaused \<lparr>ls_loop = li, ls_iteration = it, ls_body_position = Suc pos\<rparr>)
            else run_body ex pause li it rest s2) = Inr (st', e)"
      by (auto simp: bind_res_Inr)
    have f: "body_frame ex B st s2"
      by (rule body_frame_trans [OF charge_body [OF s(1)] body_node_body [OF s(2) iB]])
    have b: "bind_res (charge ex (cn_index n) st) (body_node ex n) = Inr (s2, fl)" using s(1,2) by simp
    show ?thesis
    proof (cases "run_body ex pause li it rest s2 = Inr (st', e)")
      case True
      have "body_frame ex B s2 st'"
      proof (cases fl)
        case FNext
        with s(3) show ?thesis
          using "2.IH"(2) [OF n False b refl FNext _ True rest] True
          by (cases "pauses pause (x_count s2) (cn_id n)") auto
      next
        case FNoPause
        from "2.IH"(3) [OF n False b refl FNoPause True rest] show ?thesis .
      qed (use s(3) in auto)
      with f show ?thesis by (rule body_frame_trans)
    next
      case False
      with s(3) have "st' = s2" by (auto split: body_flow.splits if_splits)
      with f show ?thesis by simp
    qed
  qed
qed

text \<open>Every node carries its own position as index, as \<open>from_execution_plan\<close> numbers them.\<close>

definition plan_indexed :: "compiled_plan \<Rightarrow> bool" where
  "plan_indexed p \<longleftrightarrow> (\<forall>i < length (cp_nodes p). cn_index (cp_nodes p ! i) = i)"

lemma plan_indexed_get: "plan_indexed p \<Longrightarrow> get_node p i = Some n \<Longrightarrow> cn_index n = i"
  by (auto simp: plan_indexed_def get_node_def list_at_Some)

lemma in_drop_enumerate: "(pos, i) \<in> set (drop k (enumerate 0 xs)) \<Longrightarrow> i \<in> set xs"
  by (metis enumerate_eq_zip in_set_dropD set_zip_rightD)

lemma run_iterations_body:
  assumes "plan_indexed (e_plan ex)" "set body \<subseteq> B"
  shows "run_iterations ex pause li target body k it pos st = Inr (st', e) \<Longrightarrow> body_frame ex B st st'"
proof (induction k arbitrary: it pos st)
  case 0
  then show ?case by simp
next
  case (Suc k)
  let ?s = "set_var_opt target (VInt (int it)) st"
  from Suc.prems obtain s1 r where r: "run_body ex pause li it (drop pos (enumerate 0 body)) ?s = Inr (s1, r)"
    and c: "(case r of
          BodyDone \<Rightarrow> run_iterations ex pause li target body k (Suc it) 0 s1
        | BodyBreak \<Rightarrow> Inr (s1, None)
        | BodyPaused ls \<Rightarrow> Inr (s1, Some ls)) = Inr (st', e)"
    by (auto simp: bind_res_Inr)
  have "body_frame ex B ?s s1"
  proof (rule run_body_body [OF r])
    fix q i n
    assume "(q, i) \<in> set (drop pos (enumerate 0 body))" "get_node (e_plan ex) i = Some n"
    with in_drop_enumerate [of q i pos body] plan_indexed_get [OF assms(1)] assms(2)
    show "cn_index n \<in> B" by auto
  qed
  then have "body_frame ex B st s1" by (rule body_frame_trans [OF set_var_opt_body])
  moreover have "body_frame ex B s1 st'"
    using c Suc.IH [of "Suc it" 0 s1] by (cases r) auto
  ultimately show ?case by (rule body_frame_trans)
qed

definition loop_frame :: "executor \<Rightarrow> u32 set \<Rightarrow> xst \<Rightarrow> xst \<Rightarrow> bool" where
  "loop_frame ex B st st' \<longleftrightarrow> charged ex st st' \<and> x_order st' = x_order st \<and>
     x_output st' = x_output st \<and> x_skipped st \<subseteq> x_skipped st' \<and> x_enabled st \<subseteq> x_enabled st' \<and>
     length (x_control st') = length (x_control st) \<and>
     (\<forall>j. j \<notin> B \<longrightarrow> map_of (x_outs st') j = map_of (x_outs st) j)"

lemma loop_frame_refl [simp]: "loop_frame ex B st st"
  by (simp add: loop_frame_def)

lemma loop_frame_trans [trans]: "loop_frame ex B a b \<Longrightarrow> loop_frame ex B b c \<Longrightarrow> loop_frame ex B a c"
  by (auto simp: loop_frame_def intro: charged_trans)

lemma body_loop_frame: "body_frame ex B st st' \<Longrightarrow> B \<subseteq> C \<Longrightarrow> loop_frame ex C st st'"
  by (auto simp: body_frame_def loop_frame_def)

lemma propagates_loop_frame: "propagates st st' \<Longrightarrow> loop_frame ex B st st'"
  by (simp add: propagates_def loop_frame_def charged_def)

lemma loop_frame_fold: "(\<And>x st. loop_frame ex B st (f x st)) \<Longrightarrow> loop_frame ex B st (fold f xs st)"
  by (induction xs arbitrary: st) (auto intro: loop_frame_trans)

lemma loop_frame_set_out: "i \<in> B \<Longrightarrow> loop_frame ex B st (set_out i v st)"
  by (auto simp: loop_frame_def charged_def set_out_def)

lemma late_calc_frame: "own_body ex li \<subseteq> B \<Longrightarrow> loop_frame ex B st (late_calc ex li n st)"
  by (auto simp: late_calc_def split: option.split sum.split intro: loop_frame_set_out)

lemma enable_fed_frame: "loop_frame ex B st (enable_fed ex li n st)"
  by (auto simp: enable_fed_def Let_def intro!: propagates_loop_frame)

lemma leave_edge_frame: "loop_frame ex B st (leave_edge ex li e st)"
  by (auto simp: leave_edge_def intro!: propagates_loop_frame)

lemma finish_loop_frame:
  assumes "own_body ex (cn_index n) \<subseteq> B" "cn_index n \<in> B"
  shows "loop_frame ex B st (finish_loop ex n st)"
proof -
  have "loop_frame ex B st (fold (enable_fed ex (cn_index n)) ns (fold (late_calc ex (cn_index n)) ns st))" for ns
    by (rule loop_frame_trans [OF loop_frame_fold [OF late_calc_frame [OF assms(1)]]
          loop_frame_fold [OF enable_fed_frame]])
  then have "loop_frame ex B st (if cn_index n \<in> x_skipped st then st
      else fold (enable_fed ex (cn_index n)) (cp_nodes (e_plan ex))
        (fold (late_calc ex (cn_index n)) (cp_nodes (e_plan ex)) st))" by simp
  from loop_frame_trans [OF this loop_frame_trans [OF loop_frame_fold [OF leave_edge_frame]
        loop_frame_set_out [OF assms(2)]]]
  show ?thesis unfolding finish_loop_def Let_def .
qed

text \<open>The nodes a loop may write: itself, its body and what \<open>loop_bodies\<close> lists for it.\<close>

definition loop_writes :: "executor \<Rightarrow> u32 \<Rightarrow> u32 set" where
  "loop_writes ex li = insert li (loop_body (e_plan ex) li \<union> own_body ex li)"

lemma run_loop_frame:
  assumes "plan_indexed (e_plan ex)" "run_loop ex pause cursor n st = Inr (st', out)"
  shows "loop_frame ex (loop_writes ex (cn_index n)) st st'"
proof -
  let ?li = "cn_index n" and ?B = "loop_writes ex (cn_index n)"
  obtain it pos where c: "(case cursor of Some c \<Rightarrow> c | None \<Rightarrow> (0, 0)) = (it, pos)"
    by (rule prod.exhaust)
  let ?s = "st\<lparr>x_skipped := x_skipped st \<union> loop_body (e_plan ex) ?li\<rparr>"
  from assms(2) c obtain s1 e where
    r: "(if loop_starts (e_plan ex) EData ?li = [] then Inr (st, None)
         else run_iterations ex pause ?li (map_option trim_quotes (find_arg n ''target''))
           (body_order ex ?li) (loop_iterations (e_plan ex) (x_outs st) n - it) it pos ?s) = Inr (s1, e)"
    and f: "st' = (case e of Some _ \<Rightarrow> s1 | None \<Rightarrow> finish_loop ex n s1)"
    by (auto simp: run_loop_def Let_def bind_res_Inr split: option.splits)
  have s: "loop_frame ex ?B st ?s" by (auto simp: loop_frame_def charged_def)
  have "loop_frame ex ?B st s1"
  proof (cases "loop_starts (e_plan ex) EData ?li = []")
    case True
    with r show ?thesis by simp
  next
    case False
    with r have i: "run_iterations ex pause ?li (map_option trim_quotes (find_arg n ''target''))
        (body_order ex ?li) (loop_iterations (e_plan ex) (x_outs st) n - it) it pos ?s = Inr (s1, e)"
      by simp
    have "set (body_order ex ?li) \<subseteq> loop_body (e_plan ex) ?li" by (auto simp: body_order_def)
    from body_loop_frame [OF run_iterations_body [OF assms(1) this i], of ?B]
    have "loop_frame ex ?B ?s s1" by (auto simp: loop_writes_def)
    with s show ?thesis by (rule loop_frame_trans)
  qed
  moreover have "loop_frame ex ?B s1 (finish_loop ex n s1)"
    by (rule finish_loop_frame) (auto simp: loop_writes_def)
  ultimately show ?thesis using f by (cases e) (auto intro: loop_frame_trans)
qed

section \<open>Nodes\<close>

text \<open>A node other than \<open>PARALLEL\<close> is passed over, or it is charged and recorded once.\<close>

definition node_writes :: "executor \<Rightarrow> compiled_node \<Rightarrow> u32 set" where
  "node_writes ex n = (if cn_op n = Loop then loop_writes ex (cn_index n) else {cn_index n})"

definition node_ran :: "executor \<Rightarrow> compiled_node \<Rightarrow> xst \<Rightarrow> xst \<Rightarrow> bool" where
  "node_ran ex n st st' \<longleftrightarrow> \<not> skipped ex n st \<and> x_count st' \<le> node_budget (e_plan ex) \<and>
     x_order st' = x_order st @ [cn_id n] \<and> x_skipped st \<subseteq> x_skipped st' \<and>
     x_enabled st \<subseteq> x_enabled st' \<and> length (x_control st') = length (x_control st) \<and>
     (\<forall>j. j \<notin> node_writes ex n \<longrightarrow> map_of (x_outs st') j = map_of (x_outs st) j)"

lemma enter_charged:
  assumes "bind_res (charge ex i st) (check_memory ex) = Inr s1"
  shows "enter_node n s1 = st\<lparr>x_count := x_count s1, x_order := x_order st @ [cn_id n],
      x_ctx := x_ctx (enter_node n s1)\<rparr> \<and> x_count s1 \<le> node_budget (e_plan ex)"
proof -
  from assms obtain s0 where "charge ex i st = Inr s0" "s1 = s0"
    by (auto simp: bind_res_Inr check_memory_def Let_def split: if_splits)
  with charge_Inr [of ex i st s0] obtain c where "s1 = st\<lparr>x_count := c\<rparr>" "c \<le> node_budget (e_plan ex)"
    by auto
  then show ?thesis by (simp add: enter_node_def)
qed

lemma run_node_step_cases:
  assumes "plan_indexed (e_plan ex)" "cn_op n \<noteq> Parallel"
    and "run_node_step run ex pause n st = Inr (st', out)"
  shows "st' = st \<and> out = NodeOk \<or> node_ran ex n st st'"
proof (cases "skipped ex n st")
  case True
  with assms(3) show ?thesis by (simp add: run_node_step_def)
next
  case False
  with assms(3) obtain s1 where s1: "bind_res (charge ex (cn_index n) st) (check_memory ex) = Inr s1"
    and r: "run_arm run ex pause n (enter_node n s1) = Inr (st', out)"
    by (auto simp: run_node_step_def bind_res_Inr)
  define s2 where "s2 = enter_node n s1"
  from enter_charged [OF s1, of n] obtain c k where
    s2: "s2 = st\<lparr>x_count := c, x_order := x_order st @ [cn_id n], x_ctx := k\<rparr>" "c \<le> node_budget (e_plan ex)"
    by (auto simp: s2_def)
  show ?thesis
  proof (cases "cn_op n = Loop")
    case True
    with r have "run_loop ex pause None n s2 = Inr (st', out)" by (simp add: run_arm_def s2_def)
    from run_loop_frame [OF assms(1) this] s2 False True show ?thesis
      by (auto simp: node_ran_def loop_frame_def charged_def node_writes_def)
  next
    case op: False
    have "arm_frame (cn_index n) s2 st'"
      using r op assms(2) by (cases "cn_op n")
        (auto simp: run_arm_def s2_def with_ok_def bind_res_Inr intro: arm_frames)
    with s2 False op show ?thesis
      by (auto simp: node_ran_def arm_frame_def node_writes_def)
  qed
qed

end
