(* ===== verification/Runs.thy ===== *)
theory Runs
  imports Frames
begin

text \<open>
  Whole runs.  \<open>pass\<close> is the specification of a run: the remaining nodes in order, with no
  pause policy.  Every way of cutting a run into segments by pausing and resuming refines it:
  an error or a completion of \<open>run_from\<close> is that of \<open>pass\<close>, and a checkpoint is a state from
  which \<open>pass\<close> continues (\<open>run_from_pass\<close>).
\<close>

section \<open>The uninterrupted run\<close>

fun pass :: "executor \<Rightarrow> u32 list \<Rightarrow> xst \<Rightarrow> step" where
  "pass ex [] st = Inr st"
| "pass ex (i # rest) st =
     (case get_node (e_plan ex) i of
        None \<Rightarrow> Inl (NodeNotFound (''index '' @ show_nat i))
      | Some n \<Rightarrow>
          bind_res (run_node (node_fuel (e_plan ex)) ex None n st) (\<lambda>(st', _). pass ex rest st'))"

definition completed :: "step \<Rightarrow> exec_error + execution_outcome" where
  "completed r = bind_res r (\<lambda>st. Inr (Completed (result_of st)))"

section \<open>Pausing inside a loop\<close>

lemma run_body_unpaused:
  assumes "run_body ex P li it (drop k (enumerate 0 body)) st = r"
  shows "case r of
      Inl e \<Rightarrow> run_body ex None li it (drop k (enumerate 0 body)) st = Inl e
    | Inr (s, BodyPaused ls) \<Rightarrow> ls_loop ls = li \<and> ls_iteration ls = it \<and>
        run_body ex None li it (drop k (enumerate 0 body)) st =
        run_body ex None li it (drop (ls_body_position ls) (enumerate 0 body)) s
    | Inr (s, e) \<Rightarrow> run_body ex None li it (drop k (enumerate 0 body)) st = Inr (s, e)"
  using assms
proof (induction "length body - k" arbitrary: k st)
  case 0
  then show ?case by auto
next
  case (Suc d)
  then have k: "k < length body" by simp
  let ?en = "enumerate 0 body"
  have xs: "drop k ?en = (k, body ! k) # drop (Suc k) ?en"
    using k by (simp add: Cons_nth_drop_Suc [symmetric] nth_enumerate_eq)
  have d: "d = length body - Suc k" using Suc.hyps(2) by simp
  note IH = Suc.hyps(1) [OF d]
  show ?case
  proof (cases "get_node (e_plan ex) (body ! k)")
    case None
    with Suc.prems xs show ?thesis by auto
  next
    case (Some n)
    show ?thesis
    proof (cases "branch_mismatch (e_plan ex) (x_outs st) (cn_op n) (body ! k)")
      case True
      with xs Some have eq: "run_body ex Q li it (drop k ?en) st = run_body ex Q li it (drop (Suc k) ?en) st" for Q
        by simp
      from IH [OF Suc.prems [unfolded eq]] show ?thesis unfolding eq .
    next
      case False
      show ?thesis
      proof (cases "bind_res (charge ex (cn_index n) st) (body_node ex n)")
        case (Inl e)
        with Suc.prems xs Some False show ?thesis by auto
      next
        case (Inr t)
        obtain s fl where t: "t = (s, fl)" by (cases t)
        have step: "run_body ex Q li it (drop k ?en) st = (case fl of
                FBreak \<Rightarrow> Inr (s, BodyBreak)
              | FSkipRest \<Rightarrow> Inr (s, BodyDone)
              | FNoPause \<Rightarrow> run_body ex Q li it (drop (Suc k) ?en) s
              | FNext \<Rightarrow>
                  if pauses Q (x_count s) (cn_id n) then
                    Inr (s, BodyPaused \<lparr>ls_loop = li, ls_iteration = it, ls_body_position = Suc k\<rparr>)
                  else run_body ex Q li it (drop (Suc k) ?en) s)" for Q
          using xs Some False Inr t by simp
        have none: "\<not> pauses None c i" for c i by (simp add: pauses_def)
        show ?thesis
        proof (cases fl)
          case FNext
          show ?thesis
          proof (cases "pauses P (x_count s) (cn_id n)")
            case True
            with Suc.prems step [of P] FNext
            have r: "r = Inr (s, BodyPaused \<lparr>ls_loop = li, ls_iteration = it, ls_body_position = Suc k\<rparr>)" by simp
            show ?thesis unfolding r using step [of None] FNext none by simp
          next
            case False
            with Suc.prems step [of P] FNext have r: "run_body ex P li it (drop (Suc k) ?en) s = r" by simp
            have eq: "run_body ex None li it (drop k ?en) st = run_body ex None li it (drop (Suc k) ?en) s"
              using step [of None] FNext none by simp
            from IH [OF r] show ?thesis unfolding eq .
          qed
        next
          case FNoPause
          then have eq: "run_body ex Q li it (drop k ?en) st = run_body ex Q li it (drop (Suc k) ?en) s" for Q
            using step [of Q] by simp
          from IH [OF Suc.prems [unfolded eq]] show ?thesis unfolding eq .
        next
          case FBreak
          with Suc.prems step [of P] have "r = Inr (s, BodyBreak)" by simp
          then show ?thesis using step [of None] FBreak by simp
        next
          case FSkipRest
          with Suc.prems step [of P] have "r = Inr (s, BodyDone)" by simp
          then show ?thesis using step [of None] FSkipRest by simp
        qed
      qed
    qed
  qed
qed

text \<open>The loop variable still holds the number of the interrupted iteration.\<close>

definition loop_var_intact :: "string option \<Rightarrow> u32 \<Rightarrow> xst \<Rightarrow> bool" where
  "loop_var_intact target it st \<longleftrightarrow>
     (case target of None \<Rightarrow> True | Some v \<Rightarrow> own_value (x_ctx st) v = Some (VInt (int it)))"

lemma set_var_intact: "loop_var_intact target it st \<Longrightarrow> set_var_opt target (VInt (int it)) st = st"
  by (auto simp: loop_var_intact_def set_var_opt_def set_var_def ctx_set_own split: option.splits)

lemma run_iterations_unpaused:
  assumes "run_iterations ex P li target body k it pos st = r"
  shows "case r of
      Inl e \<Rightarrow> run_iterations ex None li target body k it pos st = Inl e
    | Inr (s, None) \<Rightarrow> run_iterations ex None li target body k it pos st = Inr (s, None)
    | Inr (s, Some ls) \<Rightarrow> ls_loop ls = li \<and> ls_iteration ls < it + k \<and>
        (loop_var_intact target (ls_iteration ls) s \<longrightarrow>
         run_iterations ex None li target body k it pos st =
         run_iterations ex None li target body (it + k - ls_iteration ls) (ls_iteration ls)
           (ls_body_position ls) s)"
  using assms
proof (induction k arbitrary: it pos st)
  case 0
  then show ?case by auto
next
  case (Suc k)
  let ?s = "set_var_opt target (VInt (int it)) st"
  let ?xs = "drop pos (enumerate 0 body)"
  note b = run_body_unpaused [where ex = ex and P = P and li = li and it = it and body = body and st = ?s and k = pos, OF refl]
  show ?case
  proof (cases "run_body ex P li it ?xs ?s")
    case (Inl e)
    with b Suc.prems show ?thesis by auto
  next
    case (Inr t)
    obtain s e where t: "t = (s, e)" by (cases t)
    show ?thesis
    proof (cases e)
      case BodyDone
      with b Inr t have n: "run_body ex None li it ?xs ?s = Inr (s, BodyDone)" by simp
      with Suc.prems Inr t BodyDone have "run_iterations ex P li target body k (Suc it) 0 s = r" by simp
      note IH = Suc.IH [OF this]
      have eq: "run_iterations ex None li target body (Suc k) it pos st =
          run_iterations ex None li target body k (Suc it) 0 s" using n by simp
      have "Suc it + k = it + Suc k" by simp
      from IH [unfolded this] show ?thesis unfolding eq .
    next
      case BodyBreak
      with b Inr t have n: "run_body ex None li it ?xs ?s = Inr (s, BodyBreak)" by simp
      with Suc.prems Inr t BodyBreak show ?thesis by auto
    next
      case (BodyPaused ls)
      with b Inr t have n: "ls_loop ls = li" "ls_iteration ls = it"
        "run_body ex None li it ?xs ?s = run_body ex None li it (drop (ls_body_position ls) (enumerate 0 body)) s"
        by simp_all
      have r: "r = Inr (s, Some ls)" using Suc.prems Inr t BodyPaused by auto
      show ?thesis unfolding r using n by (auto simp: set_var_intact Suc_diff_le)
    qed
  qed
qed

text \<open>A loop is not fed by its own body: the incoming data edges keep their values.\<close>

definition bound_stable :: "executor \<Rightarrow> u32 \<Rightarrow> bool" where
  "bound_stable ex li \<longleftrightarrow>
     (\<forall>e \<in> set (cp_edges (e_plan ex)). ce_to e = li \<longrightarrow> ce_from e \<notin> loop_body (e_plan ex) li)"

lemma map_filter_cong: "(\<And>x. x \<in> set xs \<Longrightarrow> f x = g x) \<Longrightarrow> List.map_filter f xs = List.map_filter g xs"
  by (induction xs) (auto simp: List.map_filter_simps split: option.split)

lemma loop_iterations_stable:
  assumes "bound_stable ex (cn_index n)"
    and "\<forall>j. j \<notin> loop_body (e_plan ex) (cn_index n) \<longrightarrow> map_of outs' j = map_of outs j"
  shows "loop_iterations (e_plan ex) outs' n = loop_iterations (e_plan ex) outs n"
proof -
  have "List.map_filter (loop_bound_value (e_plan ex) outs' (cn_index n)) (cp_edges (e_plan ex)) =
      List.map_filter (loop_bound_value (e_plan ex) outs (cn_index n)) (cp_edges (e_plan ex))"
    using assms by (intro map_filter_cong) (auto simp: bound_stable_def loop_bound_value_def)
  then show ?thesis by (simp add: loop_iterations_def)
qed

text \<open>The cursor of a loop: where an interrupted loop goes on.\<close>

definition cursor_of :: "loop_state \<Rightarrow> u32 \<times> nat" where
  "cursor_of ls = (ls_iteration ls, ls_body_position ls)"

definition loop_target :: "compiled_node \<Rightarrow> string option" where
  "loop_target n = map_option trim_quotes (find_arg n ''target'')"

lemma run_loop_unpaused:
  assumes ind: "plan_indexed (e_plan ex)" and st: "bound_stable ex (cn_index n)"
    and r: "run_loop ex P cursor n st = r"
  shows "case r of
      Inl e \<Rightarrow> run_loop ex None cursor n st = Inl e
    | Inr (s, NodeOk) \<Rightarrow> run_loop ex None cursor n st = Inr (s, NodeOk)
    | Inr (s, NodePaused ls) \<Rightarrow> ls_loop ls = cn_index n \<and>
        (loop_var_intact (loop_target n) (ls_iteration ls) s \<longrightarrow>
         run_loop ex None cursor n st = run_loop ex None (Some (cursor_of ls)) n s)"
proof -
  let ?p = "e_plan ex" and ?li = "cn_index n"
  obtain it pos where c: "(case cursor of Some c \<Rightarrow> c | None \<Rightarrow> (0, 0)) = (it, pos)"
    by (rule prod.exhaust)
  let ?k = "loop_iterations ?p (x_outs st) n - it"
  let ?s = "st\<lparr>x_skipped := x_skipped st \<union> loop_body ?p ?li\<rparr>"
  have eq: "run_loop ex Q cursor n st = bind_res
      (if loop_starts ?p EData ?li = [] then Inr (st, None)
       else run_iterations ex Q ?li (loop_target n) (body_order ex ?li) ?k it pos ?s)
      (\<lambda>(st', e). case e of Some ls \<Rightarrow> Inr (st', NodePaused ls) | None \<Rightarrow> Inr (finish_loop ex n st', NodeOk))" for Q
    by (simp add: run_loop_def Let_def c loop_target_def)
  show ?thesis
  proof (cases "loop_starts ?p EData ?li = []")
    case True
    then have "r = Inr (finish_loop ex n st, NodeOk)" using eq [of P] r by simp
    with eq [of None] True show ?thesis by simp
  next
    case False
    note u = run_iterations_unpaused [where ex = ex and P = P and li = ?li and target = "loop_target n"
        and body = "body_order ex ?li" and k = ?k and it = it and pos = pos and st = ?s, OF refl]
    show ?thesis
    proof (cases "run_iterations ex P ?li (loop_target n) (body_order ex ?li) ?k it pos ?s")
      case (Inl e)
      with u have "run_iterations ex None ?li (loop_target n) (body_order ex ?li) ?k it pos ?s = Inl e" by simp
      with False Inl eq [of P] eq [of None] r show ?thesis by auto
    next
      case (Inr t)
      obtain s e where t: "t = (s, e)" by (cases t)
      show ?thesis
      proof (cases e)
        case None
        with u Inr t have "run_iterations ex None ?li (loop_target n) (body_order ex ?li) ?k it pos ?s = Inr (s, None)"
          by simp
        with False Inr t None eq [of P] eq [of None] r show ?thesis by auto
      next
        case (Some ls)
        have res: "r = Inr (s, NodePaused ls)" using False Inr t Some eq [of P] r by simp
        from u Inr t Some have b: "ls_loop ls = ?li" "ls_iteration ls < it + ?k"
          and go: "loop_var_intact (loop_target n) (ls_iteration ls) s \<Longrightarrow>
            run_iterations ex None ?li (loop_target n) (body_order ex ?li) ?k it pos ?s =
            run_iterations ex None ?li (loop_target n) (body_order ex ?li) (it + ?k - ls_iteration ls)
              (ls_iteration ls) (ls_body_position ls) s" by simp_all
        have sub: "set (body_order ex ?li) \<subseteq> loop_body ?p ?li" by (auto simp: body_order_def)
        from run_iterations_body [OF ind sub Inr [unfolded t]]
        have f: "x_skipped s = x_skipped st \<union> loop_body ?p ?li"
          "\<forall>j. j \<notin> loop_body ?p ?li \<longrightarrow> map_of (x_outs s) j = map_of (x_outs st) j"
          by (simp_all add: body_frame_def)
        have m: "loop_iterations ?p (x_outs s) n = loop_iterations ?p (x_outs st) n"
          by (rule loop_iterations_stable [OF st f(2)])
        have sk: "s\<lparr>x_skipped := x_skipped s \<union> loop_body ?p ?li\<rparr> = s" using f(1) by simp
        have "?k \<noteq> 0" using Inr t Some by (cases ?k) auto
        then have k: "it + ?k = loop_iterations ?p (x_outs s) n" using m by simp
        have "run_loop ex None (Some (cursor_of ls)) n s = bind_res
            (run_iterations ex None ?li (loop_target n) (body_order ex ?li) (it + ?k - ls_iteration ls)
              (ls_iteration ls) (ls_body_position ls) s)
            (\<lambda>(st', e). case e of Some ls \<Rightarrow> Inr (st', NodePaused ls) | None \<Rightarrow> Inr (finish_loop ex n st', NodeOk))"
          using False sk k by (simp add: run_loop_def Let_def loop_target_def cursor_of_def)
        with go have "loop_var_intact (loop_target n) (ls_iteration ls) s \<longrightarrow>
            run_loop ex None cursor n st = run_loop ex None (Some (cursor_of ls)) n s"
          using False eq [of None] by simp
        then show ?thesis using b(1) unfolding res by simp
      qed
    qed
  qed
qed

text \<open>Without a policy, and under the default one, nothing pauses.\<close>

lemma not_pauses [simp]: "\<not> pauses None c i" "\<not> pauses (Some pause_policy_default) c i"
  by (simp_all add: pauses_def should_pause_def pause_policy_default_def)

lemma run_body_default:
  "run_body ex P li it xs st = run_body ex None li it xs st"
  "run_body ex P li it xs st \<noteq> Inr (s, BodyPaused ls)"
  if "\<And>c i. \<not> pauses P c i"
proof -
  have "run_body ex P li it xs st = run_body ex None li it xs st \<and>
      (\<forall>s ls. run_body ex None li it xs st \<noteq> Inr (s, BodyPaused ls))"
    using that
  proof (induction ex P li it xs st rule: run_body.induct)
    case (1 ex pause li it st)
    then show ?case by simp
  next
    case (2 ex P li it pos i rest st)
    show ?case
    proof (cases "get_node (e_plan ex) i")
      case None
      then show ?thesis by simp
    next
      case n: (Some n)
      show ?thesis
      proof (cases "branch_mismatch (e_plan ex) (x_outs st) (cn_op n) i")
        case True
        from "2.IH"(1) [OF n True "2.prems"]
        have "run_body ex P li it rest st = run_body ex None li it rest st"
          "\<forall>s ls. run_body ex None li it rest st \<noteq> Inr (s, BodyPaused ls)" by auto
        with n True show ?thesis by simp
      next
        case False
        show ?thesis
        proof (cases "bind_res (charge ex (cn_index n) st) (body_node ex n)")
          case (Inl e)
          with n False show ?thesis by simp
        next
          case (Inr t)
          obtain s fl where t: "t = (s, fl)" by (cases t)
          with n False Inr "2.prems" "2.IH"(2,3) [OF n False Inr [unfolded t] refl] show ?thesis
            by (cases fl) simp_all
        qed
      qed
    qed
  qed
  then show "run_body ex P li it xs st = run_body ex None li it xs st"
    "run_body ex P li it xs st \<noteq> Inr (s, BodyPaused ls)" by simp_all
qed

lemma run_iterations_default:
  assumes "\<And>c i. \<not> pauses P c i"
  shows "run_iterations ex P li target body k it pos st = run_iterations ex None li target body k it pos st"
proof (induction k arbitrary: it pos st)
  case 0
  then show ?case by simp
next
  case (Suc k)
  show ?case
    unfolding run_iterations.simps run_body_default(1) [OF assms] Suc.IH ..
qed

lemma run_iterations_none: "run_iterations ex None li target body k it pos st \<noteq> Inr (s, Some ls)"
proof (induction k arbitrary: it pos st)
  case 0
  then show ?case by simp
next
  case (Suc k)
  show ?case
  proof
    assume "run_iterations ex None li target body (Suc k) it pos st = Inr (s, Some ls)"
    then obtain s1 e where
      b: "run_body ex None li it (drop pos (enumerate 0 body)) (set_var_opt target (VInt (int it)) st) = Inr (s1, e)"
      and c: "(case e of
          BodyDone \<Rightarrow> run_iterations ex None li target body k (Suc it) 0 s1
        | BodyBreak \<Rightarrow> Inr (s1, None)
        | BodyPaused ls \<Rightarrow> Inr (s1, Some ls)) = Inr (s, Some ls)"
      by (auto simp: bind_res_Inr)
    from b run_body_default(2) [of None] have "e \<noteq> BodyPaused l" for l by auto
    with c Suc.IH show False by (cases e) auto
  qed
qed

lemma run_loop_default:
  assumes "\<And>c i. \<not> pauses P c i"
  shows "run_loop ex P cursor n st = run_loop ex None cursor n st"
  unfolding run_loop_def run_iterations_default [OF assms] ..

lemma run_loop_none: "run_loop ex None cursor n st \<noteq> Inr (s, NodePaused ls)"
proof
  assume a: "run_loop ex None cursor n st = Inr (s, NodePaused ls)"
  obtain it pos where c: "(case cursor of Some c \<Rightarrow> c | None \<Rightarrow> (0, 0)) = (it, pos)"
    by (rule prod.exhaust)
  from a [unfolded run_loop_def Let_def c prod.case bind_res_Inr] obtain t where
    r: "(if loop_starts (e_plan ex) EData (cn_index n) = [] then Inr (st, None)
         else run_iterations ex None (cn_index n) (map_option trim_quotes (find_arg n ''target''))
           (body_order ex (cn_index n)) (loop_iterations (e_plan ex) (x_outs st) n - it) it pos
           (st\<lparr>x_skipped := x_skipped st \<union> loop_body (e_plan ex) (cn_index n)\<rparr>)) = Inr t"
    and f: "(case t of (st', e) \<Rightarrow> (case e of Some ls \<Rightarrow> Inr (st', NodePaused ls)
        | None \<Rightarrow> Inr (finish_loop ex n st', NodeOk))) = (Inr (s, NodePaused ls) :: exec_error + xst \<times> node_outcome)"
    by blast
  from f obtain l where "t = (s, Some l)" by (auto split: prod.splits option.splits)
  with r run_iterations_none show False by (auto split: if_splits)
qed

lemma run_arm_default:
  assumes "\<And>c i. \<not> pauses P c i"
  shows "run_arm run ex P n st = run_arm run ex None n st"
  unfolding run_arm_def run_loop_default [OF assms] ..

lemma run_arm_none: "run_arm run ex None n st \<noteq> Inr (s, NodePaused ls)"
  by (cases "cn_op n") (simp_all add: run_arm_def with_ok_def bind_res_Inr run_loop_none)

lemma run_node_default:
  assumes "\<And>c i. \<not> pauses P c i"
  shows "run_node k ex P n st = run_node k ex None n st"
  by (cases k) (simp_all add: run_node_step_def run_arm_default [OF assms])

lemma run_node_none: "run_node k ex None n st \<noteq> Inr (s, NodePaused ls)"
  by (cases k) (simp_all add: run_node_step_def bind_res_Inr run_arm_none)

lemma run_node_unpaused:
  assumes ind: "plan_indexed (e_plan ex)" and st: "bound_stable ex (cn_index n)"
    and r: "run_node k ex P n st = r"
  shows "case r of
      Inl e \<Rightarrow> run_node k ex None n st = Inl e
    | Inr (s, NodeOk) \<Rightarrow> run_node k ex None n st = Inr (s, NodeOk)
    | Inr (s, NodePaused ls) \<Rightarrow> ls_loop ls = cn_index n \<and>
        (loop_var_intact (loop_target n) (ls_iteration ls) s \<longrightarrow>
         run_node k ex None n st = run_loop ex None (Some (cursor_of ls)) n s)"
proof (cases k)
  case 0
  with r show ?thesis by auto
next
  case (Suc m)
  show ?thesis
  proof (cases "cn_op n = Loop \<and> \<not> skipped ex n st")
    case False
    then have eq: "run_node k ex Q n st = run_node k ex None n st" for Q
      by (cases "cn_op n") (simp_all add: Suc run_node_step_def run_arm_def)
    show ?thesis
    proof (cases "run_node k ex None n st")
      case (Inl e)
      with r eq [of P] show ?thesis by auto
    next
      case (Inr t)
      with run_node_none [of k ex n st] obtain s where "t = (s, NodeOk)" by (cases t; cases "snd t") auto
      with Inr have n: "run_node k ex None n st = Inr (s, NodeOk)" by simp
      with r eq [of P] have "r = Inr (s, NodeOk)" by simp
      with n show ?thesis by simp
    qed
  next
    case True
    show ?thesis
    proof (cases "bind_res (charge ex (cn_index n) st) (check_memory ex)")
      case (Inl e)
      with True Suc r show ?thesis by (auto simp: run_node_step_def)
    next
      case (Inr s1)
      have eq: "run_node k ex Q n st = run_loop ex Q None n (enter_node n s1)" for Q
        using True Suc Inr by (simp add: run_node_step_def run_arm_def)
      from run_loop_unpaused [OF ind st r [unfolded eq]] show ?thesis unfolding eq .
    qed
  qed
qed

section \<open>The length of the control counters\<close>

lemma merge_control_length: "length i = n \<Longrightarrow> length f = n \<Longrightarrow> length c = n \<Longrightarrow> length (merge_control i f c) = n"
  by (simp add: merge_control_def)

lemma enable_children_propagates: "propagates st (enable_children p i st)"
  unfolding enable_children_def by (rule propagates_fold) simp

lemma run_thread_control:
  assumes "run_thread run p g st = Inr st'"
    and "\<And>n st st' out. run n st = Inr (st', out) \<Longrightarrow> length (x_control st') = length (x_control st)"
  shows "length (x_control st') = length (x_control st)"
  using assms(1) unfolding run_thread_def
  by (rule fold_res_invariant [where P = "\<lambda>s. length (x_control s) = length (x_control st)"])
    (auto simp: bind_res_Inr split: option.splits dest: assms(2))

lemma map_res_all:
  "map_res f xs = Inr ys \<Longrightarrow> (\<And>x y. f x = Inr y \<Longrightarrow> Q y) \<Longrightarrow> \<forall>y \<in> set ys. Q y"
  by (induction xs arbitrary: ys) (auto simp: bind_res_Inr)

lemma merge_threads_control:
  "\<forall>r \<in> set rs. length (x_control (snd r)) = length ic \<Longrightarrow> length (x_control st) = length ic \<Longrightarrow>
   length (x_control (fold (merge_thread ic) rs st)) = length ic"
proof (induction rs arbitrary: st)
  case Nil
  then show ?case by simp
next
  case (Cons r rs)
  have "length (x_control (merge_thread ic r st)) = length ic"
    using Cons.prems by (cases r) (simp add: merge_thread_def merge_control_length)
  with Cons show ?case by simp
qed

lemma run_parallel_control:
  assumes r: "run_parallel run ex n st = Inr st'"
    and "\<And>n st st' out. run n st = Inr (st', out) \<Longrightarrow> length (x_control st') = length (x_control st)"
  shows "length (x_control st') = length (x_control st)"
proof -
  define s1 where "s1 = set_out (cn_index n) VNull (enable_children (e_plan ex) (cn_index n)
    (st\<lparr>x_ctx := enter_parallel (x_ctx st)\<rparr>))"
  have l1: "length (x_control s1) = length (x_control st)"
    using enable_children_propagates [of "st\<lparr>x_ctx := enter_parallel (x_ctx st)\<rparr>" "e_plan ex" "cn_index n"]
    by (simp add: s1_def set_out_def propagates_def)
  define s2 where "s2 = s1\<lparr>x_skipped := x_skipped s1 \<union> set (branch_region ex (cn_index n))\<rparr>"
  have c2: "x_control s2 = x_control s1" by (simp add: s2_def)
  show ?thesis
  proof (cases "branch_ids ex (cn_index n) = []")
    case True
    with r l1 show ?thesis by (simp add: run_parallel_def Let_def s1_def)
  next
    case False
    let ?f = "\<lambda>b. bind_res (run_thread run (e_plan ex) (branch_group ex (cn_index n) b)
        (thread_state ex (cn_index n) s2 b)) (\<lambda>t. Inr (b, t))"
    from r False obtain rs where rs: "map_res ?f (branch_ids ex (cn_index n)) = Inr rs"
      and st': "st' = fold (merge_thread (x_control s2)) rs s2"
      by (auto simp: run_parallel_def Let_def s1_def [symmetric] s2_def [symmetric] c2 bind_res_Inr)
    have "\<forall>r \<in> set rs. length (x_control (snd r)) = length (x_control s2)"
    proof (rule map_res_all [OF rs])
      fix b y assume "?f b = Inr y"
      then obtain t where "run_thread run (e_plan ex) (branch_group ex (cn_index n) b)
          (thread_state ex (cn_index n) s2 b) = Inr t" "y = (b, t)" by (auto simp: bind_res_Inr)
      with run_thread_control [OF this(1) assms(2)]
      show "length (x_control (snd y)) = length (x_control s2)"
        by (simp add: thread_state_def Let_def)
    qed
    from merge_threads_control [OF this refl] st' l1 show ?thesis by (simp add: s2_def)
  qed
qed

lemma run_node_control:
  "run_node k ex P n st = Inr (st', out) \<Longrightarrow> plan_indexed (e_plan ex) \<Longrightarrow>
   length (x_control st') = length (x_control st)"
proof (induction k arbitrary: P n st st' out)
  case 0
  then show ?case by simp
next
  case (Suc k)
  show ?case
  proof (cases "cn_op n = Parallel \<and> \<not> skipped ex n st")
    case False
    then show ?thesis
      using Suc.prems run_node_step_cases [of ex n "run_node k ex None" P st st' out]
      by (cases "cn_op n = Parallel") (auto simp: node_ran_def run_node_step_def)
  next
    case True
    with Suc.prems obtain s1 where s1: "bind_res (charge ex (cn_index n) st) (check_memory ex) = Inr s1"
      and r: "run_parallel (run_node k ex None) ex n (enter_node n s1) = Inr st'"
      by (auto simp: run_node_step_def run_arm_def with_ok_def bind_res_Inr)
    have "length (x_control (enter_node n s1)) = length (x_control st)"
      using enter_charged [OF s1, of n] by (metis xst.select_convs(5) xst.surjective xst.update_convs(1,3,7))
    with run_parallel_control [OF r] Suc.IH Suc.prems(2) show ?thesis by metis
  qed
qed

section \<open>Segments refine the uninterrupted run\<close>

text \<open>What is left to run after a checkpoint.\<close>

definition remaining :: "executor \<Rightarrow> checkpoint \<Rightarrow> step" where
  "remaining ex ck =
     (let p = e_plan ex; st = restored_state p ck; pos = ck_position ck in
      case ck_loop_state ck of
        None \<Rightarrow> pass ex (drop pos (e_order ex)) st
      | Some ls \<Rightarrow>
          (case get_node p (ls_loop ls) of
             None \<Rightarrow> Inl (NodeNotFound (''loop '' @ show_nat (ls_loop ls)))
           | Some n \<Rightarrow>
               bind_res (run_loop ex None (Some (cursor_of ls)) n st)
                 (\<lambda>(st', _). pass ex (drop (Suc pos) (e_order ex)) st')))"

text \<open>A checkpoint inside a loop is faithful when the body has not overwritten the loop variable.\<close>

definition checkpoint_intact :: "compiled_plan \<Rightarrow> checkpoint \<Rightarrow> bool" where
  "checkpoint_intact p ck \<longleftrightarrow>
     (case ck_loop_state ck of
        None \<Rightarrow> True
      | Some ls \<Rightarrow>
          (case get_node p (ls_loop ls) of
             None \<Rightarrow> False
           | Some n \<Rightarrow> loop_var_intact (loop_target n) (ls_iteration ls) (restored_state p ck)))"

definition bounds_stable :: "executor \<Rightarrow> bool" where
  "bounds_stable ex \<longleftrightarrow> (\<forall>i < length (cp_nodes (e_plan ex)). bound_stable ex i)"

lemma restored_build:
  "length (cp_nodes p) \<le> length (x_control st) \<Longrightarrow>
   restored_state p (build_checkpoint st pos el ls) = st"
  by (simp add: restored_state_def build_checkpoint_def)

text \<open>A segment refines what it was to run: same error, same result, or the same remainder.\<close>

definition segment_refines :: "executor \<Rightarrow> step \<Rightarrow> exec_error + execution_outcome \<Rightarrow> bool" where
  "segment_refines ex spec r \<longleftrightarrow>
     (case r of
        Inl e \<Rightarrow> spec = Inl e
      | Inr (Completed res) \<Rightarrow> (\<exists>st. spec = Inr st \<and> res = result_of st)
      | Inr (Paused ck) \<Rightarrow> checkpoint_intact (e_plan ex) ck \<longrightarrow> spec = remaining ex ck)"

lemma run_from_pass:
  assumes ind: "plan_indexed (e_plan ex)" and bs: "bounds_stable ex"
  shows "drop pos (e_order ex) = is \<Longrightarrow> length (cp_nodes (e_plan ex)) \<le> length (x_control st) \<Longrightarrow>
    segment_refines ex (pass ex is st) (run_from ex P pos is st)"
proof (induction "is" arbitrary: pos st)
  case Nil
  then show ?case by (simp add: segment_refines_def)
next
  case (Cons i rest)
  let ?p = "e_plan ex" and ?F = "node_fuel (e_plan ex)"
  have dr: "drop (Suc pos) (e_order ex) = rest"
    using Cons.prems(1) by (metis drop_Suc list.sel(3) tl_drop)
  show ?case
  proof (cases "get_node ?p i")
    case None
    then show ?thesis by (simp add: segment_refines_def)
  next
    case (Some n)
    have ci: "cn_index n = i" using ind Some by (rule plan_indexed_get)
    have st: "bound_stable ex (cn_index n)"
      using bs Some by (auto simp: bounds_stable_def get_node_def list_at_Some ci)
    note u = run_node_unpaused [where P = "Some P" and k = ?F and st = st, OF ind st refl]
    have pass: "pass ex (i # rest) st = bind_res (run_node ?F ex None n st) (\<lambda>(st', _). pass ex rest st')"
      using Some by simp
    show ?thesis
    proof (cases "run_node ?F ex (Some P) n st")
      case (Inl e)
      with u have "run_node ?F ex None n st = Inl e" by simp
      with Inl Some show ?thesis by (simp add: segment_refines_def)
    next
      case (Inr t)
      obtain s out where t: "t = (s, out)" by (cases t)
      have len: "length (cp_nodes ?p) \<le> length (x_control s)"
        using run_node_control [OF Inr [unfolded t] ind] Cons.prems(2) by simp
      show ?thesis
      proof (cases out)
        case NodeOk
        with u Inr t have n: "run_node ?F ex None n st = Inr (s, NodeOk)" by simp
        show ?thesis
        proof (cases "rest \<noteq> [] \<and> should_pause P (x_count s) (cn_id n)")
          case True
          have "remaining ex (build_checkpoint s (Suc pos) el None) = pass ex rest s" for el
            using restored_build [OF len] dr
            by (simp add: remaining_def Let_def) (simp add: build_checkpoint_def)
          with True NodeOk Inr t Some n show ?thesis by (simp add: segment_refines_def)
        next
          case False
          have "run_from ex P pos (i # rest) st = run_from ex P (Suc pos) rest s"
            using False NodeOk Inr t Some by auto
          moreover have "pass ex (i # rest) st = pass ex rest s" using pass n by simp
          ultimately show ?thesis using Cons.IH [OF dr len] by simp
        qed
      next
        case (NodePaused ls)
        with u Inr t have l: "ls_loop ls = i"
          "loop_var_intact (loop_target n) (ls_iteration ls) s \<Longrightarrow>
            run_node ?F ex None n st = run_loop ex None (Some (cursor_of ls)) n s" by (simp_all add: ci)
        let ?ck = "build_checkpoint s pos (checkpoint_elapsed ex i s) (Some ls)"
        have r: "run_from ex P pos (i # rest) st = Inr (Paused ?ck)" using Some Inr t NodePaused by simp
        have ck: "ck_loop_state ?ck = Some ls" "ck_position ?ck = pos" by (simp_all add: build_checkpoint_def)
        have "checkpoint_intact ?p ?ck \<Longrightarrow> pass ex (i # rest) st = remaining ex ?ck"
          using l(2) by (simp add: checkpoint_intact_def remaining_def Let_def ck l(1) Some restored_build [OF len] dr pass)
        with r show ?thesis by (simp add: segment_refines_def)
      qed
    qed
  qed
qed

lemma run_from_default:
  "run_from ex pause_policy_default pos is st = completed (pass ex is st)"
proof (induction "is" arbitrary: pos st)
  case Nil
  then show ?case by (simp add: completed_def)
next
  case (Cons i rest)
  show ?case
  proof (cases "get_node (e_plan ex) i")
    case None
    then show ?thesis by (simp add: completed_def)
  next
    case (Some n)
    let ?F = "node_fuel (e_plan ex)"
    have eq: "run_node ?F ex (Some pause_policy_default) n st = run_node ?F ex None n st"
      by (rule run_node_default) simp
    have sp: "\<not> should_pause pause_policy_default c i" for c i
      by (simp add: should_pause_def pause_policy_default_def)
    show ?thesis
    proof (cases "run_node ?F ex None n st")
      case (Inl e)
      with Some eq show ?thesis by (simp add: completed_def)
    next
      case (Inr t)
      with run_node_none [of ?F ex n st] obtain s where "t = (s, NodeOk)"
        by (cases t; cases "snd t") auto
      with Some eq Inr Cons.IH sp show ?thesis by (simp add: completed_def)
    qed
  qed
qed

section \<open>Acyclic plans\<close>

lemma path_into:
  assumes "plan_acyclic p" "(a, b) \<in> (edge_rel p)\<^sup>+" "b < length (cp_nodes p)"
  shows "(a, b) \<in> (edges_into {..<length (cp_nodes p)} (plan_edge_pairs p))\<^sup>+ \<and> a < length (cp_nodes p)"
  using assms(2,3)
proof (induction rule: trancl_induct)
  case (base b)
  then have "(a, b) \<in> edges_into {..<length (cp_nodes p)} (plan_edge_pairs p)"
    by (simp add: edges_into_def edge_rel_def)
  with assms(1) show ?case by (force simp: plan_acyclic_def Let_def)
next
  case (step b c)
  then have bc: "(b, c) \<in> edges_into {..<length (cp_nodes p)} (plan_edge_pairs p)"
    by (simp add: edges_into_def edge_rel_def)
  with assms(1) have "b < length (cp_nodes p)" by (force simp: plan_acyclic_def Let_def)
  with step.IH bc show ?case by (meson trancl.trancl_into_trancl)
qed

lemma no_cycle: "plan_acyclic p \<Longrightarrow> i < length (cp_nodes p) \<Longrightarrow> (i, i) \<notin> (edge_rel p)\<^sup>+"
  using path_into [of p i i] by (auto simp: plan_acyclic_def Let_def acyclic_def)

lemma reach_trancl: "(i, a) \<in> edge_rel p \<Longrightarrow> b \<in> (edge_rel p)\<^sup>* `` {a} \<Longrightarrow> (i, b) \<in> (edge_rel p)\<^sup>+"
  by (auto intro: rtrancl_into_trancl2)

lemma loop_body_reach: "j \<in> loop_body p i \<Longrightarrow> (i, j) \<in> (edge_rel p)\<^sup>+"
proof -
  assume "j \<in> loop_body p i"
  then obtain a where "a \<in> set (loop_starts p EData i)" "(a, j) \<in> (edge_rel p)\<^sup>*"
    by (auto simp: loop_body_eq)
  moreover then have "(i, a) \<in> edge_rel p"
    by (auto simp: loop_starts_def edge_rel_def plan_edge_pairs_def)
  ultimately show ?thesis by (auto intro: rtrancl_into_trancl2)
qed

lemma acyclic_bounds_stable: "plan_acyclic (e_plan ex) \<Longrightarrow> bounds_stable ex"
  unfolding bounds_stable_def bound_stable_def
proof (intro allI impI ballI notI)
  fix i e
  assume a: "plan_acyclic (e_plan ex)" "i < length (cp_nodes (e_plan ex))"
    "e \<in> set (cp_edges (e_plan ex))" "ce_to e = i" "ce_from e \<in> loop_body (e_plan ex) i"
  then have "(i, ce_from e) \<in> (edge_rel (e_plan ex))\<^sup>+" by (simp add: loop_body_reach)
  moreover have "(ce_from e, i) \<in> edge_rel (e_plan ex)"
    using a(3,4) by (auto simp: edge_rel_def plan_edge_pairs_def)
  ultimately have "(i, i) \<in> (edge_rel (e_plan ex))\<^sup>+" by (rule trancl_into_trancl)
  with no_cycle [OF a(1,2)] show False by simp
qed

section \<open>Pause and resume\<close>

lemma plan_order_acyclic: "plan_sized p \<Longrightarrow> plan_order p = Inr ord \<Longrightarrow> plan_acyclic p"
  using topological_order_iff(1) [of p] by (auto simp: plan_order_def split: option.splits)

lemma initial_control: "length (x_control (initial_state p inputs)) = length (cp_nodes p)"
  by (simp add: initial_state_def)

lemma execute_with_segment:
  assumes "plan_sized p" "plan_indexed p" "checked_version p = Inr u" "plan_order p = Inr ord"
  shows "segment_refines (make_executor p w ord)
    (pass (make_executor p w ord) ord (initial_state p inputs)) (execute_with p w inputs policy)"
proof -
  let ?ex = "make_executor p w ord"
  have e: "e_plan ?ex = p" "e_order ?ex = ord" by (simp_all add: make_executor_def)
  have "bounds_stable ?ex"
    using acyclic_bounds_stable [of ?ex] plan_order_acyclic [OF assms(1,4)] by (simp add: e)
  then have "segment_refines ?ex (pass ?ex ord (initial_state p inputs))
      (run_from ?ex policy 0 ord (initial_state p inputs))"
    using assms(2) by (intro run_from_pass) (simp_all add: e initial_control)
  then show ?thesis using assms(3,4) by (simp add: execute_with_def)
qed

lemma resume_default:
  assumes "checked_version p = Inr u" "plan_order p = Inr ord" "checkpoint_intact p ck"
  shows "resume p w ck pause_policy_default = completed (remaining (make_executor p (resumed_world w ck) ord) ck)"
proof -
  let ?ex = "make_executor p (resumed_world w ck) ord"
  have e: "e_plan ?ex = p" "e_order ?ex = ord" by (simp_all add: make_executor_def)
  show ?thesis
  proof (cases "ck_loop_state ck")
    case None
    then show ?thesis using assms(1,2)
      by (simp add: resume_def remaining_def Let_def run_from_default e)
  next
    case (Some ls)
    with assms(3) obtain n where n: "get_node p (ls_loop ls) = Some n"
      by (auto simp: checkpoint_intact_def split: option.splits)
    let ?r = "run_loop ?ex None (Some (cursor_of ls)) n (restored_state p ck)"
    have eq: "run_loop ?ex (Some pause_policy_default) (Some (ls_iteration ls, ls_body_position ls)) n
        (restored_state p ck) = ?r"
      unfolding cursor_of_def by (rule run_loop_default) simp
    show ?thesis
    proof (cases ?r)
      case (Inl e)
      with Some n eq assms(1,2) show ?thesis
        by (simp add: resume_def remaining_def Let_def e completed_def)
    next
      case (Inr t)
      with run_loop_none [of ?ex "Some (cursor_of ls)" n "restored_state p ck"] obtain s where "t = (s, NodeOk)"
        by (cases t; cases "snd t") auto
      with Some n eq Inr assms(1,2) show ?thesis
        by (simp add: resume_def remaining_def Let_def e completed_def run_from_default)
    qed
  qed
qed

lemma resume_equiv:
  assumes "plan_sized p" "plan_indexed p" "execute_with p w inputs policy = Inr (Paused ck)"
    and "checkpoint_intact p ck" "resumed_world w' ck = w"
  shows "resume p w' ck pause_policy_default = execute_with p w inputs pause_policy_default"
proof -
  from assms(3) obtain u ord where o: "checked_version p = Inr u" "plan_order p = Inr ord"
    by (auto simp: execute_with_def bind_res_Inr)
  have e: "e_plan (make_executor p w ord) = p" by (simp add: make_executor_def)
  from execute_with_segment [OF assms(1,2) o, of w inputs policy] assms(3,4)
  have "pass (make_executor p w ord) ord (initial_state p inputs) = remaining (make_executor p w ord) ck"
    by (simp add: segment_refines_def e)
  moreover have "execute_with p w inputs pause_policy_default =
      completed (pass (make_executor p w ord) ord (initial_state p inputs))"
    using o by (simp add: execute_with_def run_from_default)
  ultimately show ?thesis using resume_default [OF o assms(4), of w'] by (simp add: assms(5))
qed

lemma unpaused_segment:
  assumes "plan_sized p" "plan_indexed p"
    and "\<And>ck. execute_with p w inputs policy \<noteq> Inr (Paused ck)"
  shows "execute_with p w inputs policy = execute_with p w inputs pause_policy_default"
proof (cases "is_ok (checked_version p) \<and> is_ok (plan_order p)")
  case True
  then obtain u ord where o: "checked_version p = Inr u" "plan_order p = Inr ord"
    by (auto simp: is_ok_def split: sum.splits)
  from execute_with_segment [OF assms(1,2) o, of w inputs policy] assms(3)
  have "execute_with p w inputs policy =
      completed (pass (make_executor p w ord) ord (initial_state p inputs))"
    by (auto simp: segment_refines_def completed_def split: sum.splits execution_outcome.splits)
  then show ?thesis using o by (simp add: execute_with_def run_from_default)
next
  case False
  then show ?thesis by (auto simp: execute_with_def is_ok_def split: sum.splits)
qed

lemma default_not_paused: "execute_with p w inputs pause_policy_default \<noteq> Inr (Paused ck)"
  by (auto simp: execute_with_def bind_res_Inr run_from_default completed_def split: sum.splits)

end
