(* ===== verification/Termination.thy ===== *)
theory Termination
  imports Runs
begin

text \<open>
  The recursion bound of the interpreter is enough.  Only \<open>PARALLEL\<close> recurses, on nodes
  reachable from it; in an acyclic plan the number of reachable nodes strictly decreases
  (\<open>rank\<close>), so one unit of fuel per node suffices: no run ends in \<open>OutOfFuel\<close>, and more fuel
  changes nothing.  With the loops bounded by their iteration counts, every call of
  \<open>execute_with\<close> and \<open>resume\<close> returns.
\<close>

section \<open>Ranks\<close>

definition rank :: "compiled_plan \<Rightarrow> u32 \<Rightarrow> nat" where
  "rank p i = card ({j. (i, j) \<in> (edge_rel p)\<^sup>+} \<inter> {..<length (cp_nodes p)})"

lemma rank_bound: "rank p i \<le> length (cp_nodes p)"
  unfolding rank_def by (metis card_lessThan card_mono finite_lessThan inf_le2)

lemma rank_less:
  assumes "plan_acyclic p" "(i, j) \<in> (edge_rel p)\<^sup>+" "j < length (cp_nodes p)"
  shows "rank p j < rank p i"
  unfolding rank_def
proof (rule psubset_card_mono)
  let ?R = "\<lambda>i. {j. (i, j) \<in> (edge_rel p)\<^sup>+} \<inter> {..<length (cp_nodes p)}"
  have "?R j \<subseteq> ?R i" using assms(2) by (auto intro: trancl_trans)
  moreover have "j \<in> ?R i" "j \<notin> ?R j" using assms no_cycle by auto
  ultimately show "?R j \<subset> ?R i" by blast
qed simp

lemma branch_region_reach:
  assumes "j \<in> set (branch_region ex i)"
  shows "(i, j) \<in> (edge_rel (e_plan ex))\<^sup>+" and "j < length (cp_nodes (e_plan ex))"
proof -
  from assms obtain a where a: "a \<in> set (children (e_plan ex) i)" "(a, j) \<in> (edge_rel (e_plan ex))\<^sup>*"
    by (auto simp: branch_region_def Let_def collect_reachable_indices)
  then have "(i, a) \<in> edge_rel (e_plan ex)"
    by (auto simp: children_def edges_from_def edge_rel_def plan_edge_pairs_def)
  with a(2) show "(i, j) \<in> (edge_rel (e_plan ex))\<^sup>+" by (rule rtrancl_into_trancl2 [rotated])
  from assms show "j < length (cp_nodes (e_plan ex))"
    by (auto simp: branch_region_def Let_def branch_at_def get_node_def list_at_def split: if_splits)
qed

section \<open>More fuel changes nothing\<close>

lemma run_thread_cong:
  assumes "\<And>j n st. j \<in> set g \<Longrightarrow> get_node p j = Some n \<Longrightarrow> run n st = run' n st"
  shows "run_thread run p g st = run_thread run' p g st"
  unfolding run_thread_def
  by (rule fold_res_cong) (simp add: assms split: option.split)

lemma run_parallel_cong:
  assumes "\<And>j n st. j \<in> set (branch_region ex (cn_index m)) \<Longrightarrow> get_node (e_plan ex) j = Some n \<Longrightarrow>
    run n st = run' n st"
  shows "run_parallel run ex m st = run_parallel run' ex m st"
proof -
  have "run_thread run (e_plan ex) (branch_group ex (cn_index m) b) s =
      run_thread run' (e_plan ex) (branch_group ex (cn_index m) b) s" for b s
    by (rule run_thread_cong) (auto simp: branch_group_def intro: assms)
  then show ?thesis by (simp only: run_parallel_def Let_def)
qed

lemma run_node_fuel_agree:
  assumes ind: "plan_indexed (e_plan ex)" and ac: "plan_acyclic (e_plan ex)"
  shows "rank (e_plan ex) (cn_index n) < k \<Longrightarrow> rank (e_plan ex) (cn_index n) < m \<Longrightarrow>
    run_node k ex P n st = run_node m ex P n st"
proof (induction k arbitrary: m n P st)
  case 0
  then show ?case by simp
next
  case (Suc k)
  from Suc.prems(2) obtain l where m: "m = Suc l" by (cases m) auto
  have "run_parallel (run_node k ex None) ex n s = run_parallel (run_node l ex None) ex n s" for s
  proof (rule run_parallel_cong)
    fix j n' st'
    assume j: "j \<in> set (branch_region ex (cn_index n))" "get_node (e_plan ex) j = Some n'"
    from rank_less [OF ac branch_region_reach [OF j(1)]] plan_indexed_get [OF ind j(2)] Suc.prems m
    show "run_node k ex None n' st' = run_node l ex None n' st'" by (intro Suc.IH) auto
  qed
  then have "run_arm (run_node k ex None) ex P n s = run_arm (run_node l ex None) ex P n s" for s
    by (simp only: run_arm_def)
  then show ?case by (simp only: m run_node.simps run_node_step_def)
qed

section \<open>No run is out of fuel\<close>

definition fuel_ok :: "exec_error + 'a \<Rightarrow> bool" where
  "fuel_ok r \<longleftrightarrow> r \<noteq> Inl OutOfFuel"

definition world_ok :: "world \<Rightarrow> bool" where
  "world_ok w \<longleftrightarrow> json_strings_shrink (w_json_string w)"

lemma fuel_ok_simps [simp]: "fuel_ok (Inr x)" "fuel_ok (Inl e) \<longleftrightarrow> e \<noteq> OutOfFuel"
  by (simp_all add: fuel_ok_def)

lemma fuel_ok_bind: "fuel_ok r \<Longrightarrow> (\<And>x. r = Inr x \<Longrightarrow> fuel_ok (f x)) \<Longrightarrow> fuel_ok (bind_res r f)"
  by (cases r) simp_all

lemma fuel_ok_fold: "(\<And>x s. x \<in> set xs \<Longrightarrow> fuel_ok (f x s)) \<Longrightarrow> fuel_ok (fold_res f xs s)"
  by (induction xs arbitrary: s) (auto intro!: fuel_ok_bind)

lemma fuel_ok_map: "(\<And>x. x \<in> set xs \<Longrightarrow> fuel_ok (f x)) \<Longrightarrow> fuel_ok (map_res f xs)"
  by (induction xs) (auto intro!: fuel_ok_bind)

lemma eval_in_fuel: "world_ok (e_world ex) \<Longrightarrow> fuel_ok (eval_in ex st e)"
  using err_ok_eval [of "w_json_string (e_world ex)" "x_ctx st" "x_outs st" e]
  by (cases "eval_in ex st e") (auto simp: eval_in_def world_ok_def)

lemma charge_fuel [simp]: "fuel_ok (charge ex i st)"
  by (simp add: charge_def Let_def)

lemma check_memory_fuel [simp]: "fuel_ok (check_memory ex st)"
  by (simp add: check_memory_def Let_def)

lemma propagate_edges_fuel: "world_ok (e_world ex) \<Longrightarrow> fuel_ok (propagate_edges ex n st)"
  by (auto simp: propagate_edges_def propagate_edge_def edge_enables_def
      intro!: fuel_ok_fold fuel_ok_bind eval_in_fuel split: option.split bool.split tp_value.split)

lemma calc_value_fuel: "world_ok (e_world ex) \<Longrightarrow> fuel_ok (calc_value ex n st)"
  by (auto simp: calc_value_def Let_def intro!: fuel_ok_bind eval_in_fuel split: option.split)

lemma subgraph_call_fuel [simp]: "fuel_ok (subgraph_call ex n name ps st)"
  by (auto simp: subgraph_call_def Let_def split: sum.split)

lemma dispatch_call_fuel [simp]: "fuel_ok (dispatch_call ex n t ps fb st)"
  by (auto simp: dispatch_call_def split: sum.split option.split)

lemma schema_drift_fuel: "schema_drift ex n t st = Some e \<Longrightarrow> e \<noteq> OutOfFuel"
  by (auto simp: schema_drift_def Let_def split: if_splits option.splits)

lemma run_call_fuel: "world_ok (e_world ex) \<Longrightarrow> fuel_ok (run_call ex n st)"
  by (auto simp: run_call_def Let_def intro!: fuel_ok_bind propagate_edges_fuel
      split: option.split dest: schema_drift_fuel)

lemma arms_fuel:
  assumes "world_ok (e_world ex)"
  shows "fuel_ok (run_input ex n st)" "fuel_ok (run_calc ex n st)" "fuel_ok (run_decide ex n st)"
    "fuel_ok (run_act ex n st)" "fuel_ok (run_switch ex n st)" "fuel_ok (run_wait ex n st)"
    "fuel_ok (run_merge ex n st)"
  using assms
  by (auto simp: run_input_def run_calc_def run_decide_def run_act_def run_switch_def run_wait_def
      run_merge_def Let_def case_prod_beta intro!: fuel_ok_bind propagate_edges_fuel calc_value_fuel)

lemma body_node_fuel: "world_ok (e_world ex) \<Longrightarrow> fuel_ok (body_node ex n st)"
  by (cases "cn_op n") (auto simp: body_node_def body_call_def body_decide_def Let_def
      intro!: fuel_ok_bind calc_value_fuel eval_in_fuel split: option.split)

lemma run_body_fuel: "world_ok (e_world ex) \<Longrightarrow> fuel_ok (run_body ex P li it xs st)"
proof (induction ex P li it xs st rule: run_body.induct)
  case (1 ex P li it st)
  then show ?case by simp
next
  case (2 ex P li it pos i rest st)
  show ?case
  proof (cases "get_node (e_plan ex) i")
    case None
    then show ?thesis by simp
  next
    case n: (Some n)
    show ?thesis
    proof (cases "branch_mismatch (e_plan ex) (x_outs st) (cn_op n) i")
      case True
      with n "2.IH"(1) [OF n True "2.prems"] show ?thesis by simp
    next
      case False
      have "fuel_ok (bind_res (charge ex (cn_index n) st) (body_node ex n))"
        by (rule fuel_ok_bind) (simp_all add: body_node_fuel "2.prems")
      then show ?thesis
      proof (cases "bind_res (charge ex (cn_index n) st) (body_node ex n)")
        case (Inl e)
        with \<open>fuel_ok (bind_res _ _)\<close> n False show ?thesis by simp
      next
        case (Inr t)
        obtain s fl where t: "t = (s, fl)" by (cases t)
        with n False Inr "2.IH"(2) [OF n False Inr [unfolded t] refl _ _ "2.prems"]
          "2.IH"(3) [OF n False Inr [unfolded t] refl _ "2.prems"] show ?thesis
          by (cases fl) simp_all
      qed
    qed
  qed
qed

lemma run_iterations_fuel:
  assumes "world_ok (e_world ex)"
  shows "fuel_ok (run_iterations ex P li target body k it pos st)"
proof (induction k arbitrary: it pos st)
  case 0
  then show ?case by simp
next
  case (Suc k)
  then show ?case
    by (auto intro!: fuel_ok_bind run_body_fuel assms split: body_end.split)
qed

lemma run_loop_fuel: "world_ok (e_world ex) \<Longrightarrow> fuel_ok (run_loop ex P cursor n st)"
  by (auto simp: run_loop_def Let_def intro!: fuel_ok_bind run_iterations_fuel
      split: prod.split option.split)

lemma run_parallel_fuel:
  assumes "\<And>j n st. j \<in> set (branch_region ex (cn_index m)) \<Longrightarrow> get_node (e_plan ex) j = Some n \<Longrightarrow>
    fuel_ok (run n st)"
  shows "fuel_ok (run_parallel run ex m st)"
proof -
  have "fuel_ok (run_thread run (e_plan ex) (branch_group ex (cn_index m) b) s)" for b s
    unfolding run_thread_def
    by (rule fuel_ok_fold)
      (auto simp: branch_group_def split: option.split intro!: fuel_ok_bind intro: assms)
  then show ?thesis
    by (auto simp: run_parallel_def Let_def intro!: fuel_ok_bind fuel_ok_map)
qed

lemma run_node_fuel_ok:
  assumes w: "world_ok (e_world ex)" and ind: "plan_indexed (e_plan ex)" and ac: "plan_acyclic (e_plan ex)"
  shows "rank (e_plan ex) (cn_index n) < k \<Longrightarrow> fuel_ok (run_node k ex P n st)"
proof (induction k arbitrary: n P st)
  case 0
  then show ?case by simp
next
  case (Suc k)
  have "fuel_ok (run_parallel (run_node k ex None) ex n s)" for s
  proof (rule run_parallel_fuel)
    fix j n' st'
    assume j: "j \<in> set (branch_region ex (cn_index n))" "get_node (e_plan ex) j = Some n'"
    from rank_less [OF ac branch_region_reach [OF j(1)]] plan_indexed_get [OF ind j(2)] Suc.prems
    show "fuel_ok (run_node k ex None n' st')" by (intro Suc.IH) auto
  qed
  then have "fuel_ok (run_arm (run_node k ex None) ex P n s)" for s
    using arms_fuel [OF w] run_call_fuel [OF w] run_loop_fuel [OF w]
    by (cases "cn_op n") (auto simp: run_arm_def with_ok_def run_error_def intro!: fuel_ok_bind)
  then show ?case by (auto simp: run_node_step_def intro!: fuel_ok_bind)
qed

lemma run_from_fuel:
  assumes "world_ok (e_world ex)" "plan_indexed (e_plan ex)" "plan_acyclic (e_plan ex)"
  shows "fuel_ok (run_from ex P pos is st)"
proof (induction "is" arbitrary: pos st)
  case Nil
  then show ?case by simp
next
  case (Cons i rest)
  have "fuel_ok (run_node (node_fuel (e_plan ex)) ex (Some P) n s)" for n s
    using rank_bound [of "e_plan ex" "cn_index n"]
    by (intro run_node_fuel_ok assms) (simp add: node_fuel_def)
  with Cons.IH show ?case
    by (auto intro!: fuel_ok_bind split: option.split node_outcome.split)
qed

lemma execute_with_fuel:
  assumes "plan_sized p" "plan_indexed p" "world_ok w"
  shows "fuel_ok (execute_with p w inputs P)"
proof -
  have "fuel_ok (run_from (make_executor p w ord) P 0 ord (initial_state p inputs))"
    if "plan_order p = Inr ord" for ord
    using plan_order_acyclic [OF assms(1) that] assms(2,3)
    by (intro run_from_fuel) (simp_all add: make_executor_def)
  then show ?thesis
    by (auto simp: execute_with_def checked_version_def plan_order_def
        intro!: fuel_ok_bind split: sum.split option.split)
qed

lemma resume_fuel:
  assumes "plan_sized p" "plan_indexed p" "world_ok w"
  shows "fuel_ok (resume p w ck P)"
proof -
  have w: "world_ok (resumed_world w ck)" using assms(3) by (simp add: world_ok_def resumed_world_def)
  have f: "fuel_ok (run_from (make_executor p (resumed_world w ck) ord) P pos is st)"
    if "plan_order p = Inr ord" for ord pos "is" st
    using plan_order_acyclic [OF assms(1) that] assms(2) w
    by (intro run_from_fuel) (simp_all add: make_executor_def)
  have l: "fuel_ok (run_loop (make_executor p (resumed_world w ck) ord) Q c n st)" for ord Q c n st
    using w by (intro run_loop_fuel) (simp add: make_executor_def)
  show ?thesis
    by (auto simp: resume_def checked_version_def Let_def
        intro!: fuel_ok_bind f l split: sum.split option.split node_outcome.split)
      (auto simp: plan_order_def split: option.splits)
qed

end
