(* ===== verification/Compilation.thy ===== *)
theory Compilation
  imports Validator Termination
begin

text \<open>
  From the validator to the executor: what a validated plan means for the compiled plan that
  \<open>from_execution_plan\<close> makes of it and that \<open>CompiledExecutor\<close> runs.
\<close>

section \<open>Positions of a compiled plan\<close>

lemma acyclic_inv_image: "acyclic E \<Longrightarrow> acyclic (inv_image E f)"
proof -
  have "(a, b) \<in> (inv_image E f)\<^sup>+ \<Longrightarrow> (f a, f b) \<in> E\<^sup>+" for a b
    by (induction rule: trancl_induct) (auto intro: trancl_into_trancl)
  then show "acyclic E \<Longrightarrow> acyclic (inv_image E f)" by (auto simp: acyclic_def)
qed

lemma compiled_nodes: "cp_nodes (from_execution_plan aj p opts) = fst (compile_nodes aj 0 (plan_nodes p) ([], []))"
  by (simp add: from_execution_plan_def Let_def split: prod.split)

lemma compiled_edges:
  "cp_edges (from_execution_plan aj p opts) = map (compile_edge (index_ids 0 (plan_nodes p) [])) (plan_edges p)"
  by (simp add: from_execution_plan_def Let_def split: prod.split)

lemma compiled_version: "cp_version (from_execution_plan aj p opts) = 4"
  by (simp add: from_execution_plan_def Let_def split: prod.split)

lemma compiled_length [simp]: "length (cp_nodes (from_execution_plan aj p opts)) = length (plan_nodes p)"
  by (simp add: compiled_nodes)

lemma compiled_indexed:
  "length (plan_nodes p) < u32_modulus \<Longrightarrow> plan_indexed (from_execution_plan aj p opts)"
  using compile_nodes_nth [of _ "plan_nodes p" aj 0 "([], [])"]
  by (simp add: plan_indexed_def compiled_nodes Let_def)

lemma id_index_node:
  assumes "distinct (map node_id ns)" "length ns < u32_modulus" "i \<in> node_id ` set ns"
  shows "id_index (index_ids 0 ns []) i < length ns \<and> node_id (ns ! id_index (index_ids 0 ns []) i) = i"
proof -
  from assms(3) obtain k where k: "k < length ns" "i = node_id (ns ! k)"
    by (auto simp: in_set_conv_nth)
  then show ?thesis
    using index_ids_nth [OF assms(1), of k 0 "[]"] assms(2) by (simp add: id_index_def)
qed

text \<open>No edge into a \<open>LOOP\<close> starts at a node the loop leads to.\<close>

definition no_back_edges :: "execution_plan \<Rightarrow> bool" where
  "no_back_edges p \<longleftrightarrow> (\<forall>e \<in> set (plan_edges p).
     edge_to e \<in> loop_ids p \<longrightarrow> (edge_to e, edge_from e) \<notin> (plan_rel p)\<^sup>*)"

lemma trancl_Un_cases:
  "(x, y) \<in> (A \<union> B)\<^sup>+ \<Longrightarrow>
   (x, y) \<in> A\<^sup>+ \<or> (\<exists>(u, v) \<in> B. (x, u) \<in> (A \<union> B)\<^sup>* \<and> (v, y) \<in> (A \<union> B)\<^sup>*)"
proof (induction rule: trancl_induct)
  case (base y)
  then show ?case by blast
next
  case (step y z)
  show ?case
  proof (cases "(y, z) \<in> B")
    case True
    then show ?thesis using step.hyps(1) by (blast dest: trancl_into_rtrancl)
  next
    case False
    then show ?thesis using step.hyps(2) step.IH
      by (auto intro: trancl_into_trancl rtrancl.rtrancl_into_rtrancl)
  qed
qed

lemma plan_rel_acyclic:
  assumes "acyclic (set (id_pairs (acyclic_edges p)))" "no_back_edges p"
  shows "acyclic (plan_rel p)"
proof (rule acyclicI, rule allI, rule notI)
  fix x assume x: "(x, x) \<in> (plan_rel p)\<^sup>+"
  define B where "B = {(u, v) \<in> plan_rel p. v \<in> loop_ids p}"
  have E: "plan_rel p = set (id_pairs (acyclic_edges p)) \<union> B"
    by (auto simp: plan_rel_def B_def id_pairs_def acyclic_edges_def)
  from trancl_Un_cases [OF x [unfolded E]] assms(1)
  obtain u v where "(u, v) \<in> B" "(x, u) \<in> (plan_rel p)\<^sup>*" "(v, x) \<in> (plan_rel p)\<^sup>*"
    unfolding E [symmetric] by (auto simp: acyclic_def)
  moreover then have "(v, u) \<in> (plan_rel p)\<^sup>*" by (meson rtrancl_trans)
  ultimately show False using assms(2)
    by (auto simp: no_back_edges_def B_def plan_rel_def id_pairs_def)
qed

lemma compiled_acyclic:
  assumes "valid_plan p" "length (plan_nodes p) < u32_modulus" "no_back_edges p"
  shows "plan_acyclic (from_execution_plan aj p opts)"
proof -
  let ?p = "from_execution_plan aj p opts" and ?ns = "plan_nodes p"
  let ?ix = "id_index (index_ids 0 ?ns [])"
  have d: "distinct (map node_id ?ns)" and r: "\<And>e. e \<in> set (plan_edges p) \<Longrightarrow>
      edge_from e \<in> node_id ` set ?ns \<and> edge_to e \<in> node_id ` set ?ns"
    using assms(1) by (simp_all add: valid_plan_def node_ids_def)
  note ix = id_index_node [OF d assms(2)]
  have a: "acyclic (set (id_pairs (plan_edges p)))"
    using plan_rel_acyclic [OF _ assms(3)] assms(1) by (simp add: valid_plan_def plan_rel_def)
  have pairs: "set (plan_edge_pairs ?p) = (\<lambda>e. (?ix (edge_from e), ?ix (edge_to e))) ` set (plan_edges p)"
    by (simp add: plan_edge_pairs_def compiled_edges compile_edge_def image_image)
  have "edges_into {..<length ?ns} (plan_edge_pairs ?p)
      \<subseteq> inv_image (set (id_pairs (plan_edges p))) (\<lambda>k. node_id (?ns ! k))"
    using ix r by (force simp: edges_into_def pairs id_pairs_def)
  moreover have "fst ` edges_into {..<length ?ns} (plan_edge_pairs ?p) \<subseteq> {..<length ?ns}"
    using ix r by (force simp: edges_into_def pairs)
  ultimately show ?thesis
    using acyclic_subset [OF acyclic_inv_image [OF a]] by (simp add: plan_acyclic_def Let_def)
qed

lemma compiled_sized:
  "length (plan_nodes p) < u32_modulus \<Longrightarrow> length (plan_edges p) < u32_modulus \<Longrightarrow>
   plan_sized (from_execution_plan aj p opts)"
  by (simp add: plan_sized_def compiled_edges)

section \<open>Example plans\<close>

text \<open>\<open>a = 1; for i in range(2): b = i\<close>, with an edge back to the loop.\<close>

definition str_node :: "string \<Rightarrow> opcode \<Rightarrow> (string \<times> string) list \<Rightarrow> node" where
  "str_node i op args = fold (\<lambda>(k, v). with_arg k (AString v)) args (node_new i op)"

definition looping_plan :: "edge list \<Rightarrow> execution_plan" where
  "looping_plan es = execution_plan_new
     [str_node ''a'' Calc [(''expr'', ''1'')],
      str_node ''l'' Loop [(''max_iterations'', ''2'')],
      str_node ''b'' Calc [(''expr'', ''i'')],
      str_node ''r'' Act [(''type'', ''return'')]]
     ([edge_new ''a'' ''l'', edge_new ''l'' ''b'', edge_control ''l'' ''r''] @ es)"

lemmas looping_defs = looping_plan_def str_node_def execution_plan_new_def edge_new_def
  edge_control_def with_arg_def node_new_def metadata_default_def

definition back_edges :: "edge list" where
  "back_edges = [edge_new ''b'' ''l'']"

lemma looping_sets:
  "loop_ids (looping_plan es) = {''l''}" "node_ids (looping_plan es) = {''a'', ''l'', ''b'', ''r''}"
  "terminal_ids (looping_plan es) = {''r''}"
  by (auto simp: looping_defs loop_ids_def node_ids_def terminal_ids_def is_terminal_opcode_def)

lemma looping_pairs:
  "id_pairs (plan_edges (looping_plan back_edges)) =
     [(''a'', ''l''), (''l'', ''b''), (''l'', ''r''), (''b'', ''l'')]"
  "id_pairs (plan_edges (looping_plan [])) = [(''a'', ''l''), (''l'', ''b''), (''l'', ''r'')]"
  "data_pairs (looping_plan back_edges) = [(''a'', ''l''), (''l'', ''b''), (''b'', ''l'')]"
  "data_pairs (looping_plan []) = [(''a'', ''l''), (''l'', ''b'')]"
  "root_ids (looping_plan back_edges) = [''a'']" "root_ids (looping_plan []) = [''a'']"
  "body_starts (looping_plan back_edges) = [''b'']" "body_starts (looping_plan []) = [''b'']"
  unfolding body_starts_def looping_sets
  by (simp_all add: looping_defs id_pairs_def data_pairs_def root_ids_def back_edges_def)

lemma looping_reach:
  "loop_body_ids (looping_plan back_edges) = {''b'', ''l''}" "loop_body_ids (looping_plan []) = {''b''}"
  "reachable_ids (looping_plan back_edges) = {''a'', ''l'', ''b'', ''r''}"
  "reachable_ids (looping_plan []) = {''a'', ''l'', ''b'', ''r''}"
  unfolding loop_body_ids_def reachable_ids_def looping_pairs by (auto simp: bfs_eval)

lemma looping_cycles:
  "cycle_errors (looping_plan back_edges) = []" "cycle_errors (looping_plan []) = []"
  unfolding cycle_errors_def validator_order_def acyclic_edges_def looping_sets
  by (simp_all add: looping_defs back_edges_def order_ids_def worklist_numeral count_in_degree_id_def
      relax_id_def order_step_id_def index_node_def usize_dec_def Let_def)

lemma looping_dead_ends:
  "dead_end_errors (looping_plan back_edges) = []" "dead_end_errors (looping_plan []) = []"
  unfolding dead_end_errors_def can_reach_any_def looping_pairs looping_reach looping_sets
    extended_terminals_def
  by (simp_all add: looping_defs back_edges_def plan_edges_from_def bfs_eval)

lemma looping_valid:
  "validate (looping_plan back_edges) = Inr ()" "validate (looping_plan []) = Inr ()"
  unfolding validate_def unreachable_errors_def no_terminal_errors_def looping_dead_ends
    looping_cycles looping_reach looping_sets reference_errors_def
  by (simp_all add: looping_defs back_edges_def empty_errors_def Let_def validate_node_args_def
      required_args_def has_arg_def edge_errors_def branch_edge_errors_def parallel_edge_errors_def
      plain_edge_errors_def plan_edges_from_def input_errors_def self_cycle_errors_def
      subgraph_target_def nesting_errors_def List.map_filter_simps)

lemma looping_back_order:
  "topological_order (from_execution_plan (\<lambda>_. []) (looping_plan back_edges) []) = None"
  by (simp add: looping_defs back_edges_def from_execution_plan_def compile_edge_def id_index_def
      compile_arg_def upd_def order_eval)

section \<open>Properties of the validator\<close>

text \<open>C23: \<open>validate\<close> accepts exactly the valid plans: distinct ids, edges between known nodes, no cycle
  apart from edges into a \<open>LOOP\<close>, every node reachable from a node without incoming edges and on
  a path to an \<open>ACT\<close>, an \<open>ERROR\<close> or a loop (unless it has no successor), the required arguments
  and edge conditions, and subgraph calls within the limits.\<close>

theorem validate_exact: "validate p = Inr () \<longleftrightarrow> valid_plan p"
  by (rule validate_valid)



text \<open>C25: with an edge back into a \<open>LOOP\<close> the validator and the executor disagree: there is a plan that
  validates and compiles, and whose execution always fails with \<open>CycleDetected\<close>.\<close>

theorem validated_plan_can_be_cyclic:
  "\<exists>p. validate p = Inr () \<and>
     (\<forall>w inputs policy. execute_with (from_execution_plan (\<lambda>_. []) p []) w inputs policy = Inl CycleDetected)"
proof (intro exI conjI allI)
  show "validate (looping_plan back_edges) = Inr ()" by (rule looping_valid)
  show "execute_with (from_execution_plan (\<lambda>_. []) (looping_plan back_edges) []) w inputs policy =
      Inl CycleDetected" for w inputs policy
    by (simp add: execute_with_def plan_order_def looping_back_order checked_version_def
        compiled_version check_version_compatibility_def min_supported_version_def
        max_supported_version_def)
qed

end
