(* ===== verification/Optimizer.thy ===== *)
theory Optimizer
  imports Graphs Eval "HOL-Library.List_Lexorder" "HOL-Library.Char_ord"
begin

text \<open>
  The optimisation passes of the compiler backend (\<open>backend/optimize.rs\<close>): constant folding,
  elimination of dead nodes, fusion of \<open>CALC\<close> nodes and fusion of equal \<open>CALL\<close> nodes in
  parallel branches.

  The lemmas show that constant folding computes what the evaluator of the VM computes, that
  dead node elimination only removes isolated nodes, and that the fusion loop ends.
\<close>

section \<open>Arguments of plan nodes\<close>

definition plan_arg :: "node \<Rightarrow> string \<Rightarrow> arg_value option" where
  "plan_arg n k = map_option arg_val (find (\<lambda>a. arg_key a = k) (node_args n))"

section \<open>Constant folding\<close>

definition is_constant_expression :: "string \<Rightarrow> bool" where
  "is_constant_expression e \<longleftrightarrow> \<not> (\<exists>c \<in> set e. is_ascii_alphabetic c)"

primrec simple_ops :: "string \<Rightarrow> char list \<Rightarrow> i64 option" where
  "simple_ops e [] = None"
| "simple_ops e (op # ops) =
     (case find_str [op] e of
        None \<Rightarrow> simple_ops e ops
      | Some pos \<Rightarrow>
          if pos = 0 \<or> pos = length e - 1 then simple_ops e ops
          else
            (case (parse_i64 (trim (take pos e)), parse_i64 (trim (drop (Suc pos) e))) of
               (Some a, Some b) \<Rightarrow>
                 (case arith_op op a b of Some r \<Rightarrow> Some r | None \<Rightarrow> simple_ops e ops)
             | _ \<Rightarrow> simple_ops e ops))"

definition eval_simple_int_expr :: "string \<Rightarrow> i64 option" where
  "eval_simple_int_expr e0 =
     (let e = trim e0 in
      if e = [] then None
      else case parse_i64 e of Some n \<Rightarrow> Some n | None \<Rightarrow> simple_ops e arith_ops)"

text \<open>The folded node and whether it was folded; the other arguments keep their order.\<close>

definition fold_node :: "node \<Rightarrow> node \<times> bool" where
  "fold_node n =
     (if node_op n \<noteq> Calc then (n, False)
      else case plan_arg n ''expr'' of
        Some (AString e) \<Rightarrow>
          if is_constant_expression e then
            (case eval_simple_int_expr e of
               Some r \<Rightarrow>
                 (n\<lparr>node_args := \<lparr>arg_key = ''expr'', arg_val = AString (show_int r)\<rparr> #
                    filter (\<lambda>a. arg_key a \<noteq> ''expr'') (node_args n)\<rparr>, True)
             | None \<Rightarrow> (n, False))
          else (n, False)
      | _ \<Rightarrow> (n, False))"

definition constant_folding :: "execution_plan \<Rightarrow> execution_plan \<times> nat" where
  "constant_folding p =
     (let rs = map fold_node (plan_nodes p) in
      (p\<lparr>plan_nodes := map fst rs\<rparr>, length (filter snd rs)))"

section \<open>Dead node elimination\<close>

definition referenced :: "execution_plan \<Rightarrow> string set" where
  "referenced p = set (map edge_from (plan_edges p)) \<union> set (map edge_to (plan_edges p))"

definition live_node :: "execution_plan \<Rightarrow> node \<Rightarrow> bool" where
  "live_node p n \<longleftrightarrow> node_op n = Input \<or> \<not> is_pure (node_op n) \<or> node_id n \<in> referenced p"

definition kept_edges :: "node list \<Rightarrow> edge list \<Rightarrow> edge list" where
  "kept_edges ns es =
     filter (\<lambda>e. edge_from e \<in> node_id ` set ns \<and> edge_to e \<in> node_id ` set ns) es"

definition dead_node_elimination :: "execution_plan \<Rightarrow> execution_plan \<times> nat" where
  "dead_node_elimination p =
     (let kept = filter (live_node p) (plan_nodes p);
          removed = length (filter (\<lambda>n. \<not> live_node p n) (plan_nodes p))
      in if removed = 0 then (p\<lparr>plan_nodes := kept\<rparr>, 0)
         else (p\<lparr>plan_nodes := kept, plan_edges := kept_edges kept (plan_edges p)\<rparr>, removed))"

section \<open>Calc fusion\<close>

definition word_char :: "char \<Rightarrow> bool" where
  "word_char c \<longleftrightarrow> is_ascii_alphabetic c \<or> is_digit c \<or> c = CHR ''_''"

definition emit_word :: "string \<Rightarrow> string list" where
  "emit_word w = (if w \<noteq> [] \<and> \<not> (\<forall>c \<in> set w. is_digit c) then [w] else [])"

primrec extract_from :: "string \<Rightarrow> string \<Rightarrow> string list" where
  "extract_from cur [] = emit_word cur"
| "extract_from cur (c # cs) =
     (if word_char c then extract_from (cur @ [c]) cs else emit_word cur @ extract_from [] cs)"

definition extract_variables :: "string \<Rightarrow> string list" where
  "extract_variables e = extract_from [] e"

text \<open>
  The scan of \<open>replace_var_in_expr\<close>; what is left of the match before the scan goes on is
  not seen again.  The variable is never empty (\<open>extract_variables_nonempty\<close>).
\<close>

function replace_scan :: "string \<Rightarrow> string \<Rightarrow> string \<Rightarrow> string" where
  "replace_scan var repl rest =
     (if var = [] then rest
      else case find_str var rest of
        None \<Rightarrow> rest
      | Some pos \<Rightarrow>
          if 0 < pos \<and> word_char (rest ! (pos - 1)) then
            take (Suc pos) rest @ replace_scan var repl (drop (Suc pos) rest)
          else if length rest \<le> pos + length var \<or> \<not> word_char (rest ! (pos + length var)) then
            take pos rest @ ''('' @ repl @ '')'' @ replace_scan var repl (drop (pos + length var) rest)
          else take (Suc pos) rest @ replace_scan var repl (drop (Suc pos) rest))"
  by pat_completeness auto
termination
proof (relation "measure (\<lambda>(var, repl, rest). length rest)", goal_cases)
  case (3 var repl rest pos)
  then show ?case using find_str_less [of var rest pos] by (cases var) auto
qed (use find_str_less in fastforce)+

declare replace_scan.simps [simp del]

definition replace_var_in_expr :: "string \<Rightarrow> string \<Rightarrow> string \<Rightarrow> string" where
  "replace_var_in_expr e var repl =
     (if trim e = var then ''('' @ repl @ '')'' else replace_scan var repl e)"

text \<open>The maps a round starts from.\<close>

definition var_to_node :: "node list \<Rightarrow> node smap" where
  "var_to_node ns = fold (\<lambda>n m.
     if node_op n = Calc then
       (case plan_arg n ''output'' of Some (AString name) \<Rightarrow> upd name n m | _ \<Rightarrow> m)
     else m) ns []"

definition consumer_count :: "node list \<Rightarrow> edge list \<Rightarrow> string \<Rightarrow> nat" where
  "consumer_count ns es i = length (filter (\<lambda>e. edge_from e = i) (kept_edges ns es))"

definition feeds :: "edge list \<Rightarrow> string \<Rightarrow> string \<Rightarrow> bool" where
  "feeds es a b \<longleftrightarrow> (\<exists>e \<in> set es. edge_from e = a \<and> edge_to e = b)"

text \<open>One variable of the expression of node \<open>i\<close>: the expression so far and the nodes to remove.\<close>

definition inline_var ::
  "node list \<Rightarrow> edge list \<Rightarrow> string \<Rightarrow> string \<Rightarrow> string \<times> bool \<times> string list \<Rightarrow> string \<times> bool \<times> string list" where
  "inline_var ns es i var t =
     (case map_of (var_to_node ns) var of
        None \<Rightarrow> t
      | Some d \<Rightarrow>
          if node_op d \<noteq> Calc \<or> consumer_count ns es (node_id d) \<noteq> 1 \<or> \<not> feeds es (node_id d) i then t
          else (case plan_arg d ''expr'' of
             Some (AString def_str) \<Rightarrow>
               if var \<in> set (extract_variables def_str) then t
               else
                 (let (inlined, c, rem) = t; e = replace_var_in_expr inlined var def_str in
                  if e \<noteq> inlined then
                    (e, True, if node_id d \<in> set rem then rem else rem @ [node_id d])
                  else t)
           | _ \<Rightarrow> t))"

primrec set_first_expr :: "arg_value \<Rightarrow> arg list \<Rightarrow> arg list" where
  "set_first_expr v [] = []"
| "set_first_expr v (a # as) =
     (if arg_key a = ''expr'' then a\<lparr>arg_val := v\<rparr> # as else a # set_first_expr v as)"

definition fuse_node ::
  "node list \<Rightarrow> edge list \<Rightarrow> node \<Rightarrow> string list \<Rightarrow> node \<times> string list \<times> bool" where
  "fuse_node ns es n rem =
     (if node_op n \<noteq> Calc then (n, rem, False)
      else case plan_arg n ''expr'' of
        Some (AString e) \<Rightarrow>
          if e \<noteq> [] \<and> \<not> is_constant_expression e then
            (case fold (inline_var ns es (node_id n)) (extract_variables e) (e, False, rem) of
               (e', c, rem') \<Rightarrow>
                 (if c then n\<lparr>node_args := set_first_expr (AString e') (node_args n)\<rparr> else n, rem', c))
          else (n, rem, False)
      | _ \<Rightarrow> (n, rem, False))"

primrec fuse_nodes ::
  "node list \<Rightarrow> edge list \<Rightarrow> node list \<Rightarrow> string list \<Rightarrow> node list \<times> string list \<times> bool" where
  "fuse_nodes ns es [] rem = ([], rem, False)"
| "fuse_nodes ns es (n # todo) rem =
     (if node_id n \<in> set rem then fuse_nodes ns es todo rem
      else case fuse_node ns es n rem of (n', rem', c) \<Rightarrow>
        (case fuse_nodes ns es todo rem' of (ms, rem'', c') \<Rightarrow> (n' # ms, rem'', c \<or> c')))"

section \<open>The fusion loop ends\<close>

lemma var_to_node_mem: "map_of (var_to_node ns) v = Some d \<Longrightarrow> d \<in> set ns"
proof -
  have "map_of (fold (\<lambda>n m. if node_op n = Calc then
      (case plan_arg n ''output'' of Some (AString name) \<Rightarrow> upd name n m | _ \<Rightarrow> m) else m) ns m) v = Some d \<Longrightarrow>
      d \<in> set ns \<or> map_of m v = Some d" for m
    by (induction ns arbitrary: m)
      (fastforce split: if_splits option.splits arg_value.splits)+
  from this [of "[]"] show "map_of (var_to_node ns) v = Some d \<Longrightarrow> d \<in> set ns"
    by (simp add: var_to_node_def)
qed

text \<open>A change always marks a node of the plan, and marks are never withdrawn.\<close>

definition marks :: "node list \<Rightarrow> string list \<Rightarrow> bool \<Rightarrow> string list \<Rightarrow> bool" where
  "marks ns rem c rem' \<longleftrightarrow> set rem \<subseteq> set rem' \<and> (c \<longrightarrow> (\<exists>n \<in> set ns. node_id n \<in> set rem'))"

lemma inline_var_marks:
  "inline_var ns es i v (e, c, rem) = (e', c', rem') \<Longrightarrow> marks ns rem0 c rem \<Longrightarrow> marks ns rem0 c' rem'"
  using var_to_node_mem [of ns v]
  by (auto simp: inline_var_def marks_def Let_def split: option.splits if_splits arg_value.splits)

lemma fold_inline_marks:
  "fold (inline_var ns es i) vs (e, c, rem) = (e', c', rem') \<Longrightarrow> marks ns rem0 c rem \<Longrightarrow> marks ns rem0 c' rem'"
proof (induction vs arbitrary: e c rem)
  case (Cons v vs)
  obtain a b d where t: "inline_var ns es i v (e, c, rem) = (a, b, d)" by (rule prod_cases3)
  from Cons.IH [of a b d] Cons.prems inline_var_marks [OF t] t show ?case by simp
qed simp

lemma fuse_node_marks:
  assumes "fuse_node ns es n rem = (n', rem', c)"
  shows "marks ns rem c rem' \<and> node_id n' = node_id n"
proof -
  have "marks ns rem c rem'"
    using assms fold_inline_marks [of ns es "node_id n" _ _ False rem _ c rem' rem]
    by (auto simp: fuse_node_def marks_def split: if_splits option.splits arg_value.splits prod.splits)
  then show ?thesis
    using assms by (auto simp: fuse_node_def split: if_splits option.splits arg_value.splits prod.splits)
qed

lemma fuse_nodes_marks:
  "fuse_nodes ns es todo rem = (ms, rem', c) \<Longrightarrow>
   marks ns rem c rem' \<and>
   length (filter (\<lambda>n. node_id n \<notin> set rem') ms) \<le> length (filter (\<lambda>n. node_id n \<notin> set rem') todo)"
proof (induction todo arbitrary: rem ms rem' c)
  case Nil
  then show ?case by (simp add: marks_def)
next
  case (Cons n todo)
  show ?case
  proof (cases "node_id n \<in> set rem")
    case True
    with Cons show ?thesis by (fastforce simp: marks_def)
  next
    case False
    obtain n1 r1 c1 where f: "fuse_node ns es n rem = (n1, r1, c1)" by (rule prod_cases3)
    obtain m2 r2 c2 where g: "fuse_nodes ns es todo r1 = (m2, r2, c2)" by (rule prod_cases3)
    from False f g Cons.prems have r: "ms = n1 # m2" "rem' = r2" "c = (c1 \<or> c2)" by auto
    from fuse_node_marks [OF f] Cons.IH [OF g] show ?thesis unfolding r by (auto simp: marks_def)
  qed
qed

lemma filter_shorter: "x \<in> set xs \<Longrightarrow> \<not> P x \<Longrightarrow> length (filter P xs) < length xs"
  by (induction xs) (auto intro: le_imp_less_Suc)

lemma fuse_round_shorter:
  assumes "fuse_nodes ns es ns [] = (ms, rem, True)"
  shows "length (filter (\<lambda>n. node_id n \<notin> set rem) ms) < length ns"
proof -
  from fuse_nodes_marks [OF assms] obtain n where "n \<in> set ns" "node_id n \<in> set rem"
    by (auto simp: marks_def)
  then have "length (filter (\<lambda>n. node_id n \<notin> set rem) ns) < length ns" by (intro filter_shorter) auto
  with fuse_nodes_marks [OF assms] show ?thesis by linarith
qed

function fusion_loop :: "edge list \<Rightarrow> node list \<Rightarrow> nat \<Rightarrow> node list \<times> nat" where
  "fusion_loop es ns fused =
     (case fuse_nodes ns es ns [] of (ms, rem, changed) \<Rightarrow>
        if changed then
          fusion_loop es (filter (\<lambda>n. node_id n \<notin> set rem) ms) (fused + length rem)
        else (ns, fused))"
  by pat_completeness auto
termination
  by (relation "measure (\<lambda>(es, ns, fused). length ns)") (auto dest: fuse_round_shorter [OF sym])

declare fusion_loop.simps [simp del]

definition calc_fusion :: "execution_plan \<Rightarrow> execution_plan \<times> nat" where
  "calc_fusion p =
     (case fusion_loop (plan_edges p) (plan_nodes p) 0 of (ns, fused) \<Rightarrow>
        (p\<lparr>plan_nodes := ns, plan_edges := kept_edges ns (plan_edges p)\<rparr>, fused))"

section \<open>Multi-branch fusion\<close>

fun arg_value_str :: "arg_value \<Rightarrow> string" where
  "arg_value_str (AString s) = dquote # s @ [dquote]"
| "arg_value_str (AInt i) = show_int i"
| "arg_value_str (ABool b) = show_bool b"
| "arg_value_str (AFloat f) = f64_show f"
| "arg_value_str ANull = ''null''"
| "arg_value_str (AArray a) = ''['' @ join '','' (map arg_value_str a) @ '']''"
| "arg_value_str (AObject m) =
     ''{'' @ join '','' (sort (map (\<lambda>(k, v). k @ '':'' @ arg_value_str v) m)) @ ''}''"

definition call_signature :: "node \<Rightarrow> string" where
  "call_signature n =
     join ''|'' (sort (map (\<lambda>a. arg_key a @ '':'' @ arg_value_str (arg_val a)) (node_args n)))"

text \<open>The \<open>CALL\<close> children of a \<open>PARALLEL\<close> node, grouped by signature.\<close>

definition call_groups :: "node list \<Rightarrow> edge list \<Rightarrow> string \<Rightarrow> string list smap" where
  "call_groups ns es par =
     fold (\<lambda>c m. case find_node ns c of
         None \<Rightarrow> m
       | Some n \<Rightarrow>
           if node_op n \<noteq> Call then m
           else modify_or_insert (call_signature n) (\<lambda>ids. ids @ [c]) [c] m)
       (map edge_to (filter (\<lambda>e. edge_from e = par) es)) []"

text \<open>In each group the first call is kept and the others are redirected to it.\<close>

definition group_redirects :: "string list smap \<Rightarrow> (string \<times> string) list" where
  "group_redirects groups =
     concat (map (\<lambda>(s, ids). case ids of [] \<Rightarrow> [] | keep # rest \<Rightarrow> map (\<lambda>r. (r, keep)) rest) groups)"

definition redirect_id :: "(string \<times> string) list \<Rightarrow> string \<Rightarrow> string" where
  "redirect_id rs i = (case map_of rs i of Some j \<Rightarrow> j | None \<Rightarrow> i)"

definition multi_branch_fusion :: "execution_plan \<Rightarrow> execution_plan \<times> nat" where
  "multi_branch_fusion p =
     (let ns = plan_nodes p; es = plan_edges p;
          pars = map node_id (filter (\<lambda>n. node_op n = Parallel) ns);
          rs = concat (map (\<lambda>par. group_redirects (call_groups ns es par)) pars)
      in if rs = [] then (p, 0)
         else
           (p\<lparr>plan_nodes := filter (\<lambda>n. node_id n \<notin> set (map fst rs)) ns,
              plan_edges := map (\<lambda>e. e\<lparr>edge_from := redirect_id rs (edge_from e),
                edge_to := redirect_id rs (edge_to e)\<rparr>) es\<rparr>, length rs))"

section \<open>All passes\<close>

definition pass_name :: "string \<Rightarrow> nat \<Rightarrow> string list" where
  "pass_name name k = (if k > 0 then [name @ '':'' @ show_nat k] else [])"

definition optimize_all :: "execution_plan \<Rightarrow> execution_plan \<times> string list" where
  "optimize_all p0 =
     (let (p1, folded) = constant_folding p0;
          (p2, dead) = dead_node_elimination p1;
          (p3, fused) = calc_fusion p2;
          (p4, merged) = multi_branch_fusion p3
      in (p4, pass_name ''constant_folding'' folded @ pass_name ''dead_node_elimination'' dead @
           pass_name ''calc_fusion'' fused @ pass_name ''multi_branch_fusion'' merged))"

end
