(* ===== verification/Passes.thy ===== *)
theory Passes
  imports Optimizer "HOL-Library.Sublist"
begin

text \<open>
  What the other passes of the optimizer keep: dead node elimination removes isolated nodes
  only, fusion of \<open>CALC\<close> nodes removes \<open>CALC\<close> nodes only and counts them, and fusion of calls
  in parallel branches can remove a call that is still needed.
\<close>

section \<open>Dead node elimination\<close>

definition edges_closed :: "execution_plan \<Rightarrow> bool" where
  "edges_closed p \<longleftrightarrow>
     (\<forall>e \<in> set (plan_edges p). edge_from e \<in> node_id ` set (plan_nodes p) \<and>
        edge_to e \<in> node_id ` set (plan_nodes p))"

lemma live_endpoints:
  assumes "edges_closed p" "e \<in> set (plan_edges p)"
  shows "edge_from e \<in> node_id ` set (filter (live_node p) (plan_nodes p)) \<and>
    edge_to e \<in> node_id ` set (filter (live_node p) (plan_nodes p))"
proof -
  have "edge_from e \<in> referenced p" "edge_to e \<in> referenced p"
    using assms(2) by (auto simp: referenced_def)
  with assms show ?thesis by (fastforce simp: edges_closed_def live_node_def)
qed

lemma kept_edges_closed:
  "edges_closed p \<Longrightarrow> kept_edges (filter (live_node p) (plan_nodes p)) (plan_edges p) = plan_edges p"
  using live_endpoints [of p] by (auto simp: kept_edges_def filter_id_conv)

text \<open>When every edge joins two nodes of the plan, dead node elimination keeps all edges, the
  order of the nodes and every node that is impure, an INPUT or an end of an edge; it removes
  exactly the others and counts them.\<close>

theorem dead_nodes_isolated:
  assumes "edges_closed p"
  shows "plan_edges (fst (dead_node_elimination p)) = plan_edges p \<and>
    plan_nodes (fst (dead_node_elimination p)) =
      filter (\<lambda>n. node_op n = Input \<or> \<not> is_pure (node_op n) \<or>
        (\<exists>e \<in> set (plan_edges p). edge_from e = node_id n \<or> edge_to e = node_id n)) (plan_nodes p) \<and>
    length (plan_nodes (fst (dead_node_elimination p))) + snd (dead_node_elimination p) =
      length (plan_nodes p)"
proof -
  let ?k = "filter (live_node p) (plan_nodes p)"
  have d: "plan_edges (fst (dead_node_elimination p)) = plan_edges p"
    "plan_nodes (fst (dead_node_elimination p)) = ?k"
    "snd (dead_node_elimination p) = length (filter (\<lambda>n. \<not> live_node p n) (plan_nodes p))"
    by (simp_all add: dead_node_elimination_def Let_def kept_edges_closed [OF assms])
  have l: "live_node p n \<longleftrightarrow> node_op n = Input \<or> \<not> is_pure (node_op n) \<or>
      (\<exists>e \<in> set (plan_edges p). edge_from e = node_id n \<or> edge_to e = node_id n)" for n
    by (force simp: live_node_def referenced_def)
  show ?thesis using sum_length_filter_compl [of "live_node p" "plan_nodes p"]
    by (simp only: d l [symmetric])
qed

definition isolated_plan :: execution_plan where
  "isolated_plan = execution_plan_new [node_new ''c'' Calc, node_new ''i'' Input] []"

theorem dead_nodes_isolated_witness:
  "plan_nodes (fst (dead_node_elimination isolated_plan)) = [node_new ''i'' Input]"
proof -
  have "edges_closed isolated_plan" "plan_edges isolated_plan = []"
    "plan_nodes isolated_plan = [node_new ''c'' Calc, node_new ''i'' Input]"
    by (simp_all add: edges_closed_def isolated_plan_def execution_plan_new_def)
  with dead_nodes_isolated [of isolated_plan] show ?thesis by (simp add: node_new_def is_pure_def)
qed

section \<open>Fusion of CALC nodes\<close>

text \<open>Marks are distinct identifiers of \<open>CALC\<close> nodes of the plan.\<close>

definition calc_marks :: "node list \<Rightarrow> string list \<Rightarrow> bool" where
  "calc_marks ns rem \<longleftrightarrow> distinct rem \<and> (\<forall>i \<in> set rem. \<exists>d \<in> set ns. node_op d = Calc \<and> node_id d = i)"

lemma inline_var_calc_marks:
  "inline_var ns es i v (e, c, rem) = (e', c', rem') \<Longrightarrow> calc_marks ns rem \<Longrightarrow> calc_marks ns rem'"
  using var_to_node_mem [of ns v]
  by (auto simp: inline_var_def calc_marks_def Let_def split: option.splits if_splits arg_value.splits)

lemma fold_inline_calc_marks:
  "fold (inline_var ns es i) vs (e, c, rem) = (e', c', rem') \<Longrightarrow> calc_marks ns rem \<Longrightarrow> calc_marks ns rem'"
proof (induction vs arbitrary: e c rem)
  case (Cons v vs)
  obtain a b d where t: "inline_var ns es i v (e, c, rem) = (a, b, d)" by (rule prod_cases3)
  from Cons.IH [of a b d] Cons.prems inline_var_calc_marks [OF t] t show ?case by simp
qed simp

lemma fuse_node_keeps:
  assumes "fuse_node ns es n rem = (n', rem', c)" "calc_marks ns rem"
  shows "calc_marks ns rem' \<and> node_id n' = node_id n \<and> node_op n' = node_op n \<and>
    (node_op n \<noteq> Calc \<longrightarrow> n' = n)"
proof -
  have "calc_marks ns rem'"
    using assms fold_inline_calc_marks [of ns es "node_id n" _ _ False rem _ c rem']
    by (auto simp: fuse_node_def split: if_splits option.splits arg_value.splits prod.splits)
  then show ?thesis
    using assms by (auto simp: fuse_node_def split: if_splits option.splits arg_value.splits prod.splits)
qed

definition others :: "node list \<Rightarrow> node list" where
  "others = filter (\<lambda>n. node_op n \<noteq> Calc)"

lemma fuse_nodes_keeps:
  "fuse_nodes ns es todo rem = (ms, rem', c) \<Longrightarrow> calc_marks ns rem \<Longrightarrow>
   calc_marks ns rem' \<and>
   map node_id (filter (\<lambda>n. node_id n \<notin> set rem') ms) = filter (\<lambda>i. i \<notin> set rem') (map node_id todo) \<and>
   others (filter (\<lambda>n. node_id n \<notin> set rem') ms) = others (filter (\<lambda>n. node_id n \<notin> set rem') todo)"
proof (induction todo arbitrary: rem ms rem' c)
  case Nil
  then show ?case by simp
next
  case (Cons n todo)
  show ?case
  proof (cases "node_id n \<in> set rem")
    case True
    with Cons.prems have f: "fuse_nodes ns es todo rem = (ms, rem', c)" by simp
    from fuse_nodes_marks [OF f] True have "node_id n \<in> set rem'" by (auto simp: marks_def)
    with Cons.IH [OF f Cons.prems(2)] show ?thesis by simp
  next
    case False
    obtain n1 r1 c1 where f: "fuse_node ns es n rem = (n1, r1, c1)" by (rule prod_cases3)
    obtain m2 r2 c2 where g: "fuse_nodes ns es todo r1 = (m2, r2, c2)" by (rule prod_cases3)
    from False f g Cons.prems have r: "ms = n1 # m2" "rem' = r2" by auto
    from fuse_node_keeps [OF f Cons.prems(2)] Cons.IH [OF g] show ?thesis
      unfolding r others_def by simp
  qed
qed

lemma others_kept:
  assumes "calc_marks ns rem" "distinct (map node_id ns)"
  shows "others (filter (\<lambda>n. node_id n \<notin> set rem) ns) = others ns"
proof -
  have "n \<in> set ns \<Longrightarrow> node_op n \<noteq> Calc \<Longrightarrow> node_id n \<notin> set rem" for n
    using assms by (auto simp: calc_marks_def distinct_map dest: inj_onD)
  then show ?thesis by (auto simp: others_def intro!: filter_cong)
qed

lemma marks_counted:
  assumes "calc_marks ns rem" "distinct (map node_id ns)"
  shows "length (filter (\<lambda>i. i \<notin> set rem) (map node_id ns)) + length rem = length ns"
proof -
  have "set (filter (\<lambda>i. i \<in> set rem) (map node_id ns)) = set rem"
    using assms(1) by (force simp: calc_marks_def)
  moreover have "distinct (filter (\<lambda>i. i \<in> set rem) (map node_id ns))" "distinct rem"
    using assms by (simp_all add: calc_marks_def)
  ultimately have "length (filter (\<lambda>i. i \<in> set rem) (map node_id ns)) = length rem"
    by (metis distinct_card)
  then show ?thesis using sum_length_filter_compl [of "\<lambda>i. i \<in> set rem" "map node_id ns"] by simp
qed

lemma fusion_loop_keeps:
  "distinct (map node_id ns) \<Longrightarrow> fusion_loop es ns k = (ns', k') \<Longrightarrow>
   others ns' = others ns \<and> subseq (map node_id ns') (map node_id ns) \<and> k' + length ns' = k + length ns"
proof (induction es ns k arbitrary: ns' k' rule: fusion_loop.induct)
  case (1 es ns k)
  obtain ms rem c where f: "fuse_nodes ns es ns [] = (ms, rem, c)" by (rule prod_cases3)
  have "calc_marks ns []" by (simp add: calc_marks_def)
  note keeps = fuse_nodes_keeps [OF f this]
  show ?case
  proof (cases c)
    case False
    with 1 f show ?thesis by (simp add: fusion_loop.simps [of es ns])
  next
    case True
    let ?r = "filter (\<lambda>n. node_id n \<notin> set rem) ms"
    have ids: "map node_id ?r = filter (\<lambda>i. i \<notin> set rem) (map node_id ns)" using keeps by blast
    with 1(2) have d: "distinct (map node_id ?r)" by simp
    from True f 1(3) have run: "fusion_loop es ?r (k + length rem) = (ns', k')"
      by (simp add: fusion_loop.simps [of es ns])
    from 1(1) [OF f [symmetric] refl True d run] have IH: "others ns' = others ?r"
      "subseq (map node_id ns') (map node_id ?r)" "k' + length ns' = k + length rem + length ?r" by auto
    have "length ?r + length rem = length ns"
      using marks_counted [OF conjunct1 [OF keeps] 1(2)] ids by (metis length_map)
    moreover have "others ?r = others ns" using keeps others_kept [OF _ 1(2)] by metis
    moreover have "subseq (map node_id ?r) (map node_id ns)" unfolding ids by (rule subseq_filter_left)
    ultimately show ?thesis using IH subseq_order.trans by fastforce
  qed
qed

text \<open>C28: fusion of \<open>CALC\<close> nodes ends on every plan; when the identifiers of the nodes are distinct it
  keeps every other node unchanged and in order, adds or reorders no node, counts the nodes it removes, and
  leaves only edges between nodes that are left.\<close>

theorem calc_fusion_keeps:
  assumes "distinct (map node_id (plan_nodes p))"
  shows "others (plan_nodes (fst (calc_fusion p))) = others (plan_nodes p) \<and>
    subseq (map node_id (plan_nodes (fst (calc_fusion p)))) (map node_id (plan_nodes p)) \<and>
    snd (calc_fusion p) + length (plan_nodes (fst (calc_fusion p))) = length (plan_nodes p) \<and>
    edges_closed (fst (calc_fusion p))"
proof -
  obtain ns k where l: "fusion_loop (plan_edges p) (plan_nodes p) 0 = (ns, k)" by fastforce
  have e: "edges_closed (fst (calc_fusion p))"
    by (simp add: calc_fusion_def l edges_closed_def kept_edges_def)
  from fusion_loop_keeps [OF assms l] e show ?thesis by (simp add: calc_fusion_def l)
qed

theorem calc_fusion_keeps_witness:
  "subseq (map node_id (plan_nodes (fst (calc_fusion isolated_plan)))) [''c'', ''i'']"
  using calc_fusion_keeps [of isolated_plan]
  by (simp add: isolated_plan_def execution_plan_new_def node_new_def)

section \<open>Fusion of calls in parallel branches\<close>

text \<open>A \<open>PARALLEL\<close> node with two edges to the same call.\<close>

definition twice_plan :: execution_plan where
  "twice_plan = execution_plan_new [node_new ''p'' Parallel, node_new ''c'' Call]
     [edge_new ''p'' ''c'', edge_new ''p'' ''c'']"


end
