(* ===== verification/Syntax.thy ===== *)
theory Syntax
  imports Plans
begin

text \<open>
  The Python syntax trees the front end of \<open>tinypipe-compiler\<close> takes apart (\<open>sanitizer.rs\<close>
  and \<open>transform.rs\<close>).  The types list the constructors and fields of \<open>rustpython_ast\<close> that
  the two files match on; the first field of a node is the offset where it starts.

  The parser, the table of line starts and the printing of JSON belong to other crates: they
  are the \<open>frontend\<close> record, a parameter of the definitions.
\<close>

section \<open>Expressions\<close>

datatype py_const =
    CNone
  | CBool bool
  | CInt int
  | CFloat f64
  | CComplex f64 f64
  | CStr string
  | CBytes string
  | CEllipsis
  | CTuple "py_const list"

datatype bool_op = OpAnd | OpOr

datatype operator =
    OpAdd | OpSub | OpMult | OpDiv | OpMod | OpPow | OpLShift | OpRShift | OpBitOr | OpBitXor
  | OpBitAnd | OpFloorDiv | OpMatMult

datatype unary_op = OpNot | OpUSub | OpUAdd | OpInvert

datatype cmp_op =
    CmpEq | CmpNotEq | CmpLt | CmpLtE | CmpGt | CmpGtE | CmpIs | CmpIsNot | CmpIn | CmpNotIn

datatype 'e parameter =
  Parameter (par_name: string) (par_annotation: "'e option") (par_default: "'e option")

datatype 'e parameters =
  Parameters (posonly_params: "'e parameter list") (plain_params: "'e parameter list")
    (vararg_param: "'e parameter option") (kwonly_params: "'e parameter list")
    (kwarg_param: "'e parameter option")

datatype 'e comprehension = Comprehension (comp_target: 'e) (comp_iter: 'e) (comp_ifs: "'e list")

datatype 'e keyword = Keyword (kw_name: "string option") (kw_value: 'e)

datatype expr =
    EBoolOp nat bool_op "expr list"
  | ENamedExpr nat expr expr
  | EBinOp nat expr operator expr
  | EUnaryOp nat unary_op expr
  | ELambda nat "expr parameters" expr
  | EIfExp nat expr expr expr
  | EDict nat "expr option list" "expr list"
  | ESet nat "expr list"
  | EListComp nat expr "expr comprehension list"
  | ESetComp nat expr "expr comprehension list"
  | EDictComp nat expr expr "expr comprehension list"
  | EGeneratorExp nat expr "expr comprehension list"
  | EAwait nat expr
  | EYield nat "expr option"
  | EYieldFrom nat expr
  | ECompare nat expr "cmp_op list" "expr list"
  | ECall nat expr "expr list" "expr keyword list"
  | EFormattedValue nat expr "expr option"
  | EJoinedStr nat "expr list"
  | EConstant nat py_const
  | EAttribute nat expr string
  | ESubscript nat expr expr
  | EStarred nat expr
  | EName nat string
  | EList nat "expr list"
  | ETuple nat "expr list"
  | ESlice nat "expr option" "expr option" "expr option"

fun expr_start :: "expr \<Rightarrow> nat" where
  "expr_start (EBoolOp i _ _) = i"
| "expr_start (ENamedExpr i _ _) = i"
| "expr_start (EBinOp i _ _ _) = i"
| "expr_start (EUnaryOp i _ _) = i"
| "expr_start (ELambda i _ _) = i"
| "expr_start (EIfExp i _ _ _) = i"
| "expr_start (EDict i _ _) = i"
| "expr_start (ESet i _) = i"
| "expr_start (EListComp i _ _) = i"
| "expr_start (ESetComp i _ _) = i"
| "expr_start (EDictComp i _ _ _) = i"
| "expr_start (EGeneratorExp i _ _) = i"
| "expr_start (EAwait i _) = i"
| "expr_start (EYield i _) = i"
| "expr_start (EYieldFrom i _) = i"
| "expr_start (ECompare i _ _ _) = i"
| "expr_start (ECall i _ _ _) = i"
| "expr_start (EFormattedValue i _ _) = i"
| "expr_start (EJoinedStr i _) = i"
| "expr_start (EConstant i _) = i"
| "expr_start (EAttribute i _ _) = i"
| "expr_start (ESubscript i _ _) = i"
| "expr_start (EStarred i _) = i"
| "expr_start (EName i _) = i"
| "expr_start (EList i _) = i"
| "expr_start (ETuple i _) = i"
| "expr_start (ESlice i _ _ _) = i"

section \<open>Statements\<close>

datatype pattern =
    MatchValue expr
  | MatchSingleton py_const
  | MatchAs
  | MatchOther string

datatype with_item = WithItem (item_expr: expr) (item_vars: "expr option")

datatype stmt =
    SFunctionDef nat string "expr parameters" "stmt list" "expr list" "expr option"
  | SAsyncFunctionDef nat string "stmt list" "expr option"
  | SClassDef nat string "expr list" "expr keyword list" "stmt list"
  | SReturn nat "expr option"
  | SDelete nat "expr list"
  | SAssign nat "expr list" expr
  | STypeAlias nat expr expr
  | SAugAssign nat expr operator expr
  | SAnnAssign nat expr expr "expr option"
  | SFor nat expr expr "stmt list" "stmt list"
  | SAsyncFor nat expr expr "stmt list" "stmt list"
  | SWhile nat expr "stmt list" "stmt list"
  | SIf nat expr "stmt list" "stmt list"
  | SWith nat "with_item list" "stmt list"
  | SAsyncWith nat "with_item list" "stmt list"
  | SMatch nat expr "match_case list"
  | SRaise nat "expr option" "expr option"
  | STry nat "stmt list" "handler list" "stmt list" "stmt list"
  | STryStar nat "stmt list" "handler list" "stmt list" "stmt list"
  | SAssert nat expr "expr option"
  | SImport nat "string list"
  | SImportFrom nat "string option"
  | SGlobal nat "string list"
  | SNonlocal nat "string list"
  | SExpr nat expr
  | SPass nat
  | SBreak nat
  | SContinue nat
and match_case = MatchCase (mc_pattern: pattern) (mc_guard: "expr option") (mc_body: "stmt list")
and handler = Handler (handler_type: "expr option") (handler_body: "stmt list")

fun stmt_start :: "stmt \<Rightarrow> nat" where
  "stmt_start (SFunctionDef i _ _ _ _ _) = i"
| "stmt_start (SAsyncFunctionDef i _ _ _) = i"
| "stmt_start (SClassDef i _ _ _ _) = i"
| "stmt_start (SReturn i _) = i"
| "stmt_start (SDelete i _) = i"
| "stmt_start (SAssign i _ _) = i"
| "stmt_start (STypeAlias i _ _) = i"
| "stmt_start (SAugAssign i _ _ _) = i"
| "stmt_start (SAnnAssign i _ _ _) = i"
| "stmt_start (SFor i _ _ _ _) = i"
| "stmt_start (SAsyncFor i _ _ _ _) = i"
| "stmt_start (SWhile i _ _ _) = i"
| "stmt_start (SIf i _ _ _) = i"
| "stmt_start (SWith i _ _) = i"
| "stmt_start (SAsyncWith i _ _) = i"
| "stmt_start (SMatch i _ _) = i"
| "stmt_start (SRaise i _ _) = i"
| "stmt_start (STry i _ _ _ _) = i"
| "stmt_start (STryStar i _ _ _ _) = i"
| "stmt_start (SAssert i _ _) = i"
| "stmt_start (SImport i _) = i"
| "stmt_start (SImportFrom i _) = i"
| "stmt_start (SGlobal i _) = i"
| "stmt_start (SNonlocal i _) = i"
| "stmt_start (SExpr i _) = i"
| "stmt_start (SPass i) = i"
| "stmt_start (SBreak i) = i"
| "stmt_start (SContinue i) = i"

section \<open>The parser's side\<close>

text \<open>What \<open>rustpython_parser::parse\<close> returns: a module, another mode's tree, or an error.\<close>

datatype parsed = Module "stmt list" | OtherMode | ParseFailure nat string

record frontend =
  fe_parse :: "string \<Rightarrow> parsed"
  fe_location :: "string \<Rightarrow> nat \<Rightarrow> nat \<times> nat"
  fe_json_number :: "string \<Rightarrow> json option"
  fe_json_float :: "f64 \<Rightarrow> json option"
  fe_json_text :: "json \<Rightarrow> string"

record source_error =
  err_line :: nat
  err_column :: nat
  err_message :: string

definition source_error_at :: "nat \<times> nat \<Rightarrow> string \<Rightarrow> source_error" where
  "source_error_at loc msg = \<lparr>err_line = fst loc, err_column = snd loc, err_message = msg\<rparr>"

definition nb_hyphen :: string where
  "nb_hyphen = map char_of [226, 128, 145 :: nat]"

definition em_dash :: string where
  "em_dash = map char_of [226, 128, 148 :: nat]"

definition show_source_error :: "source_error \<Rightarrow> string" where
  "show_source_error e =
     ''line '' @ show_nat (err_line e) @ '':'' @ show_nat (err_column e) @ '' '' @ em_dash @ '' '' @ err_message e"

section \<open>Calls by name\<close>

definition callee_name :: "expr \<Rightarrow> string option" where
  "callee_name func = (case func of EName _ n \<Rightarrow> Some n | EAttribute _ _ a \<Rightarrow> Some a | _ \<Rightarrow> None)"

definition is_name_call :: "expr \<Rightarrow> string \<Rightarrow> bool" where
  "is_name_call e name \<longleftrightarrow>
     (case e of ECall _ f _ _ \<Rightarrow> (case f of EName _ n \<Rightarrow> n = name | _ \<Rightarrow> False) | _ \<Rightarrow> False)"

section \<open>The children of an expression\<close>

text \<open>The values of a list of optional fields.\<close>

primrec somes :: "'a option list \<Rightarrow> 'a list" where
  "somes [] = []"
| "somes (x # xs) = (case x of Some y \<Rightarrow> y # somes xs | None \<Rightarrow> somes xs)"

lemma set_somes: "set (somes ys) = {x. Some x \<in> set ys}"
  by (induction ys) (auto split: option.splits)

definition parameter_exprs :: "'e parameter \<Rightarrow> 'e list" where
  "parameter_exprs p = somes [par_annotation p, par_default p]"

definition annotation_exprs :: "'e parameter option \<Rightarrow> 'e list" where
  "annotation_exprs p = somes [Option.bind p par_annotation]"

definition parameters_exprs :: "'e parameters \<Rightarrow> 'e list" where
  "parameters_exprs ps =
     concat (map parameter_exprs (posonly_params ps)) @ concat (map parameter_exprs (plain_params ps)) @
     annotation_exprs (vararg_param ps) @ concat (map parameter_exprs (kwonly_params ps)) @
     annotation_exprs (kwarg_param ps)"

definition comprehension_exprs :: "'e comprehension \<Rightarrow> 'e list" where
  "comprehension_exprs g = comp_iter g # comp_target g # comp_ifs g"

fun expr_children :: "expr \<Rightarrow> expr list" where
  "expr_children (EBoolOp _ _ vs) = vs"
| "expr_children (ENamedExpr _ t v) = [t, v]"
| "expr_children (EBinOp _ l _ r) = [l, r]"
| "expr_children (EUnaryOp _ _ x) = [x]"
| "expr_children (ELambda _ ps b) = parameters_exprs ps @ [b]"
| "expr_children (EIfExp _ t b o') = [t, b, o']"
| "expr_children (EDict _ ks vs) = somes ks @ vs"
| "expr_children (ESet _ xs) = xs"
| "expr_children (EListComp _ x gs) = x # concat (map comprehension_exprs gs)"
| "expr_children (ESetComp _ x gs) = x # concat (map comprehension_exprs gs)"
| "expr_children (EDictComp _ k v gs) = k # v # concat (map comprehension_exprs gs)"
| "expr_children (EGeneratorExp _ x gs) = x # concat (map comprehension_exprs gs)"
| "expr_children (EAwait _ x) = [x]"
| "expr_children (EYield _ x) = somes [x]"
| "expr_children (EYieldFrom _ x) = [x]"
| "expr_children (ECompare _ l _ cs) = l # cs"
| "expr_children (ECall _ f as ks) = f # as @ map kw_value ks"
| "expr_children (EFormattedValue _ x s) = x # somes [s]"
| "expr_children (EJoinedStr _ vs) = vs"
| "expr_children (EConstant _ _) = []"
| "expr_children (EAttribute _ x _) = [x]"
| "expr_children (ESubscript _ x s) = [x, s]"
| "expr_children (EStarred _ x) = [x]"
| "expr_children (EName _ _) = []"
| "expr_children (EList _ xs) = xs"
| "expr_children (ETuple _ xs) = xs"
| "expr_children (ESlice _ l u s) = somes [l, u, s]"

lemma size_list_mem: "x \<in> set xs \<Longrightarrow> f x \<le> size_list f xs"
  by (induction xs) auto

lemma size_option_mem: "x = Some y \<Longrightarrow> f y \<le> size_option f x"
  by simp

lemma size_parameter_mem: "x \<in> set (parameter_exprs p) \<Longrightarrow> f x < size_parameter f p"
  by (cases p) (auto simp: parameter_exprs_def set_somes simp del: somes.simps)

lemma size_concat_mem:
  assumes "x \<in> set (concat (map g ys))" "\<And>y. y \<in> set ys \<Longrightarrow> x \<in> set (g y) \<Longrightarrow> f x < h y"
  shows "f x < size_list h ys"
  using assms by (induction ys) (auto simp: less_Suc_eq intro: trans_less_add1 trans_less_add2)

lemma size_parameters_mem:
  assumes "x \<in> set (parameters_exprs ps)"
  shows "f x < size_parameters f ps"
proof (cases ps)
  case (Parameters a b c d e)
  let ?h = "size_parameter f"
  have l: "x \<in> set (concat (map parameter_exprs ys)) \<Longrightarrow> f x < size_list ?h ys" for ys
    by (rule size_concat_mem) (auto intro: size_parameter_mem)
  have o': "x \<in> set (annotation_exprs y) \<Longrightarrow> f x < size_option ?h y" for y
  proof (cases y)
    case (Some p)
    moreover assume "x \<in> set (annotation_exprs y)"
    ultimately have "x \<in> set (parameter_exprs p)"
      by (auto simp: annotation_exprs_def parameter_exprs_def set_somes simp del: somes.simps)
    with Some size_parameter_mem [of x p f] show ?thesis by simp
  qed (auto simp: annotation_exprs_def)
  from assms Parameters consider "x \<in> set (concat (map parameter_exprs a))"
    | "x \<in> set (concat (map parameter_exprs b))" | "x \<in> set (annotation_exprs c)"
    | "x \<in> set (concat (map parameter_exprs d))" | "x \<in> set (annotation_exprs e)"
    by (auto simp: parameters_exprs_def)
  then show ?thesis unfolding Parameters
    by cases (auto dest!: l o' simp del: set_concat)
qed

lemma size_comprehension_mem: "x \<in> set (comprehension_exprs g) \<Longrightarrow> f x < size_comprehension f g"
  by (cases g) (auto simp: comprehension_exprs_def less_Suc_eq_le intro: size_list_mem trans_le_add1 trans_le_add2)

lemma size_comprehensions_mem:
  "x \<in> set (concat (map comprehension_exprs gs)) \<Longrightarrow> f x < size_list (size_comprehension f) gs"
  by (rule size_concat_mem) (auto intro: size_comprehension_mem)

lemma size_somes_mem: "x \<in> set (somes ys) \<Longrightarrow> f x < size_list (size_option f) ys"
  by (induction ys) (auto split: option.splits)

lemma size_keywords_mem: "x \<in> set (map kw_value ks) \<Longrightarrow> f x < size_list (size_keyword f) ks"
proof (induction ks)
  case (Cons k ks)
  then show ?case by (cases k) auto
qed simp

lemma expr_children_size:
  assumes "c \<in> set (expr_children e)"
  shows "size c < size e"
proof (cases e)
  case (ESlice i l u s)
  with assms show ?thesis by (auto simp: set_somes simp del: somes.simps)
qed (use assms in \<open>auto simp del: set_concat set_map somes.simps simp: less_Suc_eq_le
      dest: size_parameters_mem [where f = size] size_comprehensions_mem [where f = size]
        size_keywords_mem [where f = size] size_somes_mem [where f = size] size_list_mem [where f = size]\<close>)

end
