(* ===== verification/Sanitizer.thy ===== *)
theory Sanitizer
  imports Syntax
begin

text \<open>
  The sanitizer of Restricted Python (\<open>sanitizer.rs\<close>): \<open>visit_expr\<close> and \<open>visit_stmt\<close> with
  the state of \<open>SanitizerEngine\<close>, \<open>sanitize\<close> on source text.  \<open>loc\<close> turns an offset into line
  and column.

  \<open>forbidden_expr\<close> says which expressions Restricted Python forbids; the lemmas show that code
  which passes contains none of them in the positions the sanitizer visits.
\<close>

section \<open>Expressions\<close>

definition blocked_builtins :: "string list" where
  "blocked_builtins = [''eval'', ''exec'', ''__import__'', ''open'', ''compile'', ''globals'', ''locals'',
     ''vars'', ''dir'', ''input'', ''exit'', ''quit'', ''breakpoint'', ''getattr'', ''setattr'',
     ''delattr'', ''hasattr'', ''memoryview'', ''bytearray'', ''super'', ''staticmethod'',
     ''classmethod'', ''property'']"

definition blocked_methods :: "string list" where
  "blocked_methods = [''system'', ''popen'', ''Popen'', ''fork'', ''execve'', ''execvp'', ''execl'', ''spawn'']"

definition attribute_method_name :: "expr \<Rightarrow> string option" where
  "attribute_method_name func = (case func of EAttribute _ _ a \<Rightarrow> Some a | _ \<Rightarrow> None)"

definition is_str_literal :: "expr \<Rightarrow> bool" where
  "is_str_literal e \<longleftrightarrow> (case e of EConstant _ c \<Rightarrow> (case c of CStr _ \<Rightarrow> True | _ \<Rightarrow> False) | _ \<Rightarrow> False)"

definition check_call ::
  "(nat \<Rightarrow> nat \<times> nat) \<Rightarrow> nat \<Rightarrow> expr \<Rightarrow> expr list \<Rightarrow> source_error list" where
  "check_call loc i func args =
     (case callee_name func of
        None \<Rightarrow> [source_error_at (loc i) ''dynamic calls are forbidden (use a static function name)'']
      | Some name \<Rightarrow>
          (let err = (\<lambda>m. [source_error_at (loc (expr_start func)) m]) in
           if name \<in> set blocked_builtins then err (''`'' @ name @ ''()` is forbidden for security reasons'')
           else if (case attribute_method_name func of Some m \<Rightarrow> m \<in> set blocked_methods | None \<Rightarrow> False) then
             err (''`.'' @ name @ ''()` method call is forbidden for security reasons'')
           else if starts_with name ''__'' \<and> ends_with name ''__'' then
             err (''dunder method `'' @ name @ ''()` is forbidden'')
           else if name \<in> {''META'', ''GROUP'', ''PARALLEL''} then
             err (''`'' @ name @ ''` is a reserved DSL keyword (META(...) at module level, `with GROUP('' @
               [dquote] @ ''...'' @ [dquote] @ ''):`, `with PARALLEL() as p:`)'')
           else if name \<in> {''call'', ''act''} \<and> \<not> (args \<noteq> [] \<and> is_str_literal (hd args)) then
             err (''`'' @ name @ ''()` first argument must be a string literal (e.g. `'' @ name @ ''('' @
               [dquote] @ ''...'' @ [dquote] @ '', ...)`)'')
           else []))"

text \<open>The errors \<open>visit_expr\<close> reports for the expression itself.\<close>

fun expr_check :: "(nat \<Rightarrow> nat \<times> nat) \<Rightarrow> expr \<Rightarrow> source_error list" where
  "expr_check loc (ELambda i _ _) =
     [source_error_at (loc i) ''`lambda` is forbidden (use a named function or inline expression)'']"
| "expr_check loc (ENamedExpr i _ _) = [source_error_at (loc i) ''walrus operator `:=` is forbidden'']"
| "expr_check loc (EYield i _) =
     [source_error_at (loc i) ''`yield` is forbidden (graph execution is synchronous)'']"
| "expr_check loc (EYieldFrom i _) =
     [source_error_at (loc i) ''`yield from` is forbidden (graph execution is synchronous)'']"
| "expr_check loc (EAwait i _) =
     [source_error_at (loc i) ''`await` is forbidden (use synchronous calls)'']"
| "expr_check loc (EGeneratorExp i _ _) =
     [source_error_at (loc i) ''generator expression is forbidden (use a list + for loop)'']"
| "expr_check loc (EListComp i _ _) =
     [source_error_at (loc i) ''list comprehension is forbidden (use a `for` loop)'']"
| "expr_check loc (ESetComp i _ _) =
     [source_error_at (loc i) ''set comprehension is forbidden (use a `for` loop)'']"
| "expr_check loc (EDictComp i _ _ _) =
     [source_error_at (loc i) ''dict comprehension is forbidden (use a `for` loop)'']"
| "expr_check loc (EJoinedStr i _) =
     [source_error_at (loc i) (''f'' @ nb_hyphen @
        ''string is forbidden (use string concatenation or `.format()`)'')]"
| "expr_check loc (EFormattedValue i _ _) =
     [source_error_at (loc i) (''f'' @ nb_hyphen @ ''string value formatting is forbidden'')]"
| "expr_check loc (ECall i f as _) = check_call loc i f as"
| "expr_check loc (ESubscript i _ s) =
     (case s of
        ESlice _ _ _ _ \<Rightarrow>
          [source_error_at (loc i) (''slicing (items[a:b]) is not supported '' @ em_dash @ '' use a single index'')]
      | _ \<Rightarrow> [])"
| "expr_check loc (EStarred i _) = [source_error_at (loc i) ''starred expression `*expr` is forbidden'']"
| "expr_check loc _ = []"

function expr_errors :: "(nat \<Rightarrow> nat \<times> nat) \<Rightarrow> expr \<Rightarrow> source_error list" where
  "expr_errors loc e = expr_check loc e @ concat (map (expr_errors loc) (expr_children e))"
  by pat_completeness auto
termination
  by (relation "measure (\<lambda>(loc, e). size e)") (auto dest: expr_children_size)

declare expr_errors.simps [simp del]

section \<open>Statements\<close>

record sanitizer =
  san_errors :: "source_error list"
  function_depth :: nat
  loop_depth :: nat
  parallel_depth :: nat
  group_depth :: nat
  top_level_names :: "string list"

definition sanitizer_new :: sanitizer where
  "sanitizer_new = \<lparr>san_errors = [], function_depth = 0, loop_depth = 0, parallel_depth = 0,
     group_depth = 0, top_level_names = []\<rparr>"

definition push_errors :: "source_error list \<Rightarrow> sanitizer \<Rightarrow> sanitizer" where
  "push_errors es st = st\<lparr>san_errors := san_errors st @ es\<rparr>"

definition report :: "(nat \<Rightarrow> nat \<times> nat) \<Rightarrow> nat \<Rightarrow> string \<Rightarrow> sanitizer \<Rightarrow> sanitizer" where
  "report loc i msg = push_errors [source_error_at (loc i) msg]"

definition visit_expr :: "(nat \<Rightarrow> nat \<times> nat) \<Rightarrow> expr \<Rightarrow> sanitizer \<Rightarrow> sanitizer" where
  "visit_expr loc e = push_errors (expr_errors loc e)"

definition visit_exprs :: "(nat \<Rightarrow> nat \<times> nat) \<Rightarrow> expr list \<Rightarrow> sanitizer \<Rightarrow> sanitizer" where
  "visit_exprs loc = fold (visit_expr loc)"

definition record_assignment_target ::
  "(nat \<Rightarrow> nat \<times> nat) \<Rightarrow> expr \<Rightarrow> sanitizer \<Rightarrow> sanitizer" where
  "record_assignment_target loc target st =
     (case target of
        EName i name \<Rightarrow>
          (let st1 = (if 0 < parallel_depth st \<and> name \<in> set (top_level_names st)
                      then report loc i (''potential data race: `'' @ name @
                        ''` is assigned inside `parallel()` but was also assigned in the outer scope '' @
                        ''(use a local variable instead)'') st
                      else st)
           in if parallel_depth st1 = 0 \<and> name \<notin> set (top_level_names st1)
              then st1\<lparr>top_level_names := top_level_names st1 @ [name]\<rparr> else st1)
      | _ \<Rightarrow> st)"

definition validate_group_item ::
  "(nat \<Rightarrow> nat \<times> nat) \<Rightarrow> with_item \<Rightarrow> nat \<Rightarrow> sanitizer \<Rightarrow> sanitizer" where
  "validate_group_item loc item i st =
     (if item_vars item \<noteq> None then
        report loc i (''`with GROUP('' @ [dquote] @ ''...'' @ [dquote] @ ''):` does not support `as` binding'') st
      else case item_expr item of
        ECall _ _ as _ \<Rightarrow>
          (case as of
             [EConstant _ (CStr s)] \<Rightarrow>
               if s \<noteq> [] then st
               else report loc i ''`GROUP` title must be a non-empty string literal'' st
           | _ \<Rightarrow> report loc i (''`GROUP` expects exactly one string literal argument, e.g. `with GROUP('' @
               [dquote] @ ''Seeding'' @ [dquote] @ ''):`'') st)
      | _ \<Rightarrow> st)"

fun is_meta_constant :: "expr \<Rightarrow> bool" where
  "is_meta_constant (EConstant _ _) \<longleftrightarrow> True"
| "is_meta_constant (EUnaryOp _ _ x) \<longleftrightarrow> (case x of EConstant _ _ \<Rightarrow> True | _ \<Rightarrow> False)"
| "is_meta_constant (EList _ xs) \<longleftrightarrow> (\<forall>x \<in> set xs. is_meta_constant x)"
| "is_meta_constant (ETuple _ xs) \<longleftrightarrow> (\<forall>x \<in> set xs. is_meta_constant x)"
| "is_meta_constant _ \<longleftrightarrow> False"

definition meta_keyword_check ::
  "(nat \<Rightarrow> nat \<times> nat) \<Rightarrow> nat \<Rightarrow> expr keyword \<Rightarrow> sanitizer \<Rightarrow> sanitizer" where
  "meta_keyword_check loc i kw st =
     (if kw_name kw = None then report loc i ''`**kwargs` is forbidden in `META(...)`'' st
      else if \<not> is_meta_constant (kw_value kw) then
        report loc (expr_start (kw_value kw))
          ''`META` values must be constant literals (strings, numbers, booleans, or lists of constants)'' st
      else st)"

definition meta_check ::
  "(nat \<Rightarrow> nat \<times> nat) \<Rightarrow> nat \<Rightarrow> expr list \<Rightarrow> expr keyword list \<Rightarrow> sanitizer \<Rightarrow> sanitizer" where
  "meta_check loc i as ks st =
     (if function_depth st \<noteq> 0 then
        report loc i ''`META(...)` is only allowed at module level, before `def graph`'' st
      else if as \<noteq> [] then report loc i ''`META(...)` accepts keyword arguments only'' st
      else fold (meta_keyword_check loc i) ks st)"

definition function_check ::
  "(nat \<Rightarrow> nat \<times> nat) \<Rightarrow> nat \<Rightarrow> string \<Rightarrow> expr list \<Rightarrow> sanitizer \<Rightarrow> sanitizer" where
  "function_check loc i name decorators st =
     (let st1 = (if 0 < function_depth st then report loc i ''nested function definitions are forbidden'' st
                 else if name \<noteq> ''graph'' then
                   report loc i (''only one function named `graph` is allowed (found `'' @ name @ ''`)'') st
                 else st)
      in if decorators \<noteq> [] then report loc i ''decorators are forbidden'' st1 else st1)"

definition is_parallel_with :: "with_item list \<Rightarrow> bool" where
  "is_parallel_with items \<longleftrightarrow> length items = 1 \<and> is_name_call (item_expr (hd items)) ''PARALLEL''"

definition is_group_with :: "with_item list \<Rightarrow> bool" where
  "is_group_with items \<longleftrightarrow> length items = 1 \<and> is_name_call (item_expr (hd items)) ''GROUP''"

definition group_check ::
  "(nat \<Rightarrow> nat \<times> nat) \<Rightarrow> nat \<Rightarrow> with_item list \<Rightarrow> sanitizer \<Rightarrow> sanitizer" where
  "group_check loc i items st =
     validate_group_item loc (hd items) i
       (if 0 < group_depth st then report loc i ''nested `with GROUP(...)` is forbidden'' st else st)"

definition item_exprs :: "with_item list \<Rightarrow> expr list" where
  "item_exprs items = concat (map (\<lambda>w. item_expr w # somes [item_vars w]) items)"

text \<open>The first part of \<open>visit_stmt\<close>: what is reported and recorded before the children.\<close>

fun stmt_check :: "(nat \<Rightarrow> nat \<times> nat) \<Rightarrow> stmt \<Rightarrow> sanitizer \<Rightarrow> sanitizer" where
  "stmt_check loc (SImport i names) st =
     report loc i (''import is forbidden (remove `import '' @ join '', '' names @ ''`)'') st"
| "stmt_check loc (SImportFrom i m) st =
     report loc i (''from'' @ nb_hyphen @ ''import is forbidden (remove `from '' @
       (case m of Some s \<Rightarrow> s | None \<Rightarrow> []) @ '' import ...`)'') st"
| "stmt_check loc (SClassDef i name _ _ _) st =
     report loc i (''class definition is forbidden (remove `class '' @ name @ ''`)'') st"
| "stmt_check loc (SWhile i _ _ _) st =
     report loc i ''`while` is forbidden (use `for` with a bounded range)'' st"
| "stmt_check loc (STry i _ _ _ _) st =
     report loc i (''`try`/`except` is forbidden (use the graph'' @ [squote] @ ''s ERROR mechanism)'') st"
| "stmt_check loc (STryStar i _ _ _ _) st =
     report loc i (''`try`/`except*` is forbidden (use the graph'' @ [squote] @ ''s ERROR mechanism)'') st"
| "stmt_check loc (SAsyncFunctionDef i name _ _) st =
     report loc i (''`async def` is forbidden (remove `async` from `'' @ name @ ''`)'') st"
| "stmt_check loc (SAsyncFor i _ _ _ _) st = report loc i ''`async for` is forbidden'' st"
| "stmt_check loc (SAsyncWith i _ _) st = report loc i ''`async with` is forbidden'' st"
| "stmt_check loc (SGlobal i names) st =
     report loc i (''`global` is forbidden (remove `global '' @ join '', '' names @ ''`)'') st"
| "stmt_check loc (SNonlocal i names) st =
     report loc i (''`nonlocal` is forbidden (remove `nonlocal '' @ join '', '' names @ ''`)'') st"
| "stmt_check loc (SWith i items _) st =
     report loc i (''`with` is forbidden except for `with PARALLEL() as p:` or `with GROUP('' @
       [dquote] @ ''...'' @ [dquote] @ ''):`'') st"
| "stmt_check loc (SDelete i _) st = report loc i ''`del` is forbidden'' st"
| "stmt_check loc (STypeAlias i _ _) st = report loc i ''`type` alias is forbidden'' st"
| "stmt_check loc (SReturn i _) st =
     (if function_depth st = 0 then report loc i ''`return` outside a function is forbidden'' st else st)"
| "stmt_check loc (SBreak i) st =
     (if loop_depth st = 0 then report loc i ''`break` outside a loop is forbidden'' st else st)"
| "stmt_check loc (SContinue i) st =
     (if loop_depth st = 0 then report loc i ''`continue` outside a loop is forbidden'' st else st)"
| "stmt_check loc (SFor _ _ _ _ _) st = st\<lparr>loop_depth := loop_depth st + 1\<rparr>"
| "stmt_check loc (SAssign _ targets _) st = fold (record_assignment_target loc) targets st"
| "stmt_check loc (SAnnAssign _ target _ _) st = record_assignment_target loc target st"
| "stmt_check loc (SAugAssign _ target _ _) st = record_assignment_target loc target st"
| "stmt_check loc _ st = st"

text \<open>
  The whole visitor.  A function definition, an allowed \<open>with\<close> and a \<open>META\<close> call end it
  early; the value of a \<open>return\<close> and of an expression statement is visited before the children
  are, which visit it again.
\<close>

function (sequential) visit_stmt :: "(nat \<Rightarrow> nat \<times> nat) \<Rightarrow> stmt \<Rightarrow> sanitizer \<Rightarrow> sanitizer" and
  visit_stmts :: "(nat \<Rightarrow> nat \<times> nat) \<Rightarrow> stmt list \<Rightarrow> sanitizer \<Rightarrow> sanitizer" and
  visit_cases :: "(nat \<Rightarrow> nat \<times> nat) \<Rightarrow> match_case list \<Rightarrow> sanitizer \<Rightarrow> sanitizer" and
  visit_handlers :: "(nat \<Rightarrow> nat \<times> nat) \<Rightarrow> handler list \<Rightarrow> sanitizer \<Rightarrow> sanitizer" where
  "visit_stmt loc (SFunctionDef i name ps body decorators ret) st =
     (let st1 = function_check loc i name decorators st;
          st2 = visit_exprs loc (somes [ret]) (st1\<lparr>function_depth := function_depth st1 + 1\<rparr>);
          st3 = visit_stmts loc body st2
      in st3\<lparr>function_depth := function_depth st3 - 1\<rparr>)"
| "visit_stmt loc (SWith i items body) st =
     (if is_group_with items then
        (let st1 = group_check loc i items st;
             st2 = visit_stmts loc body (st1\<lparr>group_depth := group_depth st1 + 1\<rparr>)
         in st2\<lparr>group_depth := group_depth st2 - 1\<rparr>)
      else if is_parallel_with items then
        (let st1 = visit_stmts loc body (st\<lparr>parallel_depth := parallel_depth st + 1\<rparr>)
         in st1\<lparr>parallel_depth := parallel_depth st1 - 1\<rparr>)
      else visit_stmts loc body (visit_exprs loc (item_exprs items) (stmt_check loc (SWith i items body) st)))"
| "visit_stmt loc (SExpr i e) st =
     (if is_name_call e ''META'' then
        (case e of ECall j _ as ks \<Rightarrow> meta_check loc j as ks st | _ \<Rightarrow> st)
      else visit_expr loc e (visit_expr loc e st))"
| "visit_stmt loc (SReturn i v) st =
     visit_exprs loc (somes [v, v]) (stmt_check loc (SReturn i v) st)"
| "visit_stmt loc (SAssign i targets v) st =
     visit_exprs loc (targets @ [v]) (stmt_check loc (SAssign i targets v) st)"
| "visit_stmt loc (SAnnAssign i target ann v) st =
     visit_exprs loc (target # ann # somes [v]) (stmt_check loc (SAnnAssign i target ann v) st)"
| "visit_stmt loc (SAugAssign i target op v) st =
     visit_exprs loc [target, v] (stmt_check loc (SAugAssign i target op v) st)"
| "visit_stmt loc (SIf i t body orelse) st =
     visit_stmts loc orelse (visit_stmts loc body (visit_expr loc t st))"
| "visit_stmt loc (SFor i target iter body orelse) st =
     (let st1 = visit_exprs loc [target, iter] (stmt_check loc (SFor i target iter body orelse) st);
          st2 = visit_stmts loc orelse (visit_stmts loc body st1)
      in st2\<lparr>loop_depth := loop_depth st2 - 1\<rparr>)"
| "visit_stmt loc (SWhile i t body orelse) st =
     visit_stmts loc orelse (visit_stmts loc body
       (visit_expr loc t (stmt_check loc (SWhile i t body orelse) st)))"
| "visit_stmt loc (SRaise i exc cause) st = visit_exprs loc (somes [exc, cause]) st"
| "visit_stmt loc (SAssert i t msg) st = visit_exprs loc (t # somes [msg]) st"
| "visit_stmt loc (SDelete i targets) st = visit_exprs loc targets (stmt_check loc (SDelete i targets) st)"
| "visit_stmt loc (SAsyncFunctionDef i name body ret) st =
     visit_stmts loc body (visit_exprs loc (somes [ret])
       (stmt_check loc (SAsyncFunctionDef i name body ret) st))"
| "visit_stmt loc (SAsyncFor i target iter body orelse) st =
     visit_stmts loc orelse (visit_stmts loc body
       (visit_exprs loc [target, iter] (stmt_check loc (SAsyncFor i target iter body orelse) st)))"
| "visit_stmt loc (SAsyncWith i items body) st =
     visit_stmts loc body (visit_exprs loc (item_exprs items)
       (stmt_check loc (SAsyncWith i items body) st))"
| "visit_stmt loc (SClassDef i name bases ks body) st =
     visit_stmts loc body (visit_exprs loc (bases @ map kw_value ks)
       (stmt_check loc (SClassDef i name bases ks body) st))"
| "visit_stmt loc (SMatch i subject cases) st = visit_cases loc cases (visit_expr loc subject st)"
| "visit_stmt loc (STry i body hs orelse final) st =
     visit_stmts loc final (visit_stmts loc orelse (visit_handlers loc hs
       (visit_stmts loc body (stmt_check loc (STry i body hs orelse final) st))))"
| "visit_stmt loc (STryStar i body hs orelse final) st =
     visit_stmts loc final (visit_stmts loc orelse (visit_handlers loc hs
       (visit_stmts loc body (stmt_check loc (STryStar i body hs orelse final) st))))"
| "visit_stmt loc (STypeAlias i name v) st =
     visit_exprs loc [name, v] (stmt_check loc (STypeAlias i name v) st)"
| "visit_stmt loc s st = stmt_check loc s st"
| "visit_stmts loc [] st = st"
| "visit_stmts loc (s # ss) st = visit_stmts loc ss (visit_stmt loc s st)"
| "visit_cases loc [] st = st"
| "visit_cases loc (MatchCase p guard body # cs) st =
     visit_cases loc cs (visit_stmts loc body (visit_exprs loc (somes [guard]) st))"
| "visit_handlers loc [] st = st"
| "visit_handlers loc (Handler t body # hs) st =
     visit_handlers loc hs (visit_stmts loc body (visit_exprs loc (somes [t]) st))"
  by pat_completeness auto
termination
  by (relation "measure (case_sum (case_sum (\<lambda>(_, s, _). size s) (\<lambda>(_, ss, _). size_list size ss))
      (case_sum (\<lambda>(_, cs, _). size_list size cs) (\<lambda>(_, hs, _). size_list size hs)))") simp_all

section \<open>The sanitizer\<close>

text \<open>\<open>sanitize\<close> returns all the errors it found.\<close>

definition sanitize_stmts :: "(nat \<Rightarrow> nat \<times> nat) \<Rightarrow> stmt list \<Rightarrow> source_error list" where
  "sanitize_stmts loc body = san_errors (visit_stmts loc body sanitizer_new)"

definition sanitize :: "frontend \<Rightarrow> string \<Rightarrow> source_error list + unit" where
  "sanitize fe code =
     (let errors = (case fe_parse fe code of
            Module body \<Rightarrow> sanitize_stmts (fe_location fe code) body
          | OtherMode \<Rightarrow> [source_error_at (0, 0) (''only Module'' @ nb_hyphen @ ''level code is allowed'')]
          | ParseFailure i msg \<Rightarrow> [source_error_at (fe_location fe code i) (''parse error: '' @ msg)])
      in if errors = [] then Inr () else Inl errors)"

section \<open>Restricted Python\<close>

definition restricted_call :: "expr \<Rightarrow> expr list \<Rightarrow> bool" where
  "restricted_call f as \<longleftrightarrow>
     (\<exists>name. callee_name f = Some name \<and> name \<notin> set blocked_builtins \<and>
        (\<forall>i x. f = EAttribute i x name \<longrightarrow> name \<notin> set blocked_methods) \<and>
        \<not> (starts_with name ''__'' \<and> ends_with name ''__'') \<and>
        name \<notin> {''META'', ''GROUP'', ''PARALLEL''} \<and>
        (name \<in> {''call'', ''act''} \<longrightarrow> as \<noteq> [] \<and> is_str_literal (hd as)))"

definition restricted_expr :: "expr \<Rightarrow> bool" where
  "restricted_expr e \<longleftrightarrow> (case e of
       ELambda _ _ _ \<Rightarrow> False | ENamedExpr _ _ _ \<Rightarrow> False | EYield _ _ \<Rightarrow> False | EYieldFrom _ _ \<Rightarrow> False
     | EAwait _ _ \<Rightarrow> False | EGeneratorExp _ _ _ \<Rightarrow> False | EListComp _ _ _ \<Rightarrow> False
     | ESetComp _ _ _ \<Rightarrow> False | EDictComp _ _ _ _ \<Rightarrow> False | EJoinedStr _ _ \<Rightarrow> False
     | EFormattedValue _ _ _ \<Rightarrow> False | EStarred _ _ \<Rightarrow> False
     | ESubscript _ _ s \<Rightarrow> (\<forall>i l u st. s \<noteq> ESlice i l u st)
     | ECall _ f as _ \<Rightarrow> restricted_call f as
     | _ \<Rightarrow> True)"

inductive occurs :: "expr \<Rightarrow> expr \<Rightarrow> bool" where
  here: "occurs e e"
| inside: "occurs x c \<Longrightarrow> c \<in> set (expr_children e) \<Longrightarrow> occurs x e"

lemma check_call_restricted:
  assumes "check_call loc i f as = []"
  shows "restricted_call f as"
proof (cases "callee_name f")
  case None
  with assms show ?thesis by (simp add: check_call_def)
next
  case (Some name)
  note a = assms [unfolded check_call_def Some option.case Let_def]
  have "name \<notin> set blocked_builtins" using a by (simp only: split: if_splits) simp_all
  moreover from this a have "\<not> (case attribute_method_name f of Some m \<Rightarrow> m \<in> set blocked_methods | None \<Rightarrow> False)"
    by (simp only: if_False split: if_splits) simp_all
  moreover from calculation a have "\<not> (starts_with name ''__'' \<and> ends_with name ''__'')"
    by (simp only: if_False split: if_splits) simp_all
  moreover from calculation a have "name \<notin> {''META'', ''GROUP'', ''PARALLEL''}"
    by (simp only: if_False split: if_splits) simp_all
  moreover from calculation a
  have "name \<in> {''call'', ''act''} \<longrightarrow> as \<noteq> [] \<and> is_str_literal (hd as)"
    by (simp only: if_False split: if_splits) auto
  ultimately show ?thesis using Some
    unfolding restricted_call_def by (intro exI [of _ name]) (auto simp: attribute_method_name_def)
qed

lemma expr_check_restricted: "expr_check loc e = [] \<Longrightarrow> restricted_expr e"
  by (cases e) (auto simp: restricted_expr_def dest: check_call_restricted split: expr.splits)

lemma expr_errors_restricted: "occurs x e \<Longrightarrow> expr_errors loc e = [] \<Longrightarrow> restricted_expr x"
proof (induction rule: occurs.induct)
  case (here e)
  then have "expr_check loc e = []" by (simp add: expr_errors.simps [of loc e])
  then show ?case by (rule expr_check_restricted)
next
  case (inside x c e)
  then show ?case by (simp add: expr_errors.simps [of loc e])
qed

text \<open>The statements and expressions directly below a statement, where the sanitizer visits them.\<close>

fun stmt_children :: "stmt \<Rightarrow> stmt list" where
  "stmt_children (SFunctionDef _ _ _ body _ _) = body"
| "stmt_children (SAsyncFunctionDef _ _ body _) = body"
| "stmt_children (SClassDef _ _ _ _ body) = body"
| "stmt_children (SFor _ _ _ body orelse) = body @ orelse"
| "stmt_children (SAsyncFor _ _ _ body orelse) = body @ orelse"
| "stmt_children (SWhile _ _ body orelse) = body @ orelse"
| "stmt_children (SIf _ _ body orelse) = body @ orelse"
| "stmt_children (SWith _ _ body) = body"
| "stmt_children (SAsyncWith _ _ body) = body"
| "stmt_children (SMatch _ _ cases) = concat (map mc_body cases)"
| "stmt_children (STry _ body hs orelse final) = body @ concat (map handler_body hs) @ orelse @ final"
| "stmt_children (STryStar _ body hs orelse final) = body @ concat (map handler_body hs) @ orelse @ final"
| "stmt_children _ = []"

fun stmt_exprs :: "stmt \<Rightarrow> expr list" where
  "stmt_exprs (SFunctionDef _ _ _ _ _ ret) = somes [ret]"
| "stmt_exprs (SReturn _ v) = somes [v]"
| "stmt_exprs (SAssign _ targets v) = targets @ [v]"
| "stmt_exprs (SAnnAssign _ target ann v) = target # ann # somes [v]"
| "stmt_exprs (SAugAssign _ target _ v) = [target, v]"
| "stmt_exprs (SIf _ t _ _) = [t]"
| "stmt_exprs (SFor _ target iter _ _) = [target, iter]"
| "stmt_exprs (SExpr _ e) = (if is_name_call e ''META'' then [] else [e])"
| "stmt_exprs (SRaise _ exc cause) = somes [exc, cause]"
| "stmt_exprs (SAssert _ t msg) = t # somes [msg]"
| "stmt_exprs (SMatch _ subject cases) = subject # somes (map mc_guard cases)"
| "stmt_exprs _ = []"

definition restricted_kind :: "stmt \<Rightarrow> bool" where
  "restricted_kind s \<longleftrightarrow> (case s of
       SFunctionDef _ name _ _ decorators _ \<Rightarrow> name = ''graph'' \<and> decorators = []
     | SWith _ items _ \<Rightarrow> is_parallel_with items \<or> is_group_with items
     | SReturn _ _ \<Rightarrow> True | SAssign _ _ _ \<Rightarrow> True | SAugAssign _ _ _ _ \<Rightarrow> True | SAnnAssign _ _ _ _ \<Rightarrow> True
     | SFor _ _ _ _ _ \<Rightarrow> True | SIf _ _ _ _ \<Rightarrow> True | SMatch _ _ _ \<Rightarrow> True | SRaise _ _ _ \<Rightarrow> True
     | SAssert _ _ _ \<Rightarrow> True | SExpr _ _ \<Rightarrow> True | SPass _ \<Rightarrow> True | SBreak _ \<Rightarrow> True | SContinue _ \<Rightarrow> True
     | _ \<Rightarrow> False)"

inductive occurs_stmt :: "stmt \<Rightarrow> stmt list \<Rightarrow> bool" where
  member: "s \<in> set body \<Longrightarrow> occurs_stmt s body"
| nested: "occurs_stmt s (stmt_children t) \<Longrightarrow> t \<in> set body \<Longrightarrow> occurs_stmt s body"

section \<open>Accepted code is Restricted Python\<close>

text \<open>Errors are never withdrawn: a clean state was clean before.\<close>

named_theorems clean \<open>what a clean state says of the visit that led to it\<close>

lemma push_errors_clean [clean]: "san_errors (push_errors es st) = [] \<longleftrightarrow> san_errors st = [] \<and> es = []"
  by (auto simp: push_errors_def)

lemma report_clean [clean]: "san_errors (report loc i m st) \<noteq> []"
  by (simp add: report_def push_errors_def)

lemma visit_expr_clean [clean]:
  "san_errors (visit_expr loc e st) = [] \<longleftrightarrow> san_errors st = [] \<and> expr_errors loc e = []"
  by (simp add: visit_expr_def push_errors_clean)

lemma visit_exprs_clean [clean]:
  "san_errors (visit_exprs loc es st) = [] \<longleftrightarrow> san_errors st = [] \<and> (\<forall>e \<in> set es. expr_errors loc e = [])"
  unfolding visit_exprs_def by (induction es arbitrary: st) (auto simp: visit_expr_clean)

definition keeps_errors :: "(sanitizer \<Rightarrow> sanitizer) \<Rightarrow> bool" where
  "keeps_errors f \<longleftrightarrow> (\<forall>st. san_errors st \<noteq> [] \<longrightarrow> san_errors (f st) \<noteq> [])"

lemma keeps_clean: "keeps_errors f \<Longrightarrow> san_errors (f st) = [] \<Longrightarrow> san_errors st = []"
  by (auto simp: keeps_errors_def)

lemma keeps_report [intro]: "keeps_errors (report loc i m)"
  by (simp add: keeps_errors_def report_clean)

lemma keeps_fold: "(\<And>x. keeps_errors (f x)) \<Longrightarrow> keeps_errors (fold f xs)"
  by (induction xs) (simp_all add: keeps_errors_def)

lemma keeps_if: "keeps_errors f \<Longrightarrow> keeps_errors g \<Longrightarrow> keeps_errors (\<lambda>st. if P st then f st else g st)"
  by (simp add: keeps_errors_def)

lemma keeps_id: "keeps_errors (\<lambda>st. st)"
  by (simp add: keeps_errors_def)

lemma keeps_record_target: "keeps_errors (record_assignment_target loc e)"
proof (cases e)
  case (EName i n)
  then show ?thesis
    unfolding keeps_errors_def record_assignment_target_def
    by (simp only: expr.case Let_def) (simp add: report_clean)
qed (simp_all add: keeps_errors_def record_assignment_target_def)

lemma keeps_group_item: "keeps_errors (validate_group_item loc item i)"
  unfolding keeps_errors_def validate_group_item_def
  by (simp only: report_clean split: if_split expr.split list.split py_const.split) simp

lemma keeps_group_check: "keeps_errors (group_check loc i items)"
proof -
  have "san_errors st = []" if "san_errors (group_check loc i items st) = []" for st
  proof (cases "0 < group_depth st")
    case True
    show ?thesis
      using keeps_clean [OF keeps_group_item that [unfolded group_check_def if_P [OF True]]]
      by (simp only: report_clean)
  next
    case False
    show ?thesis
      by (rule keeps_clean [OF keeps_group_item that [unfolded group_check_def if_not_P [OF False]]])
  qed
  then show ?thesis unfolding keeps_errors_def by blast
qed

lemma keeps_meta_check: "keeps_errors (meta_check loc i as ks)"
proof -
  have k: "keeps_errors (meta_keyword_check loc i k)" for k
    unfolding keeps_errors_def meta_keyword_check_def by (simp only: report_clean split: if_split) simp
  show ?thesis
    using keeps_fold [of "meta_keyword_check loc i", OF k]
    unfolding keeps_errors_def meta_check_def by (simp only: report_clean split: if_split) simp
qed

lemma function_check_clean:
  "san_errors (function_check loc i name decorators st) = [] \<Longrightarrow>
   san_errors st = [] \<and> name = ''graph'' \<and> decorators = []"
  unfolding function_check_def Let_def by (simp only: report_clean split: if_splits)

lemma keeps_stmt_check: "keeps_errors (stmt_check loc s)"
proof (cases s)
  case (SAssign i targets v)
  then show ?thesis using keeps_fold [OF keeps_record_target] by (simp add: keeps_errors_def)
next
  case (SAnnAssign i t a v)
  then show ?thesis using keeps_record_target by (simp add: keeps_errors_def)
next
  case (SAugAssign i t op v)
  then show ?thesis using keeps_record_target by (simp add: keeps_errors_def)
qed (simp_all only: keeps_errors_def stmt_check.simps report_clean sanitizer.simps split: if_split, simp_all)

lemma depth_clean [clean]:
  "san_errors (st\<lparr>function_depth := k\<rparr>) = san_errors st" "san_errors (st\<lparr>loop_depth := k\<rparr>) = san_errors st"
  "san_errors (st\<lparr>parallel_depth := k\<rparr>) = san_errors st" "san_errors (st\<lparr>group_depth := k\<rparr>) = san_errors st"
  by simp_all

text \<open>A statement all of whose parts are restricted.\<close>

definition clean_stmt :: "(nat \<Rightarrow> nat \<times> nat) \<Rightarrow> stmt \<Rightarrow> bool" where
  "clean_stmt loc s \<longleftrightarrow> restricted_kind s \<and> (\<forall>e \<in> set (stmt_exprs s). expr_errors loc e = [])"

definition clean_body :: "(nat \<Rightarrow> nat \<times> nat) \<Rightarrow> stmt list \<Rightarrow> bool" where
  "clean_body loc ss \<longleftrightarrow> (\<forall>s. occurs_stmt s ss \<longrightarrow> clean_stmt loc s)"

lemma clean_body_Nil [simp]: "clean_body loc []"
  by (auto simp: clean_body_def elim: occurs_stmt.cases)

lemma occurs_stmt_Cons:
  "occurs_stmt s (t # ss) \<longleftrightarrow> s = t \<or> occurs_stmt s (stmt_children t) \<or> occurs_stmt s ss"
  (is "?l \<longleftrightarrow> ?r")
proof
  assume ?r
  moreover have "occurs_stmt s ss \<Longrightarrow> ?l" by (erule occurs_stmt.cases) (auto intro: occurs_stmt.intros)
  ultimately show ?l by (auto intro: occurs_stmt.intros)
next
  assume ?l
  then show ?r by cases (auto intro: occurs_stmt.intros)
qed

lemma clean_body_Cons [simp]:
  "clean_body loc (t # ss) \<longleftrightarrow> clean_stmt loc t \<and> clean_body loc (stmt_children t) \<and> clean_body loc ss"
  by (auto simp: clean_body_def occurs_stmt_Cons)

lemma clean_body_append [simp]: "clean_body loc (ss @ ts) \<longleftrightarrow> clean_body loc ss \<and> clean_body loc ts"
  by (induction ss) auto

lemma checked_clean:
  assumes "san_errors (visit_exprs loc es (stmt_check loc s st)) = []"
  shows "san_errors st = [] \<and> (\<forall>e \<in> set es. expr_errors loc e = [])"
proof -
  from assms have "san_errors (stmt_check loc s st) = []" "\<forall>e \<in> set es. expr_errors loc e = []"
    by (simp_all add: visit_exprs_clean)
  with keeps_clean [OF keeps_stmt_check] show ?thesis by blast
qed

lemmas clean_defs = clean_stmt_def restricted_kind_def

lemma visit_clean:
  "san_errors (visit_stmt loc s st) = [] \<Longrightarrow>
     san_errors st = [] \<and> clean_stmt loc s \<and> clean_body loc (stmt_children s)"
  "san_errors (visit_stmts loc ss st) = [] \<Longrightarrow> san_errors st = [] \<and> clean_body loc ss"
  "san_errors (visit_cases loc cs st) = [] \<Longrightarrow>
     san_errors st = [] \<and> (\<forall>e \<in> set (somes (map mc_guard cs)). expr_errors loc e = []) \<and>
     clean_body loc (concat (map mc_body cs))"
  "san_errors (visit_handlers loc hs st) = [] \<Longrightarrow> san_errors st = []"
proof (induction loc s st and loc ss st and loc cs st and loc hs st
    rule: visit_stmt_visit_stmts_visit_cases_visit_handlers.induct)
  case (1 loc i name ps body decorators ret st)
  note IH = "1.IH" [OF refl refl]
  have "san_errors (visit_stmts loc body (visit_exprs loc (somes [ret])
      (function_check loc i name decorators st
        \<lparr>function_depth := function_depth (function_check loc i name decorators st) + 1\<rparr>))) = []"
    using "1.prems" by (simp add: Let_def)
  from IH [OF this] show ?case
    by (simp add: clean clean_stmt_def restricted_kind_def del: somes.simps)
      (blast dest: function_check_clean)
next
  case (2 loc i items body st)
  show ?case
  proof (cases "is_group_with items")
    case True
    from "2.prems" True "2.IH"(1) [OF True refl]
    have c: "clean_body loc body" "san_errors (group_check loc i items st) = []" by (simp_all add: Let_def)
    from keeps_clean [OF keeps_group_check c(2)] have "san_errors st = []" .
    with c(1) True show ?thesis by (simp add: clean_stmt_def restricted_kind_def)
  next
    case False
    show ?thesis
    proof (cases "is_parallel_with items")
      case True
      from "2.prems" False True "2.IH"(2) [OF False True]
      show ?thesis by (simp add: Let_def clean_stmt_def restricted_kind_def)
    next
      case np: False
      from "2.prems" have "san_errors (visit_stmts loc body
          (visit_exprs loc (item_exprs items) (stmt_check loc (SWith i items body) st))) = []"
        by (simp only: visit_stmt.simps False np if_False)
      from "2.IH"(3) [OF False np this] show ?thesis
        by (simp only: visit_exprs_clean stmt_check.simps report_clean simp_thms)
    qed
  qed
next
  case (3 loc i e st)
  show ?case
  proof (cases "is_name_call e ''META''")
    case True
    then obtain j f as ks where e: "e = ECall j f as ks" by (cases e) (simp_all add: is_name_call_def)
    from "3.prems" True have "san_errors (meta_check loc j as ks st) = []" by (simp add: e)
    from keeps_clean [OF keeps_meta_check this] True show ?thesis
      by (simp add: clean_stmt_def restricted_kind_def)
  next
    case False
    with "3.prems" show ?thesis by (simp add: clean clean_stmt_def restricted_kind_def)
  qed
next
  case (4 loc i v st)
  from checked_clean [OF "4.prems" [unfolded visit_stmt.simps]] show ?case
    by (auto simp: clean_defs split: option.splits)
next
  case (5 loc i targets v st)
  from checked_clean [OF "5.prems" [unfolded visit_stmt.simps]] show ?case
    by (simp add: clean_defs)
next
  case (6 loc i target ann v st)
  from checked_clean [OF "6.prems" [unfolded visit_stmt.simps]] show ?case
    by (simp add: clean_defs)
next
  case (7 loc i target op v st)
  from checked_clean [OF "7.prems" [unfolded visit_stmt.simps]] show ?case
    by (simp add: clean_defs)
qed (simp_all add: Let_def clean clean_defs split: if_splits option.splits)

text \<open>The depth of functions is the same after a visit, and inside a function \<open>META\<close> is an error.\<close>

named_theorems depth \<open>what leaves the depth of functions as it is\<close>

lemma report_depth [depth]: "function_depth (report loc i m st) = function_depth st"
  by (simp add: report_def push_errors_def)

lemma visit_exprs_depth [depth]:
  "function_depth (visit_expr loc e st) = function_depth st"
  "function_depth (visit_exprs loc es st) = function_depth st"
  unfolding visit_exprs_def by (induction es arbitrary: st) (simp_all add: visit_expr_def push_errors_def)

lemma record_target_depth [depth]: "function_depth (record_assignment_target loc e st) = function_depth st"
  unfolding record_assignment_target_def by (cases e) (simp_all add: report_depth Let_def)

lemma record_targets_depth [depth]:
  "function_depth (fold (record_assignment_target loc) es st) = function_depth st"
  by (induction es arbitrary: st) (simp_all add: depth)

lemma group_item_depth [depth]: "function_depth (validate_group_item loc w i st) = function_depth st"
  unfolding validate_group_item_def
  by (simp only: report_depth split: if_split expr.split list.split py_const.split) simp

lemma group_check_depth [depth]: "function_depth (group_check loc i items st) = function_depth st"
  unfolding group_check_def by (simp only: depth split: if_split) simp

lemma function_check_depth [depth]: "function_depth (function_check loc i name ds st) = function_depth st"
  unfolding function_check_def Let_def by (simp only: report_depth split: if_split) simp

lemma meta_check_depth [depth]: "function_depth (meta_check loc i as ks st) = function_depth st"
proof -
  have k: "function_depth (meta_keyword_check loc i k st) = function_depth st" for k st
    unfolding meta_keyword_check_def by (simp only: report_depth split: if_split) simp
  have "function_depth (fold (meta_keyword_check loc i) ks st) = function_depth st"
    by (induction ks arbitrary: st) (simp_all add: k)
  then show ?thesis unfolding meta_check_def by (simp only: report_depth split: if_split) simp
qed

lemma stmt_check_depth [depth]: "function_depth (stmt_check loc s st) = function_depth st"
  by (cases s) (simp_all only: stmt_check.simps depth sanitizer.simps split: if_split, simp_all)

lemma visit_depth [depth]:
  "function_depth (visit_stmt loc s st) = function_depth st"
  "function_depth (visit_stmts loc ss st) = function_depth st"
  "function_depth (visit_cases loc cs st) = function_depth st"
  "function_depth (visit_handlers loc hs st) = function_depth st"
proof (induction loc s st and loc ss st and loc cs st and loc hs st
    rule: visit_stmt_visit_stmts_visit_cases_visit_handlers.induct)
  case (2 loc i items body st)
  consider (group) "is_group_with items" | (par) "\<not> is_group_with items" "is_parallel_with items"
    | (other) "\<not> is_group_with items" "\<not> is_parallel_with items" by blast
  then show ?case
  proof cases
    case group
    with "2.IH"(1) [OF group refl] show ?thesis by (simp add: Let_def depth)
  next
    case par
    show ?thesis
      using "2.IH"(2) [OF par] par by (simp add: Let_def depth)
  next
    case other
    show ?thesis
      by (simp only: visit_stmt.simps if_not_P [OF other(1)] if_not_P [OF other(2)] "2.IH"(3) [OF other] depth)
  qed
next
  case (3 loc i e st)
  show ?case by (simp add: depth split: expr.split)
qed (simp_all add: Let_def depth del: stmt_check.simps)

definition meta_free :: "stmt list \<Rightarrow> bool" where
  "meta_free ss \<longleftrightarrow> (\<forall>i e. occurs_stmt (SExpr i e) ss \<longrightarrow> \<not> is_name_call e ''META'')"

lemma meta_free_Cons [simp]:
  "meta_free (s # ss) \<longleftrightarrow> (\<forall>i e. s = SExpr i e \<longrightarrow> \<not> is_name_call e ''META'') \<and>
     meta_free (stmt_children s) \<and> meta_free ss"
  by (auto simp: meta_free_def occurs_stmt_Cons)

lemma meta_free_Nil [simp]: "meta_free []"
  by (auto simp: meta_free_def elim: occurs_stmt.cases)

lemma meta_free_append [simp]: "meta_free (ss @ ts) \<longleftrightarrow> meta_free ss \<and> meta_free ts"
  by (induction ss) auto

lemma meta_check_inside: "0 < function_depth st \<Longrightarrow> san_errors (meta_check loc i as ks st) \<noteq> []"
  by (simp add: meta_check_def report_clean)

lemma visit_meta_free:
  "san_errors (visit_stmt loc s st) = [] \<Longrightarrow> 0 < function_depth st \<Longrightarrow> meta_free [s]"
  "san_errors (visit_stmts loc ss st) = [] \<Longrightarrow> 0 < function_depth st \<Longrightarrow> meta_free ss"
  "san_errors (visit_cases loc cs st) = [] \<Longrightarrow> 0 < function_depth st \<Longrightarrow> meta_free (concat (map mc_body cs))"
  "san_errors (visit_handlers loc hs st) = [] \<Longrightarrow> 0 < function_depth st \<Longrightarrow>
     meta_free (concat (map handler_body hs))"
proof (induction loc s st and loc ss st and loc cs st and loc hs st
    rule: visit_stmt_visit_stmts_visit_cases_visit_handlers.induct)
  case (2 loc i items body st)
  consider (group) "is_group_with items" | (par) "\<not> is_group_with items" "is_parallel_with items"
    | (other) "\<not> is_group_with items" "\<not> is_parallel_with items" by blast
  then show ?case
  proof cases
    case group
    from "2.prems" "2.IH"(1) [OF group refl] group show ?thesis by (simp add: Let_def depth)
  next
    case par
    from "2.prems" "2.IH"(2) [OF par] par show ?thesis by (simp add: Let_def)
  next
    case other
    from "2.prems" "2.IH"(3) [OF other] other show ?thesis by (simp add: depth)
  qed
next
  case (3 loc i e st)
  then show ?case
    by (cases e) (auto simp: meta_check_inside is_name_call_def split: if_splits)
next
  case (1 loc i name ps body decorators ret st)
  from "1.prems" "1.IH" [OF refl refl] show ?case by (simp add: Let_def depth del: somes.simps)
next
  case (8 loc i t body orelse st)
  from "8.prems" have o': "san_errors (visit_stmts loc orelse (visit_stmts loc body (visit_expr loc t st))) = []" by simp
  from visit_clean(2) [OF o'] "8.IH"(1) "8.IH"(2) [OF o'] "8.prems"(2) show ?case by (simp add: depth)
next
  case (9 loc i target iter body orelse st)
  let ?s = "visit_exprs loc [target, iter] (stmt_check loc (SFor i target iter body orelse) st)"
  from "9.prems" have o': "san_errors (visit_stmts loc orelse (visit_stmts loc body ?s)) = []" by (simp add: Let_def)
  from visit_clean(2) [OF o'] "9.IH"(1) [OF refl] "9.IH"(2) [OF refl o'] "9.prems"(2) show ?case
    by (simp add: depth del: stmt_check.simps)
next
  case (18 loc i subject cases st)
  then show ?case by (simp add: depth)
next
  case (24 loc s ss st)
  from "24.prems"(1) have ss: "san_errors (visit_stmts loc ss (visit_stmt loc s st)) = []" by simp
  from visit_clean(2) [OF ss] "24.IH"(1) "24.IH"(2) [OF ss] "24.prems"(2) show ?case by (simp add: depth)
next
  case (26 loc p guard body cs st)
  let ?s = "visit_exprs loc (somes [guard]) st"
  from "26.prems"(1) have cs: "san_errors (visit_cases loc cs (visit_stmts loc body ?s)) = []"
    by (simp only: visit_cases.simps)
  from visit_clean(3) [OF cs] "26.IH"(1) "26.IH"(2) [OF cs] "26.prems"(2) show ?case
    by (simp add: depth del: somes.simps)
next
  case (28 loc t body hs st)
  let ?s = "visit_exprs loc (somes [t]) st"
  from "28.prems"(1) have hs: "san_errors (visit_handlers loc hs (visit_stmts loc body ?s)) = []"
    by (simp only: visit_handlers.simps)
  from visit_clean(4) [OF hs] "28.IH"(1) "28.IH"(2) [OF hs] "28.prems"(2) show ?case
    by (simp add: depth del: somes.simps)
qed ((drule visit_clean(1), simp add: clean_stmt_def restricted_kind_def; fail) | (simp (no_asm); fail))+

section \<open>Properties of the sanitizer\<close>

text \<open>A front end that always parses the given module.\<close>

definition fixed_frontend :: "stmt list \<Rightarrow> frontend" where
  "fixed_frontend body =
     \<lparr>fe_parse = (\<lambda>_. Module body), fe_location = (\<lambda>_ i. (1, i)), fe_json_number = (\<lambda>_. None),
      fe_json_float = (\<lambda>_. None), fe_json_text = (\<lambda>_. [])\<rparr>"

definition params_of :: "string list \<Rightarrow> expr parameters" where
  "params_of names = Parameters [] (map (\<lambda>n. Parameter n None None) names) None [] None"

definition graph_def :: "string list \<Rightarrow> stmt list \<Rightarrow> stmt" where
  "graph_def names body = SFunctionDef 0 ''graph'' (params_of names) body [] None"

lemma visited_stmt:
  "san_errors (visit_stmts loc ss st) = [] \<Longrightarrow> s \<in> set ss \<Longrightarrow> \<exists>st'. san_errors (visit_stmt loc s st') = []"
proof (induction ss arbitrary: st)
  case (Cons t ss)
  show ?case
  proof (cases "s = t")
    case True
    from Cons.prems(1) have "san_errors (visit_stmts loc ss (visit_stmt loc t st)) = []" by simp
    from visit_clean(2) [OF this] True show ?thesis by blast
  next
    case False
    with Cons show ?thesis by simp
  qed
qed simp

lemma sanitized_module:
  assumes "sanitize fe code = Inr ()"
  obtains body where "fe_parse fe code = Module body" "clean_body (fe_location fe code) body"
    "\<And>i name ps b ds r. SFunctionDef i name ps b ds r \<in> set body \<Longrightarrow> meta_free b"
proof -
  let ?loc = "fe_location fe code"
  from assms obtain body where b: "fe_parse fe code = Module body" "sanitize_stmts ?loc body = []"
    by (auto simp: sanitize_def Let_def split: parsed.splits if_splits)
  note v = b(2) [unfolded sanitize_stmts_def]
  have "meta_free ss" if "SFunctionDef i name ps ss ds r \<in> set body" for i name ps ss ds r
  proof -
    from visited_stmt [OF v that] obtain st where
      "san_errors (visit_stmt ?loc (SFunctionDef i name ps ss ds r) st) = []" by blast
    then have "san_errors (visit_stmts ?loc ss (visit_exprs ?loc (somes [r])
        ((function_check ?loc i name ds st)\<lparr>function_depth := function_depth (function_check ?loc i name ds st) + 1\<rparr>))) = []"
      by (simp add: Let_def)
    then show ?thesis by (rule visit_meta_free(2)) (simp add: depth)
  qed
  with that b(1) visit_clean(2) [OF v] show thesis by blast
qed

lemma clean_body_restricted:
  "clean_body loc body \<Longrightarrow> occurs_stmt s body \<Longrightarrow> restricted_kind s \<and>
     (\<forall>e \<in> set (stmt_exprs s). \<forall>x. occurs x e \<longrightarrow> restricted_expr x)"
  by (auto simp: clean_body_def clean_stmt_def intro: expr_errors_restricted)



definition eval_call :: expr where
  "eval_call = ECall 0 (EName 0 ''eval'') [EConstant 0 (CStr ''1'')] []"

definition eval_default :: "expr parameters" where
  "eval_default = Parameters [] [Parameter ''x'' None (Some eval_call)] None [] None"

text \<open>C31: the sanitizer never looks at the parameters of the function: whatever their defaults and annotations
  are, the same errors are found, so \<open>def graph(x=eval("1")): pass\<close> is accepted although the
  call in it is forbidden.\<close>

theorem parameters_not_checked:
  "visit_stmt loc (SFunctionDef i name ps body ds ret) st =
     visit_stmt loc (SFunctionDef i name (params_of []) body ds ret) st \<and>
   sanitize_stmts loc [SFunctionDef 0 ''graph'' eval_default [SPass 0] [] None] = [] \<and>
   eval_call \<in> set (parameters_exprs eval_default) \<and> \<not> restricted_expr eval_call"
  by (simp add: sanitize_stmts_def function_check_def sanitizer_new_def visit_exprs_def eval_default_def
      eval_call_def restricted_expr_def restricted_call_def callee_name_def blocked_builtins_def
      parameters_exprs_def parameter_exprs_def annotation_exprs_def)

end
