(* ===== verification/Transform.thy ===== *)
theory Transform
  imports Sanitizer Graphs Eval
begin

text \<open>
  The transformer of the front end (\<open>transform.rs\<close>): Restricted Python to \<open>ExecutionPlan\<close>.
  \<open>transformer\<close> is \<open>TransformEngine\<close>; its methods take and return it.

  Every loop over child statements is a definition of its own with the recursive call as an
  argument.  A method of the engine that can return early gives a list of errors or a value and
  the new engine; \<open>transform_expr_to_node\<close> returns \<open>Ok\<close> on every path and gives the pair.
  The counter of node ids is a \<open>u32\<close> in the source and unbounded here.
\<close>

section \<open>Expressions as text\<close>

text \<open>\<open>String::from_utf8_lossy\<close>: every maximal ill-formed prefix becomes U+FFFD.\<close>

definition replacement_char :: string where
  "replacement_char = map char_of [239, 191, 189 :: nat]"

definition continuation :: "nat \<Rightarrow> nat \<Rightarrow> char \<Rightarrow> bool" where
  "continuation lo hi c \<longleftrightarrow> lo \<le> (of_char c :: nat) \<and> (of_char c :: nat) \<le> hi"

definition utf8_width :: "nat \<Rightarrow> nat" where
  "utf8_width b = (if b < 128 then 1 else if 194 \<le> b \<and> b \<le> 223 then 2
     else if 224 \<le> b \<and> b \<le> 239 then 3 else if 240 \<le> b \<and> b \<le> 244 then 4 else 0)"

definition utf8_second :: "nat \<Rightarrow> char \<Rightarrow> bool" where
  "utf8_second b = (if b = 224 then continuation 160 191 else if b = 237 then continuation 128 159
     else if b = 240 then continuation 144 191 else if b = 244 then continuation 128 143
     else continuation 128 191)"

text \<open>How many bytes the first (possibly ill-formed) sequence takes, and whether it is well-formed.\<close>

definition utf8_chunk :: "char \<Rightarrow> string \<Rightarrow> nat \<times> bool" where
  "utf8_chunk c cs =
     (let b = of_char c; w = utf8_width b; ok = continuation 128 191 in
      if w \<le> 1 then (1, w = 1)
      else case cs of
        [] \<Rightarrow> (1, False)
      | c2 # cs2 \<Rightarrow>
          if \<not> utf8_second b c2 then (1, False)
          else if w = 2 then (2, True)
          else case cs2 of
            [] \<Rightarrow> (2, False)
          | c3 # cs3 \<Rightarrow>
              if \<not> ok c3 then (2, False)
              else if w = 3 then (3, True)
              else case cs3 of
                [] \<Rightarrow> (3, False)
              | c4 # _ \<Rightarrow> if ok c4 then (4, True) else (3, False))"

function utf8_lossy :: "string \<Rightarrow> string" where
  "utf8_lossy [] = []"
| "utf8_lossy (c # cs) =
     (case utf8_chunk c cs of (n, ok) \<Rightarrow>
        (if ok then take n (c # cs) else replacement_char) @ utf8_lossy (drop (n - 1) cs))"
  by pat_completeness auto
termination by (relation "measure length") auto

fun format_constant :: "py_const \<Rightarrow> string" where
  "format_constant CNone = ''None''"
| "format_constant (CBool b) = show_bool b"
| "format_constant (CInt i) = show_int i"
| "format_constant (CFloat f) = f64_show f"
| "format_constant (CComplex re im) = f64_show re @ ''+'' @ f64_show im @ ''j''"
| "format_constant (CStr s) = dquote # s @ [dquote]"
| "format_constant (CBytes b) = ''b'' @ [dquote] @ utf8_lossy b @ [dquote]"
| "format_constant CEllipsis = ''...''"
| "format_constant (CTuple items) = ''('' @ join '', '' (map format_constant items) @ '')''"

fun aug_op_to_str :: "operator \<Rightarrow> string" where
  "aug_op_to_str OpAdd = ''+''"
| "aug_op_to_str OpSub = ''-''"
| "aug_op_to_str OpMult = ''*''"
| "aug_op_to_str OpDiv = ''/''"
| "aug_op_to_str OpMod = ''%''"
| "aug_op_to_str OpPow = ''**''"
| "aug_op_to_str OpLShift = ''<<''"
| "aug_op_to_str OpRShift = ''>>''"
| "aug_op_to_str OpBitOr = ''|''"
| "aug_op_to_str OpBitXor = ''^''"
| "aug_op_to_str OpBitAnd = ''&''"
| "aug_op_to_str OpFloorDiv = ''//''"
| "aug_op_to_str OpMatMult = ''@''"

fun cmp_op_to_str :: "cmp_op \<Rightarrow> string" where
  "cmp_op_to_str CmpEq = '' == ''"
| "cmp_op_to_str CmpNotEq = '' != ''"
| "cmp_op_to_str CmpLt = '' < ''"
| "cmp_op_to_str CmpLtE = '' <= ''"
| "cmp_op_to_str CmpGt = '' > ''"
| "cmp_op_to_str CmpGtE = '' >= ''"
| "cmp_op_to_str CmpIs = '' is ''"
| "cmp_op_to_str CmpIsNot = '' is not ''"
| "cmp_op_to_str CmpIn = '' in ''"
| "cmp_op_to_str CmpNotIn = '' not in ''"

fun unary_op_to_str :: "unary_op \<Rightarrow> string" where
  "unary_op_to_str OpNot = ''not ''"
| "unary_op_to_str OpUSub = ''-''"
| "unary_op_to_str OpUAdd = ''+''"
| "unary_op_to_str OpInvert = ''~''"

function format_expr :: "expr \<Rightarrow> string" where
  "format_expr (EConstant _ c) = format_constant c"
| "format_expr (EName _ n) = n"
| "format_expr (EAttribute _ x a) = format_expr x @ ''.'' @ a"
| "format_expr (ESubscript _ x s) = format_expr x @ ''['' @ format_expr s @ '']''"
| "format_expr (ECall _ f as ks) =
     (case callee_name f of Some n \<Rightarrow> n | None \<Rightarrow> ''?'') @ ''('' @
     join '', '' (map format_expr as @
       map (\<lambda>k. (case kw_name k of Some n \<Rightarrow> n | None \<Rightarrow> []) @ ''='' @ format_expr (kw_value k)) ks) @ '')''"
| "format_expr (EBinOp _ l op r) = format_expr l @ '' '' @ aug_op_to_str op @ '' '' @ format_expr r"
| "format_expr (EUnaryOp _ op x) = unary_op_to_str op @ format_expr x"
| "format_expr (EBoolOp _ op vs) =
     join (case op of OpAnd \<Rightarrow> '' and '' | OpOr \<Rightarrow> '' or '') (map format_expr vs)"
| "format_expr (ECompare _ l ops cs) =
     format_expr l @ concat (map (\<lambda>(op, c). cmp_op_to_str op @ format_expr c) (zip ops cs))"
| "format_expr (EIfExp _ t b e) = format_expr b @ '' if '' @ format_expr t @ '' else '' @ format_expr e"
| "format_expr (EList _ xs) = ''['' @ join '', '' (map format_expr xs) @ '']''"
| "format_expr (ETuple _ xs) =
     (if length xs = 1 then ''('' @ join '', '' (map format_expr xs) @ '',)''
      else ''('' @ join '', '' (map format_expr xs) @ '')'')"
| "format_expr (EDict _ ks vs) =
     ''{'' @ join '', '' (map (\<lambda>(k, v). (case k of Some x \<Rightarrow> format_expr x | None \<Rightarrow> []) @ '': '' @
       format_expr v) (zip ks vs)) @ ''}''"
| "format_expr (ESet _ xs) = ''{'' @ join '', '' (map format_expr xs) @ ''}''"
| "format_expr (ESlice _ l u s) =
     (case l of Some x \<Rightarrow> format_expr x | None \<Rightarrow> []) @ '':'' @
     (case u of Some x \<Rightarrow> format_expr x | None \<Rightarrow> []) @
     (case s of Some x \<Rightarrow> '':'' @ format_expr x | None \<Rightarrow> [])"
| "format_expr (EJoinedStr _ vs) = concat (map format_expr vs)"
| "format_expr (EFormattedValue _ x _) = format_expr x"
| "format_expr (ENamedExpr _ t v) = format_expr t @ '' := '' @ format_expr v"
| "format_expr (EStarred _ x) = ''*'' @ format_expr x"
| "format_expr (ELambda _ _ _) = ''<lambda>''"
| "format_expr (EListComp _ x _) = ''['' @ format_expr x @ '' for ...]''"
| "format_expr (ESetComp _ x _) = ''{'' @ format_expr x @ '' for ...}''"
| "format_expr (EDictComp _ k v _) = ''{'' @ format_expr k @ '': '' @ format_expr v @ '' for ...}''"
| "format_expr (EGeneratorExp _ x _) = ''('' @ format_expr x @ '' for ...)''"
| "format_expr (EAwait _ x) = ''await '' @ format_expr x"
| "format_expr (EYield _ x) = (case x of Some v \<Rightarrow> ''yield '' @ format_expr v | None \<Rightarrow> ''yield'')"
| "format_expr (EYieldFrom _ x) = ''yield from '' @ format_expr x"
  by pat_completeness auto
termination
proof -
  have l: "x \<in> set xs \<Longrightarrow> size x \<le> size_list size xs" for x :: expr and xs
    by (rule size_list_mem)
  have k: "x \<in> set xs \<Longrightarrow> size (kw_value x) < size_list (size_keyword size) xs" for x :: "expr keyword" and xs
    using size_keywords_mem [of "kw_value x" xs size] by simp
  have z: "(a, x) \<in> set (zip ys xs) \<Longrightarrow> size x \<le> size_list size xs" for a :: 'a and x :: expr and ys xs
    by (rule l) (rule set_zip_rightD)
  have o': "(Some x, v) \<in> set (zip ks vs) \<Longrightarrow> size x < size_list (size_option size) ks"
    for x v :: expr and ks vs
    using size_somes_mem [of x ks size] by (auto simp: set_somes dest: set_zip_leftD)
  show ?thesis
    by (relation "measure size") (auto simp: less_Suc_eq_le dest: l k z o')
qed

section \<open>The engine\<close>

record transformer =
  t_nodes :: "node list"
  t_edges :: "edge list"
  t_vars :: "string smap"
  t_next :: nat
  t_branch :: "u32 option"
  t_group :: "string option"
  t_meta :: string
  t_errors :: "source_error list"

definition transformer_new :: transformer where
  "transformer_new = \<lparr>t_nodes = [], t_edges = [], t_vars = [], t_next = 0, t_branch = None,
     t_group = None, t_meta = [], t_errors = []\<rparr>"

definition transformer_build :: "transformer \<Rightarrow> execution_plan" where
  "transformer_build t =
     (let p = execution_plan_new (t_nodes t) (t_edges t) in
      p\<lparr>plan_metadata := (plan_metadata p)\<lparr>meta_json := t_meta t\<rparr>\<rparr>)"

definition node_name :: "nat \<Rightarrow> string" where
  "node_name k = CHR ''n'' # show_nat k"

definition gen_id :: "transformer \<Rightarrow> string \<times> transformer" where
  "gen_id t = (node_name (t_next t), t\<lparr>t_next := t_next t + 1\<rparr>)"

definition push_node :: "opcode \<Rightarrow> (string \<times> arg_value) list \<Rightarrow> transformer \<Rightarrow> string \<times> transformer" where
  "push_node op args t =
     (case gen_id t of (i, t1) \<Rightarrow>
        (let n0 = node_new i op;
             n1 = (case t_branch t1 of Some b \<Rightarrow> n0\<lparr>node_branch := Some b\<rparr> | None \<Rightarrow> n0);
             n2 = (case t_group t1 of Some g \<Rightarrow> n1\<lparr>node_group := Some g\<rparr> | None \<Rightarrow> n1);
             n3 = fold (\<lambda>(k, v). with_arg k v) args n2
         in (i, t1\<lparr>t_nodes := t_nodes t1 @ [n3]\<rparr>)))"

definition add_edge :: "edge \<Rightarrow> transformer \<Rightarrow> transformer" where
  "add_edge e t = t\<lparr>t_edges := t_edges t @ [e]\<rparr>"

definition push_edge :: "string \<Rightarrow> string \<Rightarrow> transformer \<Rightarrow> transformer" where
  "push_edge a b = add_edge (edge_new a b)"

definition push_cond_edge :: "string \<Rightarrow> string \<Rightarrow> string \<Rightarrow> transformer \<Rightarrow> transformer" where
  "push_cond_edge a b c = add_edge (edge_with_condition a b c)"

definition set_var_node :: "string \<Rightarrow> string \<Rightarrow> transformer \<Rightarrow> transformer" where
  "set_var_node name i t = t\<lparr>t_vars := upd name i (t_vars t)\<rparr>"

definition resolve_var :: "string \<Rightarrow> transformer \<Rightarrow> string \<times> transformer" where
  "resolve_var name t =
     (case map_of (t_vars t) name of
        Some i \<Rightarrow> (i, t)
      | None \<Rightarrow>
          (case push_node Input [(''name'', AString name)] t of (i, t1) \<Rightarrow> (i, set_var_node name i t1)))"

definition transform_error :: "(nat \<Rightarrow> nat \<times> nat) \<Rightarrow> nat \<Rightarrow> string \<Rightarrow> transformer \<Rightarrow> transformer" where
  "transform_error loc i msg t = t\<lparr>t_errors := t_errors t @ [source_error_at (loc i) msg]\<rparr>"

text \<open>The \<open>output\<close> argument of an assignment goes to the first node with the id.\<close>

primrec add_output :: "string \<Rightarrow> string \<Rightarrow> node list \<Rightarrow> node list" where
  "add_output i name [] = []"
| "add_output i name (n # ns) =
     (if node_id n = i then with_arg ''output'' (AString name) n # ns else n # add_output i name ns)"

section \<open>Expressions as nodes\<close>

definition is_allowed_builtin :: "string \<Rightarrow> bool" where
  "is_allowed_builtin name \<longleftrightarrow> name \<in> set [''len'', ''range'', ''int'', ''str'', ''float'', ''bool'', ''list'',
     ''dict'', ''tuple'', ''set'', ''min'', ''max'', ''sum'', ''abs'', ''round'', ''print'', ''isinstance'',
     ''type'', ''reversed'', ''enumerate'', ''zip'', ''sorted'', ''any'', ''all'']"

text \<open>The sub-expressions in which variables are looked for.\<close>

fun wired_children :: "expr \<Rightarrow> expr list" where
  "wired_children (EAttribute _ x _) = [x]"
| "wired_children (ESubscript _ x s) = [x, s]"
| "wired_children (ECall _ f as ks) = f # as @ map kw_value ks"
| "wired_children (EBoolOp _ _ vs) = vs"
| "wired_children (EBinOp _ l _ r) = [l, r]"
| "wired_children (EUnaryOp _ _ x) = [x]"
| "wired_children (ECompare _ l _ cs) = l # cs"
| "wired_children (EIfExp _ t b e) = [t, b, e]"
| "wired_children (EList _ xs) = xs"
| "wired_children (ETuple _ xs) = xs"
| "wired_children (EDict _ ks vs) = somes ks @ vs"
| "wired_children (ESet _ xs) = xs"
| "wired_children (EJoinedStr _ vs) = vs"
| "wired_children (EFormattedValue _ x _) = [x]"
| "wired_children (EStarred _ x) = [x]"
| "wired_children _ = []"

lemma wired_children_size: "c \<in> set (wired_children e) \<Longrightarrow> size c < size e"
proof -
  have "set (wired_children e) \<subseteq> set (expr_children e)" by (cases e) auto
  then show "c \<in> set (wired_children e) \<Longrightarrow> size c < size e" using expr_children_size by blast
qed

function wire_expr_dependencies :: "expr \<Rightarrow> string \<Rightarrow> transformer \<Rightarrow> transformer" where
  "wire_expr_dependencies e target t =
     (case e of
        EName _ name \<Rightarrow>
          (case map_of (t_vars t) name of Some src \<Rightarrow> push_edge src target t | None \<Rightarrow> t)
      | _ \<Rightarrow> fold (\<lambda>c. wire_expr_dependencies c target) (wired_children e) t)"
  by pat_completeness auto
termination
proof (relation "measure (\<lambda>(e, target, t). size e)", goal_cases)
  case 1
  show ?case by simp
qed (simp_all only: in_measure prod.case wired_children_size)

declare wire_expr_dependencies.simps [simp del]

text \<open>Every argument becomes a node with an edge to \<open>i\<close>.\<close>

definition feed_args :: "(expr \<Rightarrow> transformer \<Rightarrow> string \<times> transformer) \<Rightarrow> string \<Rightarrow> expr list \<Rightarrow> transformer \<Rightarrow> transformer" where
  "feed_args rec i = fold (\<lambda>a t. case rec a t of (j, t1) \<Rightarrow> push_edge j i t1)"

lemma feed_args_cong [fundef_cong]:
  "xs = ys \<Longrightarrow> i = j \<Longrightarrow> t = u \<Longrightarrow> (\<And>x s. x \<in> set ys \<Longrightarrow> rec x s = rec' x s) \<Longrightarrow>
   feed_args rec i xs t = feed_args rec' j ys u"
  unfolding feed_args_def by (auto intro: fold_cong)

definition arg_nodes :: "(expr \<Rightarrow> transformer \<Rightarrow> string \<times> transformer) \<Rightarrow> expr list \<Rightarrow> transformer \<Rightarrow> string list \<times> transformer" where
  "arg_nodes rec as t = fold (\<lambda>a s. case rec a (snd s) of (j, t1) \<Rightarrow> (fst s @ [j], t1)) as ([], t)"

lemma arg_nodes_cong [fundef_cong]:
  "xs = ys \<Longrightarrow> t = u \<Longrightarrow> (\<And>x s. x \<in> set ys \<Longrightarrow> rec x s = rec' x s) \<Longrightarrow>
   arg_nodes rec xs t = arg_nodes rec' ys u"
  unfolding arg_nodes_def by (auto intro: fold_cong)

definition call_node_args :: "string \<Rightarrow> expr list \<Rightarrow> expr keyword list \<Rightarrow> (string \<times> arg_value) list" where
  "call_node_args name as ks =
     [(''type'', AString name),
      (''target'', AString (case as of a # _ \<Rightarrow> format_expr a | [] \<Rightarrow> []))] @
     map (\<lambda>k. (case kw_name k of Some n \<Rightarrow> n | None \<Rightarrow> [], AString (format_expr (kw_value k)))) ks"

definition sleep_secs :: "expr list \<Rightarrow> i64" where
  "sleep_secs as =
     (case as of
        a # _ \<Rightarrow> (case parse_i64 (format_expr a) of Some n \<Rightarrow> n | None \<Rightarrow> 1)
      | [] \<Rightarrow> 5)"

function transform_expr :: "(nat \<Rightarrow> nat \<times> nat) \<Rightarrow> expr \<Rightarrow> transformer \<Rightarrow> string \<times> transformer" where
  "transform_expr loc e t =
     (case e of
        ECall i f as ks \<Rightarrow>
          (case callee_name f of
             None \<Rightarrow> gen_id (transform_error loc i ''dynamic calls are not supported in transform'' t)
           | Some name \<Rightarrow>
               if name = ''call'' \<or> name = ''act'' then
                 (case push_node Call (call_node_args name as ks) t of (n, t1) \<Rightarrow>
                    (n, feed_args (transform_expr loc) n (map kw_value ks) (feed_args (transform_expr loc) n as t1)))
               else if name = ''sleep'' then
                 (case push_node Wait [(''duration_secs'', AInt (sleep_secs as))] t of (n, t1) \<Rightarrow>
                    (n, feed_args (transform_expr loc) n as t1))
               else if name = ''range'' \<or> name = ''len'' \<or> is_allowed_builtin name then
                 (case arg_nodes (transform_expr loc) as t of (js, t1) \<Rightarrow>
                    (case push_node Calc
                         [(''expr'', AString (name @ ''('' @ join '', '' (map format_expr as) @ '')''))] t1 of
                       (n, t2) \<Rightarrow> (n, fold (\<lambda>j. push_edge j n) js t2)))
               else
                 (case push_node Calc [(''expr'', AString (format_expr e))] t of (n, t1) \<Rightarrow>
                    (n, feed_args (transform_expr loc) n (map kw_value ks) (feed_args (transform_expr loc) n as t1))))
      | _ \<Rightarrow>
          (case push_node Calc [(''expr'', AString (format_expr e))] t of (n, t1) \<Rightarrow>
             (n, wire_expr_dependencies e n t1)))"
  by pat_completeness auto
termination
proof (relation "measure (\<lambda>(loc, e, t). size e)", goal_cases)
  case 1
  show ?case by simp
qed (simp_all only: in_measure prod.case expr_children_size expr_children.simps set_simps set_append UnI1 UnI2 insertI2)

declare transform_expr.simps [simp del]

section \<open>Statements\<close>

text \<open>A statement that never falls through.\<close>

function stmt_is_terminal :: "stmt \<Rightarrow> bool" where
  "stmt_is_terminal s =
     (case s of
        SReturn _ _ \<Rightarrow> True
      | SRaise _ _ _ \<Rightarrow> True
      | SIf _ _ body orelse \<Rightarrow>
          body \<noteq> [] \<and> orelse \<noteq> [] \<and>
          list_all stmt_is_terminal body \<and> list_all stmt_is_terminal orelse
      | _ \<Rightarrow> False)"
  by pat_completeness auto
termination
  by (relation "measure size") (auto simp: less_Suc_eq_le dest: size_list_mem [where f = size])

declare stmt_is_terminal.simps [simp del]

type_synonym ends = "string \<times> string"

type_synonym stmt_result = "source_error list + ends \<times> transformer"

definition two_ids :: "transformer \<Rightarrow> stmt_result" where
  "two_ids t = (case gen_id t of (a, t1) \<Rightarrow> (case gen_id t1 of (b, t2) \<Rightarrow> Inr ((a, b), t2)))"

definition one_node :: "string \<times> transformer \<Rightarrow> stmt_result" where
  "one_node r = (case r of (i, t) \<Rightarrow> Inr ((i, i), t))"

text \<open>Control edge from the end of the previous statement, unless that never falls through.\<close>

definition follow :: "string option \<Rightarrow> bool \<Rightarrow> string \<Rightarrow> transformer \<Rightarrow> transformer" where
  "follow prev terminal first t =
     (case prev of
        Some p \<Rightarrow> if terminal then t else add_edge (edge_control p first) t
      | None \<Rightarrow> t)"

definition or_first :: "string option \<Rightarrow> string \<Rightarrow> string option" where
  "or_first o' i = (case o' of None \<Rightarrow> Some i | Some j \<Rightarrow> Some j)"

text \<open>The loop over a \<open>for\<close> body: first and last node and whether the last statement is terminal.\<close>

definition for_child ::
  "(stmt \<Rightarrow> transformer \<Rightarrow> stmt_result) \<Rightarrow> stmt \<Rightarrow> transformer \<times> string option \<times> string option \<times> bool \<Rightarrow>
   source_error list + transformer \<times> string option \<times> string option \<times> bool" where
  "for_child rec child acc =
     (case acc of (t, first, prev, terminal) \<Rightarrow>
        bind_res (rec child t) (\<lambda>((cid, lid), t1).
          Inr (follow prev terminal cid t1, or_first first cid, Some lid, stmt_is_terminal child)))"

definition for_body where
  "for_body rec body t = fold_res (for_child rec) body (t, None, None, False)"

text \<open>The branches of \<open>PARALLEL\<close>, each under its own branch id.\<close>

definition parallel_child ::
  "(stmt \<Rightarrow> transformer \<Rightarrow> stmt_result) \<Rightarrow> string \<Rightarrow> nat \<times> stmt \<Rightarrow> transformer \<Rightarrow>
   source_error list + transformer" where
  "parallel_child rec par c t =
     bind_res (rec (snd c) (t\<lparr>t_branch := Some (fst c mod u32_modulus)\<rparr>)) (\<lambda>((cid, _), t1).
       Inr (push_edge par cid (t1\<lparr>t_branch := t_branch t\<rparr>)))"

definition parallel_body where
  "parallel_body rec par body t = fold_res (parallel_child rec par) (enumerate 0 body) t"

text \<open>The body of \<open>GROUP\<close>, chained by data edges.\<close>

definition group_child ::
  "(stmt \<Rightarrow> transformer \<Rightarrow> stmt_result) \<Rightarrow> stmt \<Rightarrow> transformer \<times> string option \<times> string option \<Rightarrow>
   source_error list + transformer \<times> string option \<times> string option" where
  "group_child rec child acc =
     (case acc of (t, first, prev) \<Rightarrow>
        bind_res (rec child t) (\<lambda>((f, l), t1).
          Inr (case prev of Some p \<Rightarrow> push_edge p f t1 | None \<Rightarrow> t1, or_first first f, Some l)))"

definition group_body where
  "group_body rec body t = fold_res (group_child rec) body (t, None, None)"

text \<open>The statements of a branch of \<open>if\<close>, which are not chained.\<close>

definition branch_child ::
  "(stmt \<Rightarrow> transformer \<Rightarrow> stmt_result) \<Rightarrow> stmt \<Rightarrow> transformer \<times> string option \<times> string option \<Rightarrow>
   source_error list + transformer \<times> string option \<times> string option" where
  "branch_child rec child acc =
     (case acc of (t, first, prev) \<Rightarrow>
        bind_res (rec child t) (\<lambda>((cid, lid), t1). Inr (t1, or_first first cid, Some lid)))"

definition branch_body where
  "branch_body rec body t = fold_res (branch_child rec) body (t, None, None)"

text \<open>The statements of a \<open>case\<close>: the first node of the last one.\<close>

definition case_child ::
  "(stmt \<Rightarrow> transformer \<Rightarrow> stmt_result) \<Rightarrow> stmt \<Rightarrow> transformer \<times> string option \<Rightarrow>
   source_error list + transformer \<times> string option" where
  "case_child rec child acc = bind_res (rec child (fst acc)) (\<lambda>((cid, _), t1). Inr (t1, Some cid))"

definition case_stmts where
  "case_stmts rec body t = fold_res (case_child rec) body (t, None)"

text \<open>What a pattern asks for: \<open>Inl\<close> is an unsupported pattern.\<close>

definition pattern_condition :: "pattern \<Rightarrow> string + string option" where
  "pattern_condition p = (case p of
       MatchValue v \<Rightarrow> Inr (Some (format_expr v))
     | MatchSingleton c \<Rightarrow> Inr (Some (format_constant c))
     | MatchAs \<Rightarrow> Inr None
     | MatchOther d \<Rightarrow> Inl d)"

definition match_case_step ::
  "(nat \<Rightarrow> nat \<times> nat) \<Rightarrow> (stmt \<Rightarrow> transformer \<Rightarrow> stmt_result) \<Rightarrow> nat \<Rightarrow> string \<Rightarrow> match_case \<Rightarrow>
   transformer \<times> bool \<Rightarrow> source_error list + transformer \<times> bool" where
  "match_case_step loc rec i switch c acc =
     (case pattern_condition (mc_pattern c) of
        Inl d \<Rightarrow>
          Inr (transform_error loc i (''unsupported pattern type in match case: '' @ d) (fst acc), snd acc)
      | Inr cond \<Rightarrow>
          (let t = (if cond = None \<and> snd acc then
                 transform_error loc i (''multiple default cases in match '' @ em_dash @ '' only first is reachable'') (fst acc)
               else fst acc);
               has_default = (snd acc \<or> cond = None)
           in bind_res (case_stmts rec (mc_body c) t) (\<lambda>(t1, prev).
             Inr (case prev of
                 None \<Rightarrow> t1
               | Some f \<Rightarrow>
                   (case cond of Some s \<Rightarrow> push_cond_edge switch f s t1 | None \<Rightarrow> push_edge switch f t1),
               has_default))))"

definition match_cases where
  "match_cases loc rec i switch cases t = fold_res (match_case_step loc rec i switch) cases (t, False)"

text \<open>The loops look at the recursive call on their own statements only.\<close>

lemma for_body_cong [fundef_cong]:
  "xs = ys \<Longrightarrow> t = u \<Longrightarrow> (\<And>x s. x \<in> set ys \<Longrightarrow> rec x s = rec' x s) \<Longrightarrow>
   for_body rec xs t = for_body rec' ys u"
  unfolding for_body_def by (auto intro!: fold_res_cong simp: for_child_def)

lemma parallel_body_cong [fundef_cong]:
  "p = q \<Longrightarrow> xs = ys \<Longrightarrow> t = u \<Longrightarrow> (\<And>x s. x \<in> set ys \<Longrightarrow> rec x s = rec' x s) \<Longrightarrow>
   parallel_body rec p xs t = parallel_body rec' q ys u"
  unfolding parallel_body_def
  by (auto intro!: fold_res_cong simp: parallel_child_def enumerate_eq_zip dest!: set_zip_rightD)

lemma group_body_cong [fundef_cong]:
  "xs = ys \<Longrightarrow> t = u \<Longrightarrow> (\<And>x s. x \<in> set ys \<Longrightarrow> rec x s = rec' x s) \<Longrightarrow>
   group_body rec xs t = group_body rec' ys u"
  unfolding group_body_def by (auto intro!: fold_res_cong simp: group_child_def)

lemma branch_body_cong [fundef_cong]:
  "xs = ys \<Longrightarrow> t = u \<Longrightarrow> (\<And>x s. x \<in> set ys \<Longrightarrow> rec x s = rec' x s) \<Longrightarrow>
   branch_body rec xs t = branch_body rec' ys u"
  unfolding branch_body_def by (auto intro!: fold_res_cong simp: branch_child_def)

lemma case_stmts_cong [fundef_cong]:
  "xs = ys \<Longrightarrow> t = u \<Longrightarrow> (\<And>x s. x \<in> set ys \<Longrightarrow> rec x s = rec' x s) \<Longrightarrow>
   case_stmts rec xs t = case_stmts rec' ys u"
  unfolding case_stmts_def by (auto intro!: fold_res_cong simp: case_child_def)

lemma match_cases_cong [fundef_cong]:
  assumes "i = j" "sw = sw'" "cs = cs'" "t = u"
    and "\<And>c x s. c \<in> set cs' \<Longrightarrow> x \<in> set (mc_body c) \<Longrightarrow> rec x s = rec' x s"
  shows "match_cases loc rec i sw cs t = match_cases loc rec' j sw' cs' u"
proof -
  have "match_case_step loc rec j sw' c acc = match_case_step loc rec' j sw' c acc" if "c \<in> set cs'" for c acc
    using case_stmts_cong [OF refl refl, of "mc_body c" rec rec'] assms(5) [OF that]
    unfolding match_case_step_def by (simp add: Let_def split: sum.split)
  then show ?thesis
    unfolding match_cases_def assms(1-4) by (rule fold_res_cong)
qed

text \<open>The edges from a \<open>DECIDE\<close> node to the last and, when it is another one, the first node of a branch.\<close>

definition gate_branch :: "string \<Rightarrow> string option \<Rightarrow> string option \<Rightarrow> string \<Rightarrow> transformer \<Rightarrow> transformer" where
  "gate_branch decide first final cond t =
     (let t1 = (case final of Some l \<Rightarrow> push_cond_edge decide l cond t | None \<Rightarrow> t) in
      case first of
        Some f \<Rightarrow> if first \<noteq> final then push_cond_edge decide f cond t1 else t1
      | None \<Rightarrow> t1)"

definition new_vars :: "string smap \<Rightarrow> string smap \<Rightarrow> string list" where
  "new_vars vs ws = filter (\<lambda>k. map_of vs k = None) (map fst ws)"

definition all_terminal :: "stmt list \<Rightarrow> bool" where
  "all_terminal body \<longleftrightarrow> body \<noteq> [] \<and> list_all stmt_is_terminal body"

definition edge_to_merge :: "string option \<Rightarrow> bool \<Rightarrow> string \<Rightarrow> transformer \<Rightarrow> transformer" where
  "edge_to_merge final terminal merge t =
     (case final of Some l \<Rightarrow> if terminal then t else push_edge l merge t | None \<Rightarrow> t)"

definition join_branches ::
  "stmt list \<Rightarrow> stmt list \<Rightarrow> string \<Rightarrow> string option \<Rightarrow> string option \<Rightarrow> string list \<Rightarrow> transformer \<Rightarrow> stmt_result" where
  "join_branches body orelse decide body_last orelse_last vars t =
     (if all_terminal body \<and> orelse \<noteq> [] \<and> all_terminal orelse then Inr ((decide, decide), t)
      else case push_node Merge [] t of (merge, t1) \<Rightarrow>
        (let t2 = edge_to_merge body_last (all_terminal body) merge t1;
             t3 = edge_to_merge orelse_last (all_terminal orelse) merge t2;
             t4 = (if orelse = [] then push_cond_edge decide merge ''false'' t3 else t3)
         in Inr ((decide, merge), fold (\<lambda>v. set_var_node v merge) vars t4)))"

definition transform_if ::
  "(nat \<Rightarrow> nat \<times> nat) \<Rightarrow> (stmt \<Rightarrow> transformer \<Rightarrow> stmt_result) \<Rightarrow> expr \<Rightarrow> stmt list \<Rightarrow> stmt list \<Rightarrow>
   transformer \<Rightarrow> stmt_result" where
  "transform_if loc rec test body orelse t =
     (case transform_expr loc test t of (cond, t1) \<Rightarrow>
        (case push_node Decide [(''condition'', AString (format_expr test))] t1 of (decide, t2) \<Rightarrow>
           (let t3 = push_edge cond decide t2 in
            bind_res (branch_body rec body t3) (\<lambda>(t4, body_first, body_last).
              (let t5 = gate_branch decide body_first body_last ''true'' t4 in
               bind_res (branch_body rec orelse t5) (\<lambda>(t6, orelse_first, orelse_last).
                 join_branches body orelse decide body_last orelse_last
                   (new_vars (t_vars t3) (t_vars t4) @ new_vars (t_vars t5) (t_vars t6))
                   (gate_branch decide orelse_first orelse_last ''false'' t6)))))))"

lemma transform_if_cong [fundef_cong]:
  assumes "test = test'" "body = body'" "orelse = orelse'" "t = u"
    and "\<And>x s. x \<in> set body' \<union> set orelse' \<Longrightarrow> rec x s = rec' x s"
  shows "transform_if loc rec test body orelse t = transform_if loc rec' test' body' orelse' u"
proof -
  have "branch_body rec body' v = branch_body rec' body' v" "branch_body rec orelse' v = branch_body rec' orelse' v" for v
    by (rule branch_body_cong; use assms(5) in simp)+
  then show ?thesis unfolding transform_if_def assms(1-4) by simp
qed

definition transform_match ::
  "(nat \<Rightarrow> nat \<times> nat) \<Rightarrow> (stmt \<Rightarrow> transformer \<Rightarrow> stmt_result) \<Rightarrow> nat \<Rightarrow> expr \<Rightarrow> match_case list \<Rightarrow>
   transformer \<Rightarrow> source_error list + string \<times> transformer" where
  "transform_match loc rec i subject cases t =
     (case transform_expr loc subject t of (subj, t1) \<Rightarrow>
        (case push_node Switch [(''source'', AString (format_expr subject))] t1 of (switch, t2) \<Rightarrow>
           bind_res (match_cases loc rec i switch cases (push_edge subj switch t2)) (\<lambda>(t3, _). Inr (switch, t3))))"

lemma transform_match_cong [fundef_cong]:
  assumes "i = j" "e = e'" "cs = cs'" "t = u"
    and "\<And>c x s. c \<in> set cs' \<Longrightarrow> x \<in> set (mc_body c) \<Longrightarrow> rec x s = rec' x s"
  shows "transform_match loc rec i e cs t = transform_match loc rec' j e' cs' u"
proof -
  have "match_cases loc rec j sw cs' v = match_cases loc rec' j sw cs' v" for sw v
    by (rule match_cases_cong [OF refl refl refl refl assms(5)])
  then show ?thesis unfolding transform_match_def assms(1-4) by simp
qed

definition infer_range_max :: "expr \<Rightarrow> i64" where
  "infer_range_max e =
     (case e of
        ECall _ _ as _ \<Rightarrow>
          if is_name_call e ''range'' then
            (case as of
               [EConstant _ (CInt i)] \<Rightarrow> (case parse_i64 (show_int i) of Some n \<Rightarrow> n | None \<Rightarrow> 100)
             | _ \<Rightarrow> 100)
          else 100
      | _ \<Rightarrow> 100)"

definition group_title_from_call :: "expr \<Rightarrow> string" where
  "group_title_from_call e =
     (case e of ECall _ _ as _ \<Rightarrow> (case as of EConstant _ (CStr s) # _ \<Rightarrow> s | _ \<Rightarrow> []) | _ \<Rightarrow> [])"

definition target_name :: "expr \<Rightarrow> string option" where
  "target_name e = (case e of EName _ n \<Rightarrow> Some n | _ \<Rightarrow> None)"

definition transform_assign :: "(nat \<Rightarrow> nat \<times> nat) \<Rightarrow> nat \<Rightarrow> expr list \<Rightarrow> expr \<Rightarrow> transformer \<Rightarrow> stmt_result" where
  "transform_assign loc i tgts v t =
     (if length tgts \<noteq> 1 then
        two_ids (transform_error loc i (''multi'' @ nb_hyphen @ ''target assignment is not supported'') t)
      else case target_name (hd tgts) of
        None \<Rightarrow>
          two_ids (transform_error loc (expr_start (hd tgts)) ''only simple variable names as assignment targets'' t)
      | Some name \<Rightarrow>
          (case transform_expr loc v t of (n, t1) \<Rightarrow>
             one_node (n, set_var_node name n (t1\<lparr>t_nodes := add_output n name (t_nodes t1)\<rparr>))))"

definition transform_ann_assign :: "(nat \<Rightarrow> nat \<times> nat) \<Rightarrow> expr \<Rightarrow> expr option \<Rightarrow> transformer \<Rightarrow> stmt_result" where
  "transform_ann_assign loc target v t =
     (case target_name target of
        None \<Rightarrow>
          two_ids (transform_error loc (expr_start target) ''only simple variable names as annotation targets'' t)
      | Some name \<Rightarrow>
          (case (case v of
               Some x \<Rightarrow> transform_expr loc x t
             | None \<Rightarrow> push_node Input [(''name'', AString name)] t) of
             (n, t1) \<Rightarrow> one_node (n, set_var_node name n t1)))"

definition transform_aug_assign :: "(nat \<Rightarrow> nat \<times> nat) \<Rightarrow> expr \<Rightarrow> operator \<Rightarrow> expr \<Rightarrow> transformer \<Rightarrow> stmt_result" where
  "transform_aug_assign loc target op v t =
     (case target_name target of
        None \<Rightarrow>
          two_ids (transform_error loc (expr_start target) ''only simple variable names for augmented assignment'' t)
      | Some name \<Rightarrow>
          (case resolve_var name t of (target_id, t1) \<Rightarrow>
             (case transform_expr loc v t1 of (rhs_id, t2) \<Rightarrow>
                (case push_node Calc
                     [(''expr'', AString (name @ '' '' @ aug_op_to_str op @ '' '' @ format_expr v)),
                      (''output'', AString name)] t2 of
                   (n, t3) \<Rightarrow>
                     one_node (n, set_var_node name n (push_edge rhs_id n (push_edge target_id n t3)))))))"

definition transform_return :: "(nat \<Rightarrow> nat \<times> nat) \<Rightarrow> expr option \<Rightarrow> transformer \<Rightarrow> stmt_result" where
  "transform_return loc v t =
     (case v of
        Some x \<Rightarrow>
          (case transform_expr loc x t of (val, t1) \<Rightarrow>
             (case push_node Act [(''type'', AString ''return'')] t1 of (n, t2) \<Rightarrow>
                Inr ((val, n), push_edge val n t2)))
      | None \<Rightarrow> one_node (push_node Act [(''type'', AString ''return'')] t))"

definition transform_assert :: "(nat \<Rightarrow> nat \<times> nat) \<Rightarrow> expr \<Rightarrow> transformer \<Rightarrow> stmt_result" where
  "transform_assert loc test t =
     (case transform_expr loc test t of (c, t1) \<Rightarrow>
        (case push_node Decide [(''condition'', AString (''not ('' @ format_expr test @ '')''))] t1 of
           (n, t2) \<Rightarrow> one_node (n, push_edge c n t2)))"

text \<open>The head of a \<open>for\<close> loop: \<open>Inl\<close> when the target is not a variable.\<close>

definition transform_for_head ::
  "(nat \<Rightarrow> nat \<times> nat) \<Rightarrow> expr \<Rightarrow> expr \<Rightarrow> transformer \<Rightarrow> transformer + string \<times> transformer" where
  "transform_for_head loc target iter t =
     (case transform_expr loc iter t of (iter_id, t1) \<Rightarrow>
        (case target_name target of
           None \<Rightarrow> Inl (transform_error loc (expr_start target) ''loop target must be a simple variable'' t1)
         | Some name \<Rightarrow>
             (case push_node Loop
                  [(''target'', AString name), (''max_iterations'', AInt (infer_range_max iter))] t1 of
                (n, t2) \<Rightarrow> Inr (n, set_var_node name n (push_edge iter_id n t2)))))"

lemma case_body_size: "c \<in> set cs \<Longrightarrow> x \<in> set (mc_body c) \<Longrightarrow> size x \<le> size_list size cs"
proof (induction cs)
  case (Cons d cs)
  then show ?case using size_list_mem [of x "mc_body d" size] by (cases d) auto
qed simp

function transform_stmt :: "(nat \<Rightarrow> nat \<times> nat) \<Rightarrow> stmt \<Rightarrow> transformer \<Rightarrow> stmt_result" where
  "transform_stmt loc s t =
     (if t_errors t \<noteq> [] then Inl (t_errors t)
      else case s of
        SAssign i tgts v \<Rightarrow> transform_assign loc i tgts v t
      | SAnnAssign _ target _ v \<Rightarrow> transform_ann_assign loc target v t
      | SAugAssign _ target op v \<Rightarrow> transform_aug_assign loc target op v t
      | SExpr _ e \<Rightarrow> one_node (transform_expr loc e t)
      | SReturn _ v \<Rightarrow> transform_return loc v t
      | SIf _ test body orelse \<Rightarrow> transform_if loc (transform_stmt loc) test body orelse t
      | SFor _ target iter body _ \<Rightarrow>
          (case transform_for_head loc target iter t of
             Inl t1 \<Rightarrow> two_ids t1
           | Inr (n, t1) \<Rightarrow>
               bind_res (for_body (transform_stmt loc) body t1) (\<lambda>(t2, first, _, _).
                 Inr ((n, n), case first of Some f \<Rightarrow> push_edge n f t2 | None \<Rightarrow> t2)))
      | SWith i items body \<Rightarrow>
          (let item = item_expr (hd items) in
           if is_name_call item ''PARALLEL'' then
             (case push_node Parallel [] t of (n, t1) \<Rightarrow>
                bind_res (parallel_body (transform_stmt loc) n body t1) (\<lambda>t2. Inr ((n, n), t2)))
           else if is_name_call item ''GROUP'' then
             bind_res (group_body (transform_stmt loc) body (t\<lparr>t_group := Some (group_title_from_call item)\<rparr>))
               (\<lambda>(t1, first, prev).
                 (case gen_id (t1\<lparr>t_group := t_group t\<rparr>) of (fallback, t2) \<Rightarrow>
                    Inr ((case first of Some f \<Rightarrow> f | None \<Rightarrow> fallback,
                          case prev of Some l \<Rightarrow> l | None \<Rightarrow> fallback), t2)))
           else two_ids (transform_error loc i ''unsupported `with` statement'' t))
      | SMatch i subject cases \<Rightarrow>
          bind_res (transform_match loc (transform_stmt loc) i subject cases t) one_node
      | SPass _ \<Rightarrow> one_node (gen_id t)
      | SBreak _ \<Rightarrow> one_node (push_node Act [(''type'', AString ''break'')] t)
      | SContinue _ \<Rightarrow> one_node (push_node Act [(''type'', AString ''continue'')] t)
      | SRaise _ _ _ \<Rightarrow> one_node (push_node Error [(''message'', AString ''raised by code'')] t)
      | SAssert _ test _ \<Rightarrow> transform_assert loc test t
      | _ \<Rightarrow> one_node (gen_id (transform_error loc (stmt_start s) ''unsupported statement in transform'' t)))"
  by pat_completeness auto
termination
proof (relation "measure (\<lambda>(loc, s, t). size s)", goal_cases)
  case 1
  show ?case by simp
qed (auto simp: less_Suc_eq_le dest: size_list_mem [where f = size] case_body_size)

declare transform_stmt.simps [simp del]

section \<open>Modules\<close>

definition or_null :: "json option \<Rightarrow> json" where
  "or_null j = (case j of Some v \<Rightarrow> v | None \<Rightarrow> JNull)"

definition const_to_json :: "frontend \<Rightarrow> py_const \<Rightarrow> json" where
  "const_to_json fe c = (case c of
       CNone \<Rightarrow> JNull
     | CBool b \<Rightarrow> JBool b
     | CInt i \<Rightarrow> or_null (fe_json_number fe (show_int i))
     | CFloat f \<Rightarrow> or_null (fe_json_float fe f)
     | CStr s \<Rightarrow> JString s
     | _ \<Rightarrow> JNull)"

text \<open>The sign is dropped in front of an integer, as in the source.\<close>

definition negative_to_json :: "frontend \<Rightarrow> py_const \<Rightarrow> json" where
  "negative_to_json fe c = (case c of
       CInt i \<Rightarrow> or_null (fe_json_number fe (show_int i))
     | CFloat f \<Rightarrow> or_null (fe_json_float fe (f64_neg f))
     | _ \<Rightarrow> JNull)"

fun meta_expr_to_json :: "frontend \<Rightarrow> expr \<Rightarrow> json" where
  "meta_expr_to_json fe (EConstant _ c) = const_to_json fe c"
| "meta_expr_to_json fe (EUnaryOp _ op x) =
     (case (op, x) of (OpUSub, EConstant _ c) \<Rightarrow> negative_to_json fe c | _ \<Rightarrow> JNull)"
| "meta_expr_to_json fe (EList _ xs) = JArray (map (meta_expr_to_json fe) xs)"
| "meta_expr_to_json fe (ETuple _ xs) = JArray (map (meta_expr_to_json fe) xs)"
| "meta_expr_to_json fe _ = JNull"

definition meta_entry :: "frontend \<Rightarrow> expr keyword \<Rightarrow> (string \<times> json) list \<Rightarrow> (string \<times> json) list" where
  "meta_entry fe kw m =
     (case kw_name kw of Some k \<Rightarrow> upd k (meta_expr_to_json fe (kw_value kw)) m | None \<Rightarrow> m)"

definition extract_meta :: "frontend \<Rightarrow> expr \<Rightarrow> string option" where
  "extract_meta fe e =
     (if is_name_call e ''META'' then
        (case e of ECall _ _ _ ks \<Rightarrow> Some (fe_json_text fe (JObject (fold (meta_entry fe) ks [])))
         | _ \<Rightarrow> None)
      else None)"

definition meta_stmt ::
  "frontend \<Rightarrow> (nat \<Rightarrow> nat \<times> nat) \<Rightarrow> stmt \<Rightarrow> transformer \<Rightarrow> source_error list + transformer" where
  "meta_stmt fe loc s t =
     (case s of
        SExpr _ e \<Rightarrow>
          (case extract_meta fe e of
             None \<Rightarrow> Inr t
           | Some j \<Rightarrow>
               if t_meta t \<noteq> [] then
                 Inl (t_errors (transform_error loc (expr_start e) ''multiple `META(...)` blocks are not allowed'' t))
               else Inr (t\<lparr>t_meta := j\<rparr>))
      | _ \<Rightarrow> Inr t)"

definition input_param :: "expr parameter \<Rightarrow> transformer \<Rightarrow> transformer" where
  "input_param p t =
     (case push_node Input [(''name'', AString (par_name p))] t of (n, t1) \<Rightarrow> set_var_node (par_name p) n t1)"

text \<open>One statement of the function: last node and whether the previous statement was terminal.\<close>

definition module_child ::
  "(nat \<Rightarrow> nat \<times> nat) \<Rightarrow> stmt \<Rightarrow> transformer \<times> string option \<times> bool \<Rightarrow>
   source_error list + transformer \<times> string option \<times> bool" where
  "module_child loc s acc =
     (case acc of (t, prev, terminal) \<Rightarrow>
        bind_res (transform_stmt loc s t) (\<lambda>((f, l), t1).
          Inr (follow prev terminal f t1, Some l, stmt_is_terminal s)))"

definition graph_function :: "stmt list \<Rightarrow> (expr parameters \<times> stmt list) option" where
  "graph_function body =
     first_some (map (\<lambda>s. case s of
         SFunctionDef _ name ps b _ _ \<Rightarrow> if name = ''graph'' then Some (Some (ps, b)) else None
       | _ \<Rightarrow> None) body) None"

definition transform_module ::
  "frontend \<Rightarrow> (nat \<Rightarrow> nat \<times> nat) \<Rightarrow> stmt list \<Rightarrow> transformer \<Rightarrow> source_error list + transformer" where
  "transform_module fe loc body t =
     bind_res (fold_res (meta_stmt fe loc) body t) (\<lambda>t1.
       (case graph_function body of
          None \<Rightarrow> Inl (t_errors t1 @ [source_error_at (0, 0) ''no `graph()` function found''])
        | Some (ps, stmts) \<Rightarrow>
            (let t2 = fold input_param (posonly_params ps) (fold input_param (plain_params ps) t1) in
             bind_res (fold_res (module_child loc) stmts (t2, None, False)) (\<lambda>(t3, _, _). Inr t3))))"

definition transform :: "frontend \<Rightarrow> string \<Rightarrow> source_error list + execution_plan" where
  "transform fe code =
     bind_res (sanitize fe code) (\<lambda>_.
       (case fe_parse fe code of
          Module body \<Rightarrow>
            bind_res (transform_module fe (fe_location fe code) body transformer_new)
              (\<lambda>t. Inr (transformer_build t))
        | OtherMode \<Rightarrow> Inl [source_error_at (0, 0) ''expected a module'']
        | ParseFailure _ msg \<Rightarrow> Inl [source_error_at (0, 0) (''parse error: '' @ msg)]))"

end
