(* ===== verification/Codegen.thy ===== *)
theory Codegen
  imports Optimizer Validator Transform
begin

text \<open>
  The back end (\<open>backend/codegen.rs\<close>) and the whole compiler (\<open>compile\<close> of the compiler's
  \<open>lib.rs\<close>): optimize, fill in the metadata, order, convert to a compiled plan, serialize.

  The clock is the argument \<open>now\<close>, the FlatBuffers encoder and the length of its output are
  \<open>enc\<close> and \<open>bytes\<close>, the JSON of structured arguments is \<open>aj\<close>.  The type checker only
  logs in \<open>compile\<close> and is left out of it.
\<close>

record 'b codegen_output =
  co_compiled :: compiled_plan
  co_binary :: 'b
  co_size :: nat
  co_order :: "string list"
  co_optimizations :: "string list"

record codegen_io =
  cg_now :: nat
  cg_json :: "arg_value \<Rightarrow> string"

definition call_nodes :: "node list \<Rightarrow> node list" where
  "call_nodes = filter (\<lambda>n. node_op n = Call)"

definition subgraph_dep_target :: "node \<Rightarrow> string option" where
  "subgraph_dep_target n =
     (case plan_arg n ''target'' of
        Some (AString s) \<Rightarrow> if starts_with s ''subgraph:'' then Some s else None
      | _ \<Rightarrow> None)"

definition subgraph_deps :: "node list \<Rightarrow> string list" where
  "subgraph_deps ns = List.map_filter subgraph_dep_target (call_nodes ns)"

text \<open>\<open>tool:name@version\<close>\<close>

definition tool_of_target :: "string \<Rightarrow> string \<times> string" where
  "tool_of_target s =
     (let name = trim_start_matches ''tool:'' s in
      case find_str ''@'' name of
        Some k \<Rightarrow> (take k name, drop (k + 1) name)
      | None \<Rightarrow> (name, ''^0.0.0''))"

definition tool_dep_of :: "string smap \<Rightarrow> node \<Rightarrow> tool_dep option" where
  "tool_dep_of hashes n =
     (case plan_arg n ''target'' of
        Some (AString s) \<Rightarrow>
          if starts_with s ''subgraph:'' then None
          else (case tool_of_target s of (name, version) \<Rightarrow>
            Some \<lparr>dep_name = name, dep_version = version, dep_pure = is_pure (node_op n),
              dep_schema_hash = (case map_of hashes name of Some h \<Rightarrow> h | None \<Rightarrow> [])\<rparr>)
      | _ \<Rightarrow> None)"

definition collect_tool_deps :: "string smap \<Rightarrow> node list \<Rightarrow> tool_dep list" where
  "collect_tool_deps hashes ns = List.map_filter (tool_dep_of hashes) (call_nodes ns)"

text \<open>The metadata of the compiled plan.\<close>

definition compiled_plan_metadata ::
  "codegen_io \<Rightarrow> string smap \<Rightarrow> string list \<Rightarrow> execution_plan \<Rightarrow> execution_plan" where
  "compiled_plan_metadata io hashes opts p =
     p\<lparr>plan_metadata := (plan_metadata p)\<lparr>
        compiled_at := show_nat (cg_now io),
        node_count := length (plan_nodes p) mod u32_modulus,
        edge_count := length (plan_edges p) mod u32_modulus,
        optimizations := opts,
        subgraph_dependencies := subgraph_deps (plan_nodes p),
        tool_deps := collect_tool_deps hashes (plan_nodes p)\<rparr>\<rparr>"

definition codegen_with_schema_hashes ::
  "codegen_io \<Rightarrow> (fb_plan \<Rightarrow> 'b) \<Rightarrow> ('b \<Rightarrow> nat) \<Rightarrow> string smap \<Rightarrow> execution_plan \<Rightarrow> string + 'b codegen_output" where
  "codegen_with_schema_hashes io enc bytes hashes p0 =
     (case optimize_all p0 of (p1, opts) \<Rightarrow>
        (let p = compiled_plan_metadata io hashes opts p1 in
         case plan_topological_order p of
           Inl e \<Rightarrow> Inl (''topological order failed: '' @ e)
         | Inr order \<Rightarrow>
             (let compiled = from_execution_plan (cg_json io) p opts;
                  binary = to_fb_bytes enc compiled
              in Inr \<lparr>co_compiled = compiled, co_binary = binary, co_size = bytes binary,
                   co_order = map node_id order, co_optimizations = opts\<rparr>)))"

definition codegen where
  "codegen io enc bytes p = codegen_with_schema_hashes io enc bytes [] p"

section \<open>The compiler\<close>

definition transform_message :: "source_error \<Rightarrow> string" where
  "transform_message e =
     show_nat (err_line e) @ '':'' @ show_nat (err_column e) @ '' '' @ em_dash @ '' '' @ err_message e"

definition validation_message :: "execution_plan \<Rightarrow> validation_error \<Rightarrow> string" where
  "validation_message p e =
     ve_node e @ '': '' @ ve_message e @ '' '' @
     (case plan_get_node p (ve_node e) of Some n \<Rightarrow> describe_node n | None \<Rightarrow> [])"

definition compile ::
  "frontend \<Rightarrow> codegen_io \<Rightarrow> (fb_plan \<Rightarrow> 'b) \<Rightarrow> ('b \<Rightarrow> nat) \<Rightarrow> string \<Rightarrow> string + 'b codegen_output" where
  "compile fe io enc bytes code =
     (case transform fe code of
        Inl es \<Rightarrow> Inl (join [newline] (map transform_message es))
      | Inr p \<Rightarrow>
          (case validate p of
             Inl es \<Rightarrow> Inl (join [newline] (map (validation_message p) es))
           | Inr _ \<Rightarrow> codegen io enc bytes p))"

end
