(* ===== verification/Translation.thy ===== *)
theory Translation
  imports Transform Passes
begin

text \<open>
  What every translation of a program keeps: fresh identifiers, edges between existing nodes
  (\<open>good\<close>, an invariant of the engine).
\<close>

section \<open>The invariant of the engine\<close>

definition ids :: "transformer \<Rightarrow> string set" where
  "ids t = node_id ` set (t_nodes t)"

definition fresh_ids :: "transformer \<Rightarrow> bool" where
  "fresh_ids t \<longleftrightarrow> (\<exists>ks. map node_id (t_nodes t) = map node_name ks \<and> sorted_wrt (<) ks \<and>
     (\<forall>k \<in> set ks. k < t_next t))"

definition closed_over :: "string set \<Rightarrow> transformer \<Rightarrow> bool" where
  "closed_over I t \<longleftrightarrow> (\<forall>e \<in> set (t_edges t). edge_from e \<in> I \<and> edge_to e \<in> I) \<and>
     (\<forall>v i. map_of (t_vars t) v = Some i \<longrightarrow> i \<in> I)"

text \<open>
  \<open>K\<close> are identifiers handed out for nodes that exist.  Once an error is recorded the ids are
  placeholders, and a statement without a node (\<open>pass\<close>, an empty group) hands out an id of
  nothing: \<open>b\<close> says that there is none.  \<open>q\<close> says that the first argument of every call
  to a tool is a string literal; then the target of its node is that literal with its quotes.
\<close>

definition quoted_target :: "node \<Rightarrow> bool" where
  "quoted_target n \<longleftrightarrow>
     (node_op n = Call \<longrightarrow> (\<exists>s. plan_arg n ''target'' = Some (AString (dquote # s))))"

definition good :: "bool \<Rightarrow> bool \<Rightarrow> string set \<Rightarrow> transformer \<Rightarrow> bool" where
  "good b q K t \<longleftrightarrow> fresh_ids t \<and> (b \<and> t_errors t = [] \<longrightarrow> closed_over (ids t) t \<and> K \<subseteq> ids t) \<and>
     (q \<longrightarrow> (\<forall>n \<in> set (t_nodes t). quoted_target n))"

named_theorems good_intros \<open>steps of the engine that keep it good\<close>

lemma good_mono: "good b q K t \<Longrightarrow> L \<subseteq> K \<Longrightarrow> good b q L t"
  by (auto simp: good_def)

lemma closed_over_mono: "closed_over I t \<Longrightarrow> I \<subseteq> J \<Longrightarrow> closed_over J t"
  by (auto simp: closed_over_def)

lemma good_gen_id: "good b q K t \<Longrightarrow> good b q K (snd (gen_id t))"
  by (auto simp: good_def gen_id_def fresh_ids_def closed_over_def ids_def less_Suc_eq)

lemma gen_id_errors [simp]: "t_errors (snd (gen_id t)) = t_errors t"
  by (simp add: gen_id_def)

lemma fold_with_arg [simp]:
  "node_id (fold (\<lambda>(k, v). with_arg k v) args n) = node_id n"
  "node_op (fold (\<lambda>(k, v). with_arg k v) args n) = node_op n"
  "node_args (fold (\<lambda>(k, v). with_arg k v) args n) =
     node_args n @ map (\<lambda>(k, v). \<lparr>arg_key = k, arg_val = v\<rparr>) args"
  by (induction args arbitrary: n) (auto simp: with_arg_def)

lemma push_node_shape:
  assumes "push_node op args t = (i, t')"
  obtains n where "node_id n = i" "node_op n = op" "i = node_name (t_next t)"
    "t' = t\<lparr>t_next := t_next t + 1, t_nodes := t_nodes t @ [n]\<rparr>"
    "node_args n = map (\<lambda>(k, v). \<lparr>arg_key = k, arg_val = v\<rparr>) args"
proof -
  define n0 where "n0 = node_new (node_name (t_next t)) op"
  define n1 where "n1 = (case t_branch t of Some b \<Rightarrow> n0\<lparr>node_branch := Some b\<rparr> | None \<Rightarrow> n0)"
  define n2 where "n2 = (case t_group t of Some g \<Rightarrow> n1\<lparr>node_group := Some g\<rparr> | None \<Rightarrow> n1)"
  have "node_id n2 = node_name (t_next t)" "node_op n2 = op" "node_args n2 = []"
    by (simp_all add: n2_def n1_def n0_def node_new_def split: option.split)
  moreover from assms have "i = node_name (t_next t)"
    "t' = t\<lparr>t_next := t_next t + 1, t_nodes := t_nodes t @ [fold (\<lambda>(k, v). with_arg k v) args n2]\<rparr>"
    by (cases "t_branch t"; cases "t_group t"; simp add: push_node_def gen_id_def n2_def n1_def n0_def Let_def)+
  ultimately show thesis using that [of "fold (\<lambda>(k, v). with_arg k v) args n2"] by simp
qed

lemma good_push:
  assumes "push_node op args t = (i, t')" "good b q K t"
    and "q \<Longrightarrow> op = Call \<Longrightarrow> \<exists>x s rest. args = (''type'', x) # (''target'', AString (dquote # s)) # rest"
  shows "good b q (insert i K) t'"
proof -
  from push_node_shape [OF assms(1)] obtain n where n: "node_id n = i" "i = node_name (t_next t)"
    "t' = t\<lparr>t_next := t_next t + 1, t_nodes := t_nodes t @ [n]\<rparr>" "node_op n = op"
    "node_args n = map (\<lambda>(k, v). \<lparr>arg_key = k, arg_val = v\<rparr>) args" by blast
  from assms(2) obtain ks where "map node_id (t_nodes t) = map node_name ks" "sorted_wrt (<) ks"
    "\<forall>k \<in> set ks. k < t_next t" by (auto simp: good_def fresh_ids_def)
  then have "fresh_ids t'"
    unfolding fresh_ids_def n(3) using n(1,2)
    by (intro exI [of _ "ks @ [t_next t]"]) (auto simp: sorted_wrt_append less_Suc_eq)
  moreover have "ids t' = insert i (ids t)" by (auto simp: ids_def n(1) n(3))
  moreover have "quoted_target n" if q
    using assms(3) [OF that] by (auto simp: quoted_target_def n(4,5) plan_arg_def)
  ultimately show ?thesis
    using assms(2) closed_over_mono [of "ids t" t "ids t'"] by (auto simp: good_def n(3) closed_over_def)
qed

lemma good_push_node [good_intros]:
  "push_node op args t = (i, t') \<Longrightarrow> good b q K t \<Longrightarrow> op \<noteq> Call \<Longrightarrow> good b q (insert i K) t'"
  by (erule (1) good_push) simp

lemma good_add_edge:
  "good b q K t \<Longrightarrow> edge_from e \<in> K \<Longrightarrow> edge_to e \<in> K \<Longrightarrow> good b q K (add_edge e t)"
  by (auto simp: good_def add_edge_def fresh_ids_def closed_over_def ids_def)

lemma good_push_edge [good_intros]:
  "good b q K t \<Longrightarrow> i \<in> K \<Longrightarrow> j \<in> K \<Longrightarrow> good b q K (push_edge i j t)"
  by (simp add: push_edge_def good_add_edge edge_new_def)

lemma good_push_cond_edge [good_intros]:
  "good b q K t \<Longrightarrow> i \<in> K \<Longrightarrow> j \<in> K \<Longrightarrow> good b q K (push_cond_edge i j c t)"
  by (simp add: push_cond_edge_def good_add_edge edge_with_condition_def)

lemma good_set_var [good_intros]: "good b q K t \<Longrightarrow> i \<in> K \<Longrightarrow> good b q K (set_var_node v i t)"
  by (auto simp: good_def set_var_node_def fresh_ids_def closed_over_def ids_def)

lemma good_set_vars: "good b q K t \<Longrightarrow> i \<in> K \<Longrightarrow> good b q K (fold (\<lambda>v. set_var_node v i) vs t)"
  by (induction vs arbitrary: t) (simp_all add: good_set_var)

lemma good_error: "good b q K t \<Longrightarrow> good b q L (transform_error loc i m t)"
  by (simp add: good_def transform_error_def fresh_ids_def)

lemma good_fields [simp]:
  "good b q K (t\<lparr>t_branch := x\<rparr>) = good b q K t" "good b q K (t\<lparr>t_group := g\<rparr>) = good b q K t"
  "good b q K (t\<lparr>t_meta := m\<rparr>) = good b q K t"
  by (simp_all add: good_def fresh_ids_def closed_over_def ids_def)

lemma add_output_ids [simp]: "map node_id (add_output i name ns) = map node_id ns"
  by (induction ns) (auto simp: with_arg_def)

lemma add_output_set: "node_id ` set (add_output i name ns) = node_id ` set ns"
  by (metis add_output_ids list.set_map)

lemma find_append: "find P (xs @ ys) = (case find P xs of Some x \<Rightarrow> Some x | None \<Rightarrow> find P ys)"
  by (induction xs) auto

lemma quoted_add_output: "\<forall>n \<in> set ns. quoted_target n \<Longrightarrow> \<forall>n \<in> set (add_output i name ns). quoted_target n"
proof (induction ns)
  case (Cons n ns)
  have "quoted_target (with_arg ''output'' (AString name) n)" if "quoted_target n"
    using that by (auto simp: quoted_target_def plan_arg_def with_arg_def find_append split: option.splits)
  with Cons show ?case by simp
qed simp

lemma good_add_output [good_intros]: "good b q K t \<Longrightarrow> good b q K (t\<lparr>t_nodes := add_output i name (t_nodes t)\<rparr>)"
  using quoted_add_output [of "t_nodes t" i name]
  by (auto simp: good_def fresh_ids_def closed_over_def ids_def add_output_set)

lemma good_error_id: "good b q K t \<Longrightarrow> gen_id (transform_error loc i m t) = (n, t') \<Longrightarrow> good b q L t'"
  using good_gen_id [OF good_error, of b q K t L loc i m] by simp

lemma good_two_ids': "two_ids t = Inr ((f, l), t') \<Longrightarrow> good b q L t \<Longrightarrow> good b q L t'"
  using good_gen_id [OF good_gen_id, of b q L t] by (auto simp: two_ids_def split: prod.splits)

lemma good_two_ids: "two_ids (transform_error loc i m t) = Inr ((f, l), t') \<Longrightarrow> good b q K t \<Longrightarrow> good b q L t'"
  by (erule good_two_ids') (rule good_error)

section \<open>Expressions\<close>

lemma good_var: "good b q K t \<Longrightarrow> map_of (t_vars t) v = Some i \<Longrightarrow> good b q (insert i K) t"
  by (auto simp: good_def closed_over_def)

lemma good_drop: "good b q (insert i K) t \<Longrightarrow> good b q K t"
  by (erule good_mono) auto

lemma good_wire: "good b q K t \<Longrightarrow> i \<in> K \<Longrightarrow> good b q K (wire_expr_dependencies e i t)"
proof (induction e arbitrary: t rule: measure_induct_rule [where f = size])
  case (less e)
  have "good b q K (fold (\<lambda>c. wire_expr_dependencies c i) (wired_children e) t)"
    by (rule fold_invariant [where Q = "\<lambda>c. c \<in> set (wired_children e)"])
      (use less wired_children_size in auto)
  moreover have "good b q K (push_edge j i t)" if "map_of (t_vars t) v = Some j" for j v
    using good_push_edge [OF good_var [OF less.prems(1) that]] less.prems(2) by (auto dest: good_drop)
  ultimately show ?case
    using less.prems(1) by (subst wire_expr_dependencies.simps) (auto split: expr.split option.split)
qed

lemma good_resolve [good_intros]:
  "resolve_var name t = (i, t') \<Longrightarrow> good b q K t \<Longrightarrow> good b q (insert i K) t'"
  by (auto simp: resolve_var_def split: option.splits prod.splits
      intro: good_var good_set_var dest: good_push_node)

text \<open>What the loops need of a translation of one expression.\<close>

definition keeps_good :: "bool \<Rightarrow> bool \<Rightarrow> (expr \<Rightarrow> transformer \<Rightarrow> string \<times> transformer) \<Rightarrow> expr list \<Rightarrow> bool" where
  "keeps_good b q rec es \<longleftrightarrow>
     (\<forall>e \<in> set es. \<forall>K t i t'. good b q K t \<longrightarrow> rec e t = (i, t') \<longrightarrow> good b q (insert i K) t')"

lemma good_feed_args:
  assumes "keeps_good b q rec es" "i \<in> K" "good b q K t"
  shows "good b q K (feed_args rec i es t)"
  using assms(3) unfolding feed_args_def
proof (rule fold_invariant [where Q = "\<lambda>e. e \<in> set es", rotated])
  fix e s
  assume "e \<in> set es" "good b q K s"
  then have "good b q (insert (fst (rec e s)) K) (snd (rec e s))"
    using assms(1) unfolding keeps_good_def by (metis prod.collapse)
  then have "good b q (insert (fst (rec e s)) K) (push_edge (fst (rec e s)) i (snd (rec e s)))"
    using assms(2) by (intro good_push_edge) auto
  then show "good b q K (case rec e s of (j, t1) \<Rightarrow> push_edge j i t1)"
    by (auto simp: case_prod_beta dest: good_drop)
qed simp

lemma good_arg_nodes:
  assumes "keeps_good b q rec es" "good b q K t" "arg_nodes rec es t = (js, t')"
  shows "good b q (set js \<union> K) t'"
proof -
  let ?f = "\<lambda>a s. case rec a (snd s) of (j, t1) \<Rightarrow> (fst s @ [j], t1)"
  have "case fold ?f es ([], t) of (js, t') \<Rightarrow> good b q (set js \<union> K) t'"
  proof (rule fold_invariant [where Q = "\<lambda>e. e \<in> set es"])
    fix e s
    assume "e \<in> set es" "case s of (js, t') \<Rightarrow> good b q (set js \<union> K) t'"
    then show "case (case rec e (snd s) of (j, t1) \<Rightarrow> (fst s @ [j], t1)) of (js, t') \<Rightarrow> good b q (set js \<union> K) t'"
      using assms(1) unfolding keeps_good_def by (cases s; cases "rec e (snd s)") fastforce
  qed (use assms(2) in simp_all)
  then show ?thesis using assms(3) by (simp add: arg_nodes_def)
qed

lemma good_push_edges: "good b q K t \<Longrightarrow> set js \<subseteq> K \<Longrightarrow> i \<in> K \<Longrightarrow> good b q K (fold (\<lambda>j. push_edge j i) js t)"
  by (induction js arbitrary: t) (simp_all add: good_push_edge)

lemma good_call:
  assumes "keeps_good b q rec as" "keeps_good b q rec ks" "good b q K t" "push_node op args t = (i, t1)"
    and "q \<Longrightarrow> op = Call \<Longrightarrow> \<exists>x s rest. args = (''type'', x) # (''target'', AString (dquote # s)) # rest"
  shows "good b q (insert i K) (feed_args rec i ks (feed_args rec i as t1))"
  by (intro good_feed_args assms(1,2) good_push [OF assms(4,3,5)] insertI1)

text \<open>Every sub-expression is one the sanitizer lets through.\<close>

definition fine_expr :: "expr \<Rightarrow> bool" where
  "fine_expr e \<longleftrightarrow> (\<forall>x. occurs x e \<longrightarrow> restricted_expr x)"

lemma fine_child: "fine_expr e \<Longrightarrow> c \<in> set (expr_children e) \<Longrightarrow> fine_expr c"
  by (auto simp: fine_expr_def intro: inside)

lemma fine_call:
  assumes "fine_expr (ECall j f as ks)" "callee_name f = Some name" "name = ''call'' \<or> name = ''act''"
  shows "\<exists>x s rest. call_node_args name as ks = (''type'', x) # (''target'', AString (dquote # s)) # rest"
proof -
  from assms(1) have "restricted_expr (ECall j f as ks)" by (auto simp: fine_expr_def intro: here)
  with assms(2,3) have "as \<noteq> []" "is_str_literal (hd as)" by (auto simp: restricted_expr_def restricted_call_def)
  then obtain i s rest where "as = EConstant i (CStr s) # rest"
    by (cases as) (auto simp: is_str_literal_def split: expr.splits py_const.splits)
  then show ?thesis by (simp add: call_node_args_def)
qed

lemma good_transform_expr:
  "(q \<Longrightarrow> fine_expr e) \<Longrightarrow> good b q K t \<Longrightarrow> transform_expr loc e t = (i, t') \<Longrightarrow> good b q (insert i K) t'"
proof (induction e arbitrary: K t i t' rule: measure_induct_rule [where f = size])
  case (less e)
  have atom: "good b q (insert i K) (wire_expr_dependencies e i t1)"
    if "push_node Calc args t = (i, t1)" for args t1
    by (intro good_wire good_push_node [OF that less.prems(2)] insertI1) simp
  show ?case
  proof (cases "\<exists>j f as ks. e = ECall j f as ks")
    case False
    then have "transform_expr loc e t =
        (case push_node Calc [(''expr'', AString (format_expr e))] t of (n, t1) \<Rightarrow> (n, wire_expr_dependencies e n t1))"
      by (subst transform_expr.simps) (cases e; simp)
    with less.prems(3) show ?thesis by (auto split: prod.splits intro: atom)
  next
    case True
    then obtain j f as ks where e: "e = ECall j f as ks" by blast
    have sub: "keeps_good b q (transform_expr loc) es" if "set es \<subseteq> set (expr_children e)" for es
      unfolding keeps_good_def
    proof (intro ballI allI impI)
      fix x L u n u'
      assume x: "x \<in> set es" "good b q L u" "transform_expr loc x u = (n, u')"
      from x(1) that have c: "x \<in> set (expr_children e)" by blast
      show "good b q (insert n L) u'"
        by (rule less.IH [OF expr_children_size [OF c] _ x(2,3)]) (rule fine_child [OF less.prems(1) c])
    qed
    have as: "keeps_good b q (transform_expr loc) as" "keeps_good b q (transform_expr loc) []"
        "keeps_good b q (transform_expr loc) (map kw_value ks)"
      by (rule sub; auto simp: e)+
    have plain: "good b q (insert i K) (feed_args (transform_expr loc) i as t1)"
      if "push_node Wait args t = (i, t1)" for args t1
      by (intro good_feed_args as good_push_node [OF that less.prems(2)] insertI1) simp
    have builtin: "good b q (insert i K) (fold (\<lambda>j. push_edge j i) js t2)"
      if "arg_nodes (transform_expr loc) as t = (js, t1)" "push_node Calc args t1 = (i, t2)" for js t1 args t2
    proof -
      have "good b q (insert i (set js \<union> K)) (fold (\<lambda>j. push_edge j i) js t2)"
        by (intro good_push_edges good_push_node [OF that(2)] good_arg_nodes [OF as(1) less.prems(2) that(1)]) auto
      then show ?thesis by (rule good_mono) auto
    qed
    show ?thesis
    proof (cases "callee_name f")
      case None
      with less.prems e show ?thesis
        by (subst (asm) transform_expr.simps) (auto intro: good_error_id)
    next
      case (Some name)
      consider "name = ''call'' \<or> name = ''act''" | "name \<noteq> ''call''" "name \<noteq> ''act''" "name = ''sleep''"
        | "name \<noteq> ''call''" "name \<noteq> ''act''" "name \<noteq> ''sleep''" "name = ''range'' \<or> name = ''len'' \<or> is_allowed_builtin name"
        | "name \<noteq> ''call''" "name \<noteq> ''act''" "name \<noteq> ''sleep''" "\<not> (name = ''range'' \<or> name = ''len'' \<or> is_allowed_builtin name)"
        by blast
      then show ?thesis
      proof cases
        case 1
        from less.prems(3) have "(case push_node Call (call_node_args name as ks) t of (n, t1) \<Rightarrow>
            (n, feed_args (transform_expr loc) n (map kw_value ks) (feed_args (transform_expr loc) n as t1))) = (i, t')"
          unfolding e transform_expr.simps [of loc "ECall j f as ks"] expr.case Some option.case if_P [OF 1] .
        then obtain t1 where "push_node Call (call_node_args name as ks) t = (i, t1)"
          "t' = feed_args (transform_expr loc) i (map kw_value ks) (feed_args (transform_expr loc) i as t1)"
          by (auto split: prod.splits)
        then show ?thesis
          using good_call [OF as(1,3) less.prems(2)] fine_call [OF less.prems(1) [unfolded e] Some 1] by blast
      next
        case 2
        from less.prems(3) have "(case push_node Wait [(''duration_secs'', AInt (sleep_secs as))] t of (n, t1) \<Rightarrow>
            (n, feed_args (transform_expr loc) n as t1)) = (i, t')"
          unfolding e transform_expr.simps [of loc "ECall j f as ks"] expr.case Some option.case using 2 by simp
        then show ?thesis by (auto split: prod.splits intro: plain)
      next
        case 3
        from less.prems(3) obtain js t1 t2 args where "arg_nodes (transform_expr loc) as t = (js, t1)"
          "push_node Calc args t1 = (i, t2)" "t' = fold (\<lambda>j. push_edge j i) js t2"
          unfolding e transform_expr.simps [of loc "ECall j f as ks"] expr.case Some option.case using 3
          by (simp split: prod.splits)
        then show ?thesis using builtin by simp
      next
        case 4
        from less.prems(3) obtain args t1 where "push_node Calc args t = (i, t1)"
          "t' = feed_args (transform_expr loc) i (map kw_value ks) (feed_args (transform_expr loc) i as t1)"
          unfolding e transform_expr.simps [of loc "ECall j f as ks"] expr.case Some option.case using 4
          by (simp split: prod.splits)
        then show ?thesis by (auto intro: good_call [OF as(1,3) less.prems(2)])
      qed
    qed
  qed
qed

section \<open>Statements\<close>

definition stmts_good :: "bool \<Rightarrow> bool \<Rightarrow> (stmt \<Rightarrow> transformer \<Rightarrow> stmt_result) \<Rightarrow> stmt list \<Rightarrow> bool" where
  "stmts_good b q rec ss \<longleftrightarrow>
     (\<forall>s \<in> set ss. \<forall>K t f l t'. good b q K t \<longrightarrow> rec s t = Inr ((f, l), t') \<longrightarrow> good b q (insert f (insert l K)) t')"

lemma stmts_goodD:
  "stmts_good b q rec ss \<Longrightarrow> s \<in> set ss \<Longrightarrow> good b q K t \<Longrightarrow> rec s t = Inr ((f, l), t') \<Longrightarrow>
   good b q (insert f (insert l K)) t'"
  by (auto simp: stmts_good_def)

lemma stmts_good_subset: "stmts_good b q rec ss \<Longrightarrow> set ts \<subseteq> set ss \<Longrightarrow> stmts_good b q rec ts"
  by (auto simp: stmts_good_def)

lemma good_one_node: "one_node r = Inr ((f, l), t') \<Longrightarrow> r = (i, t) \<Longrightarrow> good b q (insert i K) t \<Longrightarrow> good b q (insert f (insert l K)) t'"
  by (auto simp: one_node_def)

lemma good_follow:
  "good b q K t \<Longrightarrow> set_option prev \<subseteq> K \<Longrightarrow> i \<in> K \<Longrightarrow> good b q K (follow prev terminal i t)"
  by (auto simp: follow_def edge_control_def edge_new_def intro!: good_add_edge split: option.split)

lemma set_or_first: "set_option (or_first o' i) \<subseteq> insert i (set_option o')"
  by (auto simp: or_first_def split: option.split)

lemma or_first_cases: "or_first o' i = Some j \<Longrightarrow> j = i \<or> o' = Some j"
  by (auto simp: or_first_def split: option.splits)

lemma good_for_body:
  assumes rec: "stmts_good b q rec body" and "good b q K t"
    and "for_body rec body t = Inr (t', first, prev, terminal)"
  shows "good b q (set_option first \<union> K) t'"
proof -
  have "case (t', first, prev, terminal) of (t, first, prev, _) \<Rightarrow>
      good b q (set_option first \<union> set_option prev \<union> K) t"
    using assms(3) unfolding for_body_def
  proof (rule fold_res_invariant)
    fix s x y
    assume s: "s \<in> set body" "case x of (t, first, prev, _) \<Rightarrow> good b q (set_option first \<union> set_option prev \<union> K) t"
      "for_child rec s x = Inr y"
    obtain t first prev dead where x: "x = (t, first, prev, dead)" by (cases x)
    from s(3) obtain f l t1 where r: "rec s t = Inr ((f, l), t1)"
      "y = (follow prev dead f t1, or_first first f, Some l, stmt_is_terminal s)"
      by (auto simp: for_child_def x bind_res_Inr)
    from s(2) have "good b q (insert f (insert l (set_option first \<union> set_option prev \<union> K))) t1"
      by (intro stmts_goodD [OF rec s(1) _ r(1)]) (simp add: x)
    then have "good b q (insert f (insert l (set_option first \<union> set_option prev \<union> K))) (follow prev dead f t1)"
      by (rule good_follow) auto
    then show "case y of (t, first, prev, _) \<Rightarrow> good b q (set_option first \<union> set_option prev \<union> K) t"
      using set_or_first [of first f] by (auto simp: r(2) elim!: good_mono)
  qed (use assms(2) in simp)
  then show ?thesis by (auto elim: good_mono)
qed

lemma good_group_body:
  assumes rec: "stmts_good b q rec body" and "good b q K t"
    and "group_body rec body t = Inr (t', first, prev)"
  shows "good b q (set_option first \<union> set_option prev \<union> K) t' \<and> (body \<noteq> [] \<longrightarrow> first \<noteq> None \<and> prev \<noteq> None)"
proof
  have "case (t', first, prev) of (t, first, prev) \<Rightarrow> good b q (set_option first \<union> set_option prev \<union> K) t"
    using assms(3) unfolding group_body_def
  proof (rule fold_res_invariant)
    fix s x y
    assume s: "s \<in> set body" "case x of (t, first, prev) \<Rightarrow> good b q (set_option first \<union> set_option prev \<union> K) t"
      "group_child rec s x = Inr y"
    obtain t first prev where x: "x = (t, first, prev)" by (cases x)
    from s(3) obtain f l t1 where r: "rec s t = Inr ((f, l), t1)"
      "y = (case prev of Some p \<Rightarrow> push_edge p f t1 | None \<Rightarrow> t1, or_first first f, Some l)"
      by (auto simp: group_child_def x bind_res_Inr)
    from s(2) have "good b q (insert f (insert l (set_option first \<union> set_option prev \<union> K))) t1"
      by (intro stmts_goodD [OF rec s(1) _ r(1)]) (simp add: x)
    then have "good b q (insert f (insert l (set_option first \<union> set_option prev \<union> K)))
        (case prev of Some p \<Rightarrow> push_edge p f t1 | None \<Rightarrow> t1)"
      by (cases prev) (auto intro: good_push_edge)
    then show "case y of (t, first, prev) \<Rightarrow> good b q (set_option first \<union> set_option prev \<union> K) t"
      using set_or_first [of first f] by (auto simp: r(2) elim!: good_mono)
  qed (use assms(2) in simp)
  then show "good b q (set_option first \<union> set_option prev \<union> K) t'" by simp
  show "body \<noteq> [] \<longrightarrow> first \<noteq> None \<and> prev \<noteq> None"
  proof
    assume "body \<noteq> []"
    then obtain ss s where "body = ss @ [s]" by (metis rev_exhaust)
    with assms(3) show "first \<noteq> None \<and> prev \<noteq> None"
      by (auto simp: group_body_def fold_res_append bind_res_Inr group_child_def or_first_def split: option.splits)
  qed
qed

lemma good_parallel_body:
  assumes rec: "stmts_good b q rec body" and "good b q K t" and "n \<in> K"
    and "parallel_body rec n body t = Inr t'"
  shows "good b q K t'"
  using assms(4) unfolding parallel_body_def
proof (rule fold_res_invariant)
  fix c x y
  assume c: "c \<in> set (enumerate 0 body)" "good b q K x" "parallel_child rec n c x = Inr y"
  from c(3) obtain f l t1 where r: "rec (snd c) (x\<lparr>t_branch := Some (fst c mod u32_modulus)\<rparr>) = Inr ((f, l), t1)"
    "y = push_edge n f (t1\<lparr>t_branch := t_branch x\<rparr>)"
    by (auto simp: parallel_child_def bind_res_Inr)
  have "(fst c, snd c) \<in> set (zip [0..<length body] body)" using c(1) by (simp add: enumerate_eq_zip)
  then have "snd c \<in> set body" by (rule set_zip_rightD)
  from stmts_goodD [OF rec this _ r(1)] c(2) have "good b q (insert f (insert l K)) t1" by simp
  then have "good b q (insert f (insert l K)) y"
    unfolding r(2) by (intro good_push_edge) (use assms(3) in auto)
  then show "good b q K y" by (auto dest: good_drop)
qed (rule assms(2))

lemma good_branch_body:
  assumes rec: "stmts_good b q rec body" and "good b q K t"
    and "branch_body rec body t = Inr (t', first, prev)"
  shows "good b q (set_option first \<union> set_option prev \<union> K) t'"
proof -
  have "case (t', first, prev) of (t, first, prev) \<Rightarrow> good b q (set_option first \<union> set_option prev \<union> K) t"
    using assms(3) unfolding branch_body_def
  proof (rule fold_res_invariant)
    fix s x y
    assume s: "s \<in> set body" "case x of (t, first, prev) \<Rightarrow> good b q (set_option first \<union> set_option prev \<union> K) t"
      "branch_child rec s x = Inr y"
    obtain t first prev where x: "x = (t, first, prev)" by (cases x)
    from s(3) obtain f l t1 where r: "rec s t = Inr ((f, l), t1)" "y = (t1, or_first first f, Some l)"
      by (auto simp: branch_child_def x bind_res_Inr)
    from s(2) have "good b q (insert f (insert l (set_option first \<union> set_option prev \<union> K))) t1"
      by (intro stmts_goodD [OF rec s(1) _ r(1)]) (simp add: x)
    then show "case y of (t, first, prev) \<Rightarrow> good b q (set_option first \<union> set_option prev \<union> K) t"
      using set_or_first [of first f] by (auto simp: r(2) elim!: good_mono)
  qed (use assms(2) in simp)
  then show ?thesis by simp
qed

lemma good_case_stmts:
  assumes rec: "stmts_good b q rec body" and "good b q K t"
    and "case_stmts rec body t = Inr (t', prev)"
  shows "good b q (set_option prev \<union> K) t'"
proof -
  have "case (t', prev) of (t, prev) \<Rightarrow> good b q (set_option prev \<union> K) t"
    using assms(3) unfolding case_stmts_def
  proof (rule fold_res_invariant)
    fix s x y
    assume s: "s \<in> set body" "case x of (t, prev) \<Rightarrow> good b q (set_option prev \<union> K) t"
      "case_child rec s x = Inr y"
    from s(3) obtain f l t1 where r: "rec s (fst x) = Inr ((f, l), t1)" "y = (t1, Some f)"
      by (auto simp: case_child_def bind_res_Inr)
    from s(2) have "good b q (insert f (insert l (set_option (snd x) \<union> K))) t1"
      by (intro stmts_goodD [OF rec s(1) _ r(1)]) (cases x, simp)
    then show "case y of (t, prev) \<Rightarrow> good b q (set_option prev \<union> K) t"
      by (auto simp: r(2) elim!: good_mono)
  qed (use assms(2) in simp)
  then show ?thesis by simp
qed

lemma good_match_cases:
  assumes rec: "\<And>c. c \<in> set cases \<Longrightarrow> stmts_good b q rec (mc_body c)"
    and "good b q K t" "sw \<in> K" "match_cases loc rec i sw cases t = Inr (t', d)"
  shows "good b q K t'"
proof -
  have "good b q K (fst (t', d))"
    using assms(4) unfolding match_cases_def
  proof (rule fold_res_invariant)
    fix c x y
    assume c: "c \<in> set cases" "good b q K (fst x)" "match_case_step loc rec i sw c x = Inr y"
    show "good b q K (fst y)"
    proof (cases "pattern_condition (mc_pattern c)")
      case (Inl e)
      with c(2,3) show ?thesis by (auto simp: match_case_step_def intro: good_error)
    next
      case (Inr cond)
      define u where "u = (if cond = None \<and> snd x then
          transform_error loc i (''multiple default cases in match '' @ em_dash @ '' only first is reachable'') (fst x)
        else fst x)"
      have u: "good b q K u" unfolding u_def using c(2) by (auto intro: good_error)
      from c(3) Inr obtain t1 prev where t1: "case_stmts rec (mc_body c) u = Inr (t1, prev)"
        "fst y = (case prev of None \<Rightarrow> t1
          | Some f \<Rightarrow> (case cond of Some s \<Rightarrow> push_cond_edge sw f s t1 | None \<Rightarrow> push_edge sw f t1))"
        by (auto simp: match_case_step_def Let_def u_def [symmetric] bind_res_Inr)
      from good_case_stmts [OF rec [OF c(1)] u t1(1)] have "good b q (set_option prev \<union> K) t1" .
      then have "good b q (set_option prev \<union> K) (fst y)"
        unfolding t1(2) using assms(3)
        by (auto split: option.split intro: good_push_cond_edge good_push_edge)
      then show ?thesis by (rule good_mono) auto
    qed
  qed (use assms(2) in simp)
  then show ?thesis by simp
qed

lemma good_gate_branch:
  "good b q K t \<Longrightarrow> d \<in> K \<Longrightarrow> set_option first \<union> set_option final \<subseteq> K \<Longrightarrow> good b q K (gate_branch d first final c t)"
  by (auto simp: gate_branch_def Let_def split: option.split intro!: good_push_cond_edge)

lemma good_edge_to_merge:
  "good b q K t \<Longrightarrow> set_option final \<subseteq> K \<Longrightarrow> m \<in> K \<Longrightarrow> good b q K (edge_to_merge final terminal m t)"
  by (auto simp: edge_to_merge_def split: option.split intro!: good_push_edge)

lemma good_join_branches:
  assumes "join_branches body orelse d bl ol vs t = Inr ((f, l), t')" "good b q K t"
    and "d \<in> K" "set_option bl \<union> set_option ol \<subseteq> K"
  shows "good b q (insert f (insert l K)) t'"
proof (cases "all_terminal body \<and> orelse \<noteq> [] \<and> all_terminal orelse")
  case True
  with assms show ?thesis by (auto simp: join_branches_def elim!: good_mono)
next
  case False
  obtain m t1 where m: "push_node Merge [] t = (m, t1)" by fastforce
  note base = good_push_node [OF m assms(2)]
  have "good b q (insert m K) (edge_to_merge ol (all_terminal orelse) m (edge_to_merge bl (all_terminal body) m t1))"
    by (intro good_edge_to_merge base) (use assms(4) in auto)
  moreover from this have "good b q (insert m K) (push_cond_edge d m ''false''
      (edge_to_merge ol (all_terminal orelse) m (edge_to_merge bl (all_terminal body) m t1)))"
    by (intro good_push_cond_edge) (use assms(3) in auto)
  moreover from assms(1) False m have "f = d" "l = m" "t' = fold (\<lambda>v. set_var_node v m) vs
      (if orelse = [] then push_cond_edge d m ''false''
         (edge_to_merge ol (all_terminal orelse) m (edge_to_merge bl (all_terminal body) m t1))
       else edge_to_merge ol (all_terminal orelse) m (edge_to_merge bl (all_terminal body) m t1))"
    by (auto simp: join_branches_def Let_def)
  ultimately have "good b q (insert m K) t'" by (auto intro: good_set_vars)
  with \<open>f = d\<close> \<open>l = m\<close> assms(3) show ?thesis by (auto simp: insert_absorb insert_commute elim!: good_mono)
qed

lemma good_transform_if:
  assumes rec: "stmts_good b q rec (body @ orelse)" and "good b q K t"
    and "transform_if loc rec test body orelse t = Inr ((f, l), t')" and fine: "q \<Longrightarrow> fine_expr test"
  shows "good b q (insert f (insert l K)) t'"
proof -
  obtain c t1 where c: "transform_expr loc test t = (c, t1)" by fastforce
  obtain d t2 where d: "push_node Decide [(''condition'', AString (format_expr test))] t1 = (d, t2)" by fastforce
  define t3 where "t3 = push_edge c d t2"
  let ?K = "insert d (insert c K)"
  have t3: "good b q ?K t3" unfolding t3_def
    by (intro good_push_edge good_push_node [OF d] good_transform_expr [OF fine assms(2) c]) auto
  from assms(3) c d obtain t4 bf bl where t4: "branch_body rec body t3 = Inr (t4, bf, bl)"
    and rest: "bind_res (branch_body rec orelse (gate_branch d bf bl ''true'' t4)) (\<lambda>(t6, of', ol).
        join_branches body orelse d bl ol
          (new_vars (t_vars t3) (t_vars t4) @ new_vars (t_vars (gate_branch d bf bl ''true'' t4)) (t_vars t6))
          (gate_branch d of' ol ''false'' t6)) = Inr ((f, l), t')"
    by (auto simp: transform_if_def Let_def t3_def [symmetric] bind_res_Inr)
  define t5 where "t5 = gate_branch d bf bl ''true'' t4"
  let ?L = "set_option bf \<union> set_option bl \<union> ?K"
  have t5: "good b q ?L t5" unfolding t5_def
    by (intro good_gate_branch good_branch_body [OF stmts_good_subset [OF rec] t3 t4]) auto
  from rest obtain t6 of' ol where t6: "branch_body rec orelse t5 = Inr (t6, of', ol)"
    and j: "join_branches body orelse d bl ol (new_vars (t_vars t3) (t_vars t4) @ new_vars (t_vars t5) (t_vars t6))
          (gate_branch d of' ol ''false'' t6) = Inr ((f, l), t')"
    unfolding t5_def [symmetric] by (auto simp: bind_res_Inr)
  have "good b q (set_option of' \<union> set_option ol \<union> ?L) t6"
    by (rule good_branch_body [OF stmts_good_subset [OF rec] t5 t6]) auto
  then have "good b q (set_option of' \<union> set_option ol \<union> ?L) (gate_branch d of' ol ''false'' t6)"
    by (rule good_gate_branch) auto
  then have "good b q (insert f (insert l (set_option of' \<union> set_option ol \<union> ?L))) t'"
    by (rule good_join_branches [OF j]) auto
  then show ?thesis by (rule good_mono) auto
qed

lemma good_transform_match:
  assumes rec: "\<And>c. c \<in> set cases \<Longrightarrow> stmts_good b q rec (mc_body c)" and "good b q K t"
    and "transform_match loc rec i e cases t = Inr (n, t')" and fine: "q \<Longrightarrow> fine_expr e"
  shows "good b q (insert n K) t'"
proof -
  obtain c t1 where c: "transform_expr loc e t = (c, t1)" by fastforce
  obtain d t2 where d: "push_node Switch [(''source'', AString (format_expr e))] t1 = (d, t2)" by fastforce
  have "bind_res (match_cases loc rec i d cases (push_edge c d t2)) (\<lambda>(t3, _). Inr (d, t3)) = Inr (n, t')"
    using assms(3) unfolding transform_match_def c d prod.case .
  then obtain x where x: "match_cases loc rec i d cases (push_edge c d t2) = Inr (t', x)" "n = d"
    by (auto simp only: bind_res_Inr prod.case split: prod.splits)
  have "good b q (insert d (insert c K)) (push_edge c d t2)"
    by (intro good_push_edge good_push_node [OF d] good_transform_expr [OF fine assms(2) c]) auto
  from good_match_cases [OF rec this _ x(1)] show ?thesis by (auto simp: x(2) elim: good_mono)
qed

lemma good_assign:
  assumes "transform_assign loc i tgts v t = Inr ((f, l), t')" "good b q K t" and fine: "q \<Longrightarrow> fine_expr v"
  shows "good b q (insert f (insert l K)) t'"
proof (cases "length tgts = 1 \<and> target_name (hd tgts) \<noteq> None")
  case False
  with assms show ?thesis
    by (auto simp: transform_assign_def split: if_splits option.splits intro: good_two_ids)
next
  case True
  then obtain name where name: "target_name (hd tgts) = Some name" by blast
  obtain n t1 where n: "transform_expr loc v t = (n, t1)" by fastforce
  from assms(1) True name n have r: "f = n" "l = n"
    "t' = set_var_node name n (t1\<lparr>t_nodes := add_output n name (t_nodes t1)\<rparr>)"
    by (auto simp: transform_assign_def one_node_def)
  show ?thesis unfolding r
    by (simp, intro good_set_var good_add_output good_transform_expr [OF fine assms(2) n]) simp_all
qed

lemma good_ann_assign:
  assumes "transform_ann_assign loc target v t = Inr ((f, l), t')" "good b q K t"
    and fine: "\<And>x. v = Some x \<Longrightarrow> q \<Longrightarrow> fine_expr x"
  shows "good b q (insert f (insert l K)) t'"
proof (cases "target_name target")
  case None
  with assms show ?thesis by (auto simp: transform_ann_assign_def intro: good_two_ids)
next
  case (Some name)
  obtain n t1 where n: "(case v of Some x \<Rightarrow> transform_expr loc x t
      | None \<Rightarrow> push_node Input [(''name'', AString name)] t) = (n, t1)" by fastforce
  then have "good b q (insert n K) t1"
    using assms(2) by (auto split: option.splits intro: good_transform_expr [OF fine] good_push_node)
  with assms(1) Some n show ?thesis by (auto simp: transform_ann_assign_def one_node_def intro: good_set_var)
qed

lemma good_aug_assign:
  assumes "transform_aug_assign loc target op v t = Inr ((f, l), t')" "good b q K t" and fine: "q \<Longrightarrow> fine_expr v"
  shows "good b q (insert f (insert l K)) t'"
proof (cases "target_name target")
  case None
  with assms show ?thesis by (auto simp: transform_aug_assign_def intro: good_two_ids)
next
  case (Some name)
  obtain i t1 where i: "resolve_var name t = (i, t1)" by fastforce
  obtain j t2 where j: "transform_expr loc v t1 = (j, t2)" by fastforce
  obtain n t3 where n: "push_node Calc [(''expr'', AString (name @ '' '' @ aug_op_to_str op @ '' '' @ format_expr v)),
      (''output'', AString name)] t2 = (n, t3)" by fastforce
  from assms(1) Some i j n have r: "f = n" "l = n" "t' = set_var_node name n (push_edge j n (push_edge i n t3))"
    by (auto simp: transform_aug_assign_def one_node_def)
  have "good b q (insert n (insert j (insert i K))) t'" unfolding r
    by (intro good_set_var good_push_edge good_push_node [OF n] good_transform_expr [OF fine _ j] good_resolve [OF i assms(2)]) simp_all
  then show ?thesis unfolding r by (rule good_mono) auto
qed

lemma good_return:
  assumes "transform_return loc v t = Inr ((f, l), t')" "good b q K t"
    and fine: "\<And>x. v = Some x \<Longrightarrow> q \<Longrightarrow> fine_expr x"
  shows "good b q (insert f (insert l K)) t'"
proof (cases v)
  case None
  with assms show ?thesis
    by (cases "push_node Act [(''type'', AString ''return'')] t")
      (auto simp: transform_return_def one_node_def dest: good_push_node)
next
  case (Some x)
  obtain c t1 where c: "transform_expr loc x t = (c, t1)" by fastforce
  obtain n t2 where n: "push_node Act [(''type'', AString ''return'')] t1 = (n, t2)" by fastforce
  from assms(1) Some c n have r: "f = c" "l = n" "t' = push_edge c n t2" by (auto simp: transform_return_def)
  have "good b q (insert n (insert c K)) t'" unfolding r
    by (intro good_push_edge good_push_node [OF n] good_transform_expr [OF fine [OF Some] assms(2) c]) auto
  then show ?thesis unfolding r by (rule good_mono) auto
qed

lemma good_assert:
  assumes "transform_assert loc e t = Inr ((f, l), t')" "good b q K t" and fine: "q \<Longrightarrow> fine_expr e"
  shows "good b q (insert f (insert l K)) t'"
proof -
  obtain c t1 where c: "transform_expr loc e t = (c, t1)" by fastforce
  obtain n t2 where n: "push_node Decide [(''condition'', AString (''not ('' @ format_expr e @ '')''))] t1 = (n, t2)"
    by fastforce
  from assms(1) c n have r: "f = n" "l = n" "t' = push_edge c n t2"
    by (auto simp: transform_assert_def one_node_def)
  have "good b q (insert n (insert c K)) t'" unfolding r
    by (intro good_push_edge good_push_node [OF n] good_transform_expr [OF fine assms(2) c]) auto
  then show ?thesis unfolding r by (rule good_mono) auto
qed

lemma good_for_head:
  assumes "good b q K t" and fine: "q \<Longrightarrow> fine_expr iter"
  shows "transform_for_head loc target iter t = Inl t' \<Longrightarrow> good b q L t'"
    and "transform_for_head loc target iter t = Inr (n, t') \<Longrightarrow> good b q (insert n K) t'"
proof -
  obtain c t1 where c: "transform_expr loc iter t = (c, t1)" by fastforce
  note t1 = good_transform_expr [OF fine assms(1) c]
  {
    assume "transform_for_head loc target iter t = Inl t'"
    with c have "t' = transform_error loc (expr_start target) ''loop target must be a simple variable'' t1"
      by (auto simp: transform_for_head_def split: option.splits prod.splits)
    with good_error [OF t1] show "good b q L t'" by simp
  next
    assume h: "transform_for_head loc target iter t = Inr (n, t')"
    with c obtain name t2 where t2: "push_node Loop
        [(''target'', AString name), (''max_iterations'', AInt (infer_range_max iter))] t1 = (n, t2)"
      "t' = set_var_node name n (push_edge c n t2)"
      by (auto simp: transform_for_head_def split: option.splits prod.splits)
    have "good b q (insert n (insert c K)) t'" unfolding t2(2)
      by (intro good_set_var good_push_edge good_push_node [OF t2(1) t1]) auto
    then show "good b q (insert n K) t'" by (rule good_mono) auto
  }
qed

text \<open>A statement has a node when it is neither \<open>pass\<close> nor a \<open>with\<close> without a body.\<close>

definition solid_stmt :: "stmt \<Rightarrow> bool" where
  "solid_stmt s \<longleftrightarrow> (case s of SPass _ \<Rightarrow> False | SWith _ _ body \<Rightarrow> body \<noteq> [] | _ \<Rightarrow> True)"

definition solid :: "stmt list \<Rightarrow> bool" where
  "solid ss \<longleftrightarrow> (\<forall>s. occurs_stmt s ss \<longrightarrow> solid_stmt s)"

lemma solid_Cons: "solid (s # ss) \<longleftrightarrow> solid_stmt s \<and> solid (stmt_children s) \<and> solid ss"
  by (auto simp: solid_def occurs_stmt_Cons)

lemma solid_subset: "solid ss \<Longrightarrow> set ts \<subseteq> set ss \<Longrightarrow> solid ts"
  unfolding solid_def by (meson occurs_stmt.simps subsetD)

lemma solid_child: "solid [s] \<Longrightarrow> set ts \<subseteq> set (stmt_children s) \<Longrightarrow> solid ts"
  by (auto simp: solid_Cons intro: solid_subset)

lemma stmt_children_size: "c \<in> set (stmt_children s) \<Longrightarrow> size c < size s"
proof -
  have l: "x \<in> set xs \<Longrightarrow> size x \<le> size_list size xs" for x :: stmt and xs
    by (rule size_list_mem)
  have h: "h \<in> set hs \<Longrightarrow> x \<in> set (handler_body h) \<Longrightarrow> size x \<le> size_list size hs" for x h hs
  proof (induction hs)
    case (Cons d ds)
    then show ?case using l [of x "handler_body d"] by (cases d) auto
  qed simp
  show "c \<in> set (stmt_children s) \<Longrightarrow> size c < size s"
    by (cases s) (auto simp: less_Suc_eq_le dest: l h case_body_size)
qed

text \<open>Every expression of every statement is fine, and \<open>META\<close> is not called.\<close>

definition fine_stmt :: "stmt \<Rightarrow> bool" where
  "fine_stmt s \<longleftrightarrow> (\<forall>e \<in> set (stmt_exprs s). fine_expr e) \<and> (\<forall>i e. s = SExpr i e \<longrightarrow> \<not> is_name_call e ''META'')"

definition fine :: "stmt list \<Rightarrow> bool" where
  "fine ss \<longleftrightarrow> (\<forall>s. occurs_stmt s ss \<longrightarrow> fine_stmt s)"

lemma fine_Cons: "fine (s # ss) \<longleftrightarrow> fine_stmt s \<and> fine (stmt_children s) \<and> fine ss"
  by (auto simp: fine_def occurs_stmt_Cons)

lemma fine_subset: "fine ss \<Longrightarrow> set ts \<subseteq> set ss \<Longrightarrow> fine ts"
  unfolding fine_def by (meson occurs_stmt.simps subsetD)

lemma fine_children: "fine [s] \<Longrightarrow> set ts \<subseteq> set (stmt_children s) \<Longrightarrow> fine ts"
  by (auto simp: fine_Cons intro: fine_subset)

lemma fine_here: "fine [s] \<Longrightarrow> e \<in> set (stmt_exprs s) \<Longrightarrow> fine_expr e"
  by (auto simp: fine_Cons fine_stmt_def)

lemma good_transform_stmt:
  "good b q K t \<Longrightarrow> (b \<Longrightarrow> solid [s]) \<Longrightarrow> (q \<Longrightarrow> fine [s]) \<Longrightarrow>
   transform_stmt loc s t = Inr ((f, l), t') \<Longrightarrow> good b q (insert f (insert l K)) t'"
proof (induction s arbitrary: K t f l t' rule: measure_induct_rule [where f = size])
  case (less s)
  have sub: "stmts_good b q (transform_stmt loc) ss" if ss: "set ss \<subseteq> set (stmt_children s)" for ss
    unfolding stmts_good_def
  proof (intro ballI allI impI)
    fix x L u f l u'
    assume x: "x \<in> set ss" "good b q L u" "transform_stmt loc x u = Inr ((f, l), u')"
    show "good b q (insert f (insert l L)) u'"
    proof (rule less.IH [OF _ x(2) _ _ x(3)])
      show "size x < size s" using x(1) ss stmt_children_size by blast
      show "solid [x]" if b using solid_child [OF less.prems(2) [OF that], of "[x]"] x(1) ss by auto
      show "fine [x]" if q using fine_children [OF less.prems(3) [OF that], of "[x]"] x(1) ss by auto
    qed
  qed
  have ids: "good b q (insert f (insert l K)) t'" if "one_node (gen_id (transform_error loc i m t)) = Inr ((f, l), t')" for i m
    using that less.prems(1) by (auto simp: one_node_def split: prod.splits intro: good_error_id)
  have node: "good b q (insert f (insert l K)) t'" if "one_node (push_node op args t) = Inr ((f, l), t')" "op = Act \<or> op = Error" for op args
  proof -
    have "op \<noteq> Call" using that(2) by auto
    with that(1) less.prems(1) show ?thesis by (auto simp: one_node_def split: prod.splits intro: good_push_node)
  qed
  have "transform_stmt loc s t = Inl (t_errors t)" if "t_errors t \<noteq> []"
    by (rule trans [OF transform_stmt.simps if_P [OF that]])
  with less.prems(4) have ok: "t_errors t = []" by auto
  note step = less.prems(4) [unfolded transform_stmt.simps [of loc s] ok, simplified]
  have fe: "fine_expr e" if q "e \<in> set (stmt_exprs s)" for e
    using fine_here [OF less.prems(3) [OF that(1)] that(2)] .
  show ?case
  proof (cases s)
    case (SAssign i tgts v)
    with step ok have "transform_assign loc i tgts v t = Inr ((f, l), t')" by simp
    then show ?thesis by (rule good_assign [OF _ less.prems(1)]) (rule fe, simp_all add: SAssign)
  next
    case (SAnnAssign i target a v)
    with step ok have "transform_ann_assign loc target v t = Inr ((f, l), t')" by simp
    then show ?thesis by (rule good_ann_assign [OF _ less.prems(1)]) (rule fe, simp_all add: SAnnAssign)
  next
    case (SAugAssign i target op v)
    with step ok have "transform_aug_assign loc target op v t = Inr ((f, l), t')" by simp
    then show ?thesis by (rule good_aug_assign [OF _ less.prems(1)]) (rule fe, simp_all add: SAugAssign)
  next
    case (SExpr i e)
    have "fine_expr e" if q
      using fe [OF that, of e] less.prems(3) [OF that] by (auto simp: SExpr fine_Cons fine_stmt_def)
    from good_transform_expr [OF this less.prems(1)] SExpr step ok show ?thesis
      by (auto simp: one_node_def split: prod.splits)
  next
    case (SReturn i v)
    with step ok have "transform_return loc v t = Inr ((f, l), t')" by simp
    then show ?thesis by (rule good_return [OF _ less.prems(1)]) (rule fe, simp_all add: SReturn)
  next
    case (SAssert i e m)
    with step ok have "transform_assert loc e t = Inr ((f, l), t')" by simp
    then show ?thesis by (rule good_assert [OF _ less.prems(1)]) (rule fe, simp_all add: SAssert)
  next
    case (SIf i test body orelse)
    with step ok have "transform_if loc (transform_stmt loc) test body orelse t = Inr ((f, l), t')" by simp
    from good_transform_if [OF _ less.prems(1) this] show ?thesis using sub fe by (simp add: SIf)
  next
    case (SMatch i e cases)
    with step ok obtain n u where m: "transform_match loc (transform_stmt loc) i e cases t = Inr (n, u)"
      "f = n" "l = n" "t' = u" by (auto simp: bind_res_Inr one_node_def)
    have c: "stmts_good b q (transform_stmt loc) (mc_body c)" if "c \<in> set cases" for c
      by (rule sub) (use that in \<open>auto simp: SMatch\<close>)
    from good_transform_match [OF c less.prems(1) m(1)] fe show ?thesis unfolding m(2-4) by (simp add: SMatch)
  next
    case (SPass i)
    with less.prems(2) have "\<not> b" by (auto simp: solid_Cons solid_stmt_def)
    with SPass step ok good_gen_id [OF less.prems(1)] show ?thesis
      by (auto simp: one_node_def good_def split: prod.splits)
  next
    case (SFor i target iter body orelse)
    show ?thesis
    proof (cases "transform_for_head loc target iter t")
      case (Inl t1)
      with SFor step ok have "two_ids t1 = Inr ((f, l), t')" by simp
      then show ?thesis by (rule good_two_ids') (rule good_for_head(1) [OF less.prems(1) fe Inl], simp_all add: SFor)
    next
      case (Inr r)
      obtain n t1 where r: "r = (n, t1)" by fastforce
      from SFor Inr r step ok obtain t2 first prev dead where b: "for_body (transform_stmt loc) body t1 = Inr (t2, first, prev, dead)"
        and e: "f = n" "l = n" "t' = (case first of Some f \<Rightarrow> push_edge n f t2 | None \<Rightarrow> t2)"
        by (auto simp: bind_res_Inr)
      have "good b q (set_option first \<union> insert n K) t2"
        by (rule good_for_body [OF sub good_for_head(2) [OF less.prems(1) fe Inr [unfolded r]] b]) (auto simp: SFor)
      then have "good b q (set_option first \<union> insert n K) t'" unfolding e by (auto split: option.split intro: good_push_edge)
      then show ?thesis unfolding e by (rule good_mono) auto
    qed
  next
    case (SWith i items body)
    note sub' = sub [of body, unfolded SWith]
    consider "is_name_call (item_expr (hd items)) ''PARALLEL''"
      | "\<not> is_name_call (item_expr (hd items)) ''PARALLEL''" "is_name_call (item_expr (hd items)) ''GROUP''"
      | "\<not> is_name_call (item_expr (hd items)) ''PARALLEL''" "\<not> is_name_call (item_expr (hd items)) ''GROUP''"
      by blast
    then show ?thesis
    proof cases
      case 1
      obtain n t1 where n: "push_node Parallel [] t = (n, t1)" by fastforce
      with SWith step ok 1 have p: "parallel_body (transform_stmt loc) n body t1 = Inr t'" and e: "f = n" "l = n"
        by (auto simp: Let_def bind_res_Inr)
      have "good b q (insert n K) t'"
        by (rule good_parallel_body [OF sub' good_push_node [OF n less.prems(1)] _ p]) auto
      then show ?thesis by (simp add: e)
    next
      case 2
      let ?t = "t\<lparr>t_group := Some (group_title_from_call (item_expr (hd items)))\<rparr>"
      from SWith step ok 2 obtain t1 first prev where g: "group_body (transform_stmt loc) body ?t = Inr (t1, first, prev)"
        and e: "t' = snd (gen_id (t1\<lparr>t_group := t_group t\<rparr>))"
          "f = (case first of Some f \<Rightarrow> f | None \<Rightarrow> fst (gen_id (t1\<lparr>t_group := t_group t\<rparr>)))"
          "l = (case prev of Some f \<Rightarrow> f | None \<Rightarrow> fst (gen_id (t1\<lparr>t_group := t_group t\<rparr>)))"
        by (auto simp: Let_def bind_res_Inr case_prod_beta cong: option.case_cong)
      have "good b q K ?t" using less.prems(1) by simp
      with good_group_body [OF sub' this g] have t1: "good b q (set_option first \<union> set_option prev \<union> K) t'"
        "body \<noteq> [] \<longrightarrow> first \<noteq> None \<and> prev \<noteq> None"
        unfolding e(1) by (simp_all add: good_gen_id)
      show ?thesis
      proof (cases b)
        case True
        with less.prems(2) SWith have "body \<noteq> []" by (simp add: solid_Cons solid_stmt_def)
        with t1 show ?thesis by (auto simp: e(2,3) elim: good_mono)
      next
        case False
        with t1(1) show ?thesis by (simp add: good_def)
      qed
    next
      case 3
      with SWith step ok less.prems(1) show ?thesis by (auto simp: Let_def intro: good_two_ids)
    qed
  qed (use step ok in \<open>auto dest: ids node\<close>)
qed

section \<open>Modules\<close>

lemma good_new: "good b q {} transformer_new"
  by (simp add: good_def fresh_ids_def closed_over_def transformer_new_def)

lemma good_input_param: "good b q {} t \<Longrightarrow> good b q {} (input_param p t)"
  unfolding input_param_def
  by (cases "push_node Input [(''name'', AString (par_name p))] t")
    (auto dest!: good_push_node dest: good_drop intro: good_set_var good_drop)

lemma good_meta_stmt: "meta_stmt fe loc s t = Inr t' \<Longrightarrow> good b q K t \<Longrightarrow> good b q K t'"
  by (auto simp: meta_stmt_def split: stmt.splits option.splits if_splits)

lemma good_fold: "(\<And>x t. good b q K t \<Longrightarrow> good b q K (f x t)) \<Longrightarrow> good b q K t \<Longrightarrow> good b q K (fold f xs t)"
  by (induction xs arbitrary: t) auto

lemma good_module_stmts:
  assumes "b \<Longrightarrow> solid ss" "good b q {} t" "q \<Longrightarrow> fine ss"
    and "fold_res (module_child loc) ss (t, None, False) = Inr (t', prev, dead)"
  shows "good b q {} t'"
proof -
  have "case (t', prev, dead) of (t, prev, _) \<Rightarrow> good b q (set_option prev) t"
    using assms(4)
  proof (rule fold_res_invariant)
    fix s x y
    assume s: "s \<in> set ss" "case x of (t, prev, _) \<Rightarrow> good b q (set_option prev) t" "module_child loc s x = Inr y"
    obtain t prev dead where x: "x = (t, prev, dead)" by (cases x)
    from s(3) obtain f l t1 where r: "transform_stmt loc s t = Inr ((f, l), t1)"
      "y = (follow prev dead f t1, Some l, stmt_is_terminal s)"
      by (auto simp: module_child_def x bind_res_Inr)
    have "solid [s]" if b using assms(1) [OF that] s(1) by (auto elim: solid_subset)
    moreover have "fine [s]" if q using assms(3) [OF that] s(1) by (auto elim: fine_subset)
    ultimately have "good b q (insert f (insert l (set_option prev))) t1"
      using s(2) r(1) by (intro good_transform_stmt) (simp_all add: x)
    then have "good b q (insert f (insert l (set_option prev))) (follow prev dead f t1)"
      by (rule good_follow) auto
    then show "case y of (t, prev, _) \<Rightarrow> good b q (set_option prev) t"
      by (auto simp: r(2) elim!: good_mono)
  qed (use assms(2) in simp)
  then show ?thesis by (auto elim: good_mono)
qed

lemma graph_function_body:
  "graph_function body = Some (ps, ss) \<Longrightarrow> \<exists>i name d r. SFunctionDef i name ps ss d r \<in> set body"
  unfolding graph_function_def
  by (induction body) (auto split: stmt.splits if_splits option.splits)

lemma good_module:
  assumes "transform_module fe loc body transformer_new = Inr t" "b \<Longrightarrow> solid body"
    and "\<And>i name ps ss d r. q \<Longrightarrow> SFunctionDef i name ps ss d r \<in> set body \<Longrightarrow> fine ss"
  shows "good b q {} t"
proof -
  from assms(1) obtain t1 ps ss t2 prev dead where t1: "fold_res (meta_stmt fe loc) body transformer_new = Inr t1"
    and g: "graph_function body = Some (ps, ss)"
    and r: "fold_res (module_child loc) ss
        (fold input_param (posonly_params ps) (fold input_param (plain_params ps) t1), None, False) = Inr (t, prev, dead)"
    by (auto simp: transform_module_def bind_res_Inr Let_def split: option.splits)
  have "good b q {} t1" using t1 good_new by (rule fold_res_invariant) (rule good_meta_stmt)
  then have "good b q {} (fold input_param (posonly_params ps) (fold input_param (plain_params ps) t1))"
    by (intro good_fold good_input_param)
  moreover have "solid ss" if b
  proof -
    from graph_function_body [OF g] obtain i name d r where "SFunctionDef i name ps ss d r \<in> set body" by blast
    with assms(2) [OF that] have "solid [SFunctionDef i name ps ss d r]" by (auto elim: solid_subset)
    then show ?thesis by (rule solid_child) simp
  qed
  moreover have "fine ss" if q using assms(3) [OF that] graph_function_body [OF g] by blast
  ultimately show ?thesis using good_module_stmts r by blast
qed

lemma fresh_ids_distinct: "fresh_ids t \<Longrightarrow> distinct (map node_id (t_nodes t))"
proof -
  assume "fresh_ids t"
  then obtain ks where ks: "map node_id (t_nodes t) = map node_name ks" "sorted_wrt (<) ks"
    by (auto simp: fresh_ids_def)
  have "inj_on node_name (set ks)"
  proof (rule inj_onI)
    fix j k
    assume "node_name j = node_name k"
    then have "parse_nat (show_nat j) = parse_nat (show_nat k)" by (simp add: node_name_def)
    then show "j = k" by (simp add: parse_nat_show)
  qed
  then show ?thesis using ks by (simp add: distinct_map strict_sorted_iff)
qed

end
