(* ===== verification/Accounting.thy ===== *)
theory Accounting
  imports Runs
begin

text \<open>
  What a completed run reports: the order of execution and the number of executed nodes,
  for plans without \<open>PARALLEL\<close>, and what \<open>PARALLEL\<close> does to the main state.
\<close>

section \<open>Runs without PARALLEL\<close>

definition no_parallel :: "compiled_plan \<Rightarrow> bool" where
  "no_parallel p \<longleftrightarrow> (\<forall>n \<in> set (cp_nodes p). cn_op n \<noteq> Parallel)"

definition node_id_at :: "compiled_plan \<Rightarrow> u32 \<Rightarrow> string" where
  "node_id_at p i = (case get_node p i of Some n \<Rightarrow> cn_id n | None \<Rightarrow> [])"

lemma get_node_mem: "get_node p i = Some n \<Longrightarrow> n \<in> set (cp_nodes p) \<and> i < length (cp_nodes p)"
  by (auto simp: get_node_def list_at_Some)

lemma run_node_cases:
  assumes "plan_indexed (e_plan ex)" "cn_op n \<noteq> Parallel" "run_node k ex P n st = Inr (st', out)"
  shows "st' = st \<and> out = NodeOk \<or> node_ran ex n st st'"
proof (cases k)
  case 0
  with assms(3) show ?thesis by simp
next
  case (Suc m)
  with assms(3) have "run_node_step (run_node m ex None) ex P n st = Inr (st', out)" by simp
  from run_node_step_cases [OF assms(1,2) this] show ?thesis .
qed

text \<open>The invariant of the main pass: the order is a subsequence of the plan's, the counter in budget.\<close>

lemma pass_accounting:
  assumes "plan_indexed (e_plan ex)" "no_parallel (e_plan ex)"
  shows "pass ex is st = Inr st' \<Longrightarrow>
    (\<exists>js. subseq js is \<and> x_order st' = x_order st @ map (node_id_at (e_plan ex)) js) \<and>
    (x_count st' = x_count st \<or> x_count st' \<le> node_budget (e_plan ex))"
proof (induction "is" arbitrary: st)
  case Nil
  then show ?case by auto
next
  case (Cons i rest)
  from Cons.prems obtain n s out where n: "get_node (e_plan ex) i = Some n"
    and r: "run_node (node_fuel (e_plan ex)) ex None n st = Inr (s, out)" "pass ex rest s = Inr st'"
    by (auto simp: bind_res_Inr split: option.splits)
  from Cons.IH [OF r(2)] obtain js where js: "subseq js rest"
    "x_order st' = x_order s @ map (node_id_at (e_plan ex)) js"
    "x_count st' = x_count s \<or> x_count st' \<le> node_budget (e_plan ex)" by blast
  have "cn_op n \<noteq> Parallel" using assms(2) get_node_mem [OF n] by (auto simp: no_parallel_def)
  from run_node_cases [OF assms(1) this r(1)] show ?case
  proof
    assume "s = st \<and> out = NodeOk"
    with js show ?thesis by blast
  next
    assume ran: "node_ran ex n st s"
    then have "x_order st' = x_order st @ map (node_id_at (e_plan ex)) (i # js)"
      using js(2) n by (simp add: node_ran_def node_id_at_def)
    moreover have "subseq (i # js) (i # rest)" using js(1) by simp
    moreover have "x_count st' \<le> node_budget (e_plan ex)"
      using ran js(3) by (auto simp: node_ran_def)
    ultimately show ?thesis by blast
  qed
qed

lemma execute_pass:
  "execute_with p w inputs pause_policy_default = Inr out \<Longrightarrow>
   \<exists>ord st. topological_order p = Some ord \<and> 
     pass (make_executor p w ord) ord (initial_state p inputs) = Inr st \<and> out = Completed (result_of st)"
  by (auto simp: execute_with_def bind_res_Inr run_from_default completed_def plan_order_def
      split: option.splits)

lemma execute_result:
  assumes "execute p w inputs = Inr r"
  shows "\<exists>ord st. topological_order p = Some ord \<and>
    pass (make_executor p w ord) ord (initial_state p inputs) = Inr st \<and> r = result_of st"
proof -
  from assms obtain out where o: "execute_with p w inputs pause_policy_default = Inr out"
    "(case out of Completed r \<Rightarrow> Inr r | Paused _ \<Rightarrow> Inl (Custom ''default pause policy cannot pause'')) =
       (Inr r :: exec_error + execution_result)"
    by (auto simp: execute_def bind_res_Inr)
  from execute_pass [OF o(1)] o(2) show ?thesis by auto
qed

lemma execute_accounting:
  assumes "plan_indexed p" "no_parallel p" "execute p w inputs = Inr r"
  shows "\<exists>ord js. topological_order p = Some ord \<and> subseq js ord \<and>
    er_execution_order r = map (node_id_at p) js \<and> er_node_count r \<le> node_budget p"
proof -
  from execute_result [OF assms(3)] obtain ord st where o: "topological_order p = Some ord"
    "pass (make_executor p w ord) ord (initial_state p inputs) = Inr st" "r = result_of st" by blast
  have e: "e_plan (make_executor p w ord) = p" by (simp add: make_executor_def)
  from pass_accounting [OF _ _ o(2)] assms(1,2) obtain js where
    "subseq js ord" "x_order st = x_order (initial_state p inputs) @ map (node_id_at p) js"
    "x_count st = x_count (initial_state p inputs) \<or> x_count st \<le> node_budget p"
    by (auto simp: e)
  with o(1,3) show ?thesis by (auto simp: result_of_def initial_state_def)
qed

text \<open>A subsequence of an order of the plan runs no node before its predecessors.\<close>

lemma subseq_order:
  assumes "topo_order K es vs" "subseq js vs" "(u, js ! b) \<in> set es" "b < length js" "js ! a = u" "a < length js"
  shows "a < b"
proof (rule ccontr)
  assume "\<not> a < b"
  have d: "distinct vs" using assms(1) by (simp add: topo_order_def)
  from assms(2) have "\<exists>f. strict_mono_on {..<length js} f \<and> (\<forall>i < length js. f i < length vs \<and> js ! i = vs ! f i)"
  proof (induction rule: list_emb.induct)
    case (list_emb_Nil ys)
    then show ?case by (auto intro: exI [of _ id])
  next
    case (list_emb_Cons xs ys y)
    then obtain f where "strict_mono_on {..<length xs} f" "\<forall>i < length xs. f i < length ys \<and> xs ! i = ys ! f i" by blast
    then show ?case by (intro exI [of _ "\<lambda>i. Suc (f i)"]) (auto simp: strict_mono_on_def)
  next
    case (list_emb_Cons2 x y xs ys)
    then obtain f where f: "strict_mono_on {..<length xs} f" "\<forall>i < length xs. f i < length ys \<and> xs ! i = ys ! f i" by blast
    then show ?case using list_emb_Cons2(1)
      by (intro exI [of _ "\<lambda>i. case i of 0 \<Rightarrow> 0 | Suc j \<Rightarrow> Suc (f j)"])
        (auto simp: strict_mono_on_def nth_Cons split: nat.split)
  qed
  then obtain f where f: "strict_mono_on {..<length js} f" "\<forall>i < length js. f i < length vs \<and> js ! i = vs ! f i"
    by blast
  have "u \<in> set (take (f b) vs)" using assms f(2) by (auto simp: topo_order_def)
  then obtain k where k: "k < f b" "k < length vs" "vs ! k = u" by (auto simp: in_set_conv_nth)
  have "f a = k" using k assms(5,6) f(2) d by (metis nth_eq_iff_index_eq)
  moreover have "f b \<le> f a"
    using f(1) \<open>\<not> a < b\<close> assms(4,6) by (cases "a = b") (auto simp: strict_mono_on_def less_imp_le)
  ultimately show False using k by simp
qed

section \<open>Loops and the output of a run\<close>

lemma run_loop_output:
  "plan_indexed (e_plan ex) \<Longrightarrow> run_loop ex P cursor n st = Inr (st', out) \<Longrightarrow> x_output st' = x_output st"
  using run_loop_frame [of ex P cursor n st st' out] by (simp add: loop_frame_def)

section \<open>PARALLEL and the variables of the main context\<close>

lemma merge_thread_variables:
  "variables (x_ctx (merge_thread ic r st)) = variables (x_ctx st)"
  by (cases r) (simp add: merge_thread_def insert_branch_scope_def split: option.split)

lemma merge_threads_variables:
  "variables (x_ctx (fold (merge_thread ic) rs st)) = variables (x_ctx st)"
  by (induction rs arbitrary: st) (simp_all add: merge_thread_variables)

end
