(* ===== verification/Examples.thy ===== *)
theory Examples
  imports Termination Accounting
begin

text \<open>
  Small plans and a world with fixed answers, on which the theorems about runs are applied:
  the witnesses of the properties evaluate them in the kernel.
\<close>

definition demo_node :: "u32 \<Rightarrow> string \<Rightarrow> opcode \<Rightarrow> (string \<times> string) list \<Rightarrow> u32 option \<Rightarrow> compiled_node" where
  "demo_node i nid op args b =
     \<lparr>cn_index = i, cn_id = nid, cn_op = op,
      cn_args = map (\<lambda>(k, v). \<lparr>ca_key = k, ca_value = v\<rparr>) args, cn_type = None,
      cn_branch = b, cn_group = None\<rparr>"

definition demo_edge :: "u32 \<Rightarrow> u32 \<Rightarrow> edge_kind \<Rightarrow> string option \<Rightarrow> compiled_edge" where
  "demo_edge a b k c =
     \<lparr>ce_from = a, ce_to = b, ce_condition = c, ce_mapping = None, ce_priority = None,
      ce_label = None, ce_kind = k\<rparr>"

definition demo_plan :: "u32 \<Rightarrow> compiled_node list \<Rightarrow> compiled_edge list \<Rightarrow> compiled_plan" where
  "demo_plan budget ns es =
     \<lparr>cp_version = 4, cp_nodes = ns, cp_edges = es,
      cp_metadata = compiled_metadata_default\<lparr>cm_max_node_execution_count := budget\<rparr>,
      cp_id_map = None, cp_groups = []\<rparr>"

text \<open>Tools answer with their argument count, the clock stands still, values have no size.\<close>

definition demo_world :: world where
  "demo_world =
     \<lparr>w_json_string = plain_json_string, w_json_value = (\<lambda>_. None), w_value_bytes = (\<lambda>_. 0),
      w_elapsed = (\<lambda>_. 0), w_dispatch = (\<lambda>_ _ ps _. Inr (VInt (int (length ps)))),
      w_subgraph = (\<lambda>_ name c. Inl name), w_schema_hash = (\<lambda>_ _. Inl []),
      w_in_flight = (\<lambda>_. 0)\<rparr>"

lemma demo_world_ok: "world_ok demo_world"
  by (simp add: world_ok_def demo_world_def plain_json_string_shrinks)

text \<open>\<open>x = 1; return x\<close>\<close>

definition two_step_plan :: compiled_plan where
  "two_step_plan = demo_plan 10
     [demo_node 0 ''a'' Calc [(''expr'', ''1''), (''output'', ''x'')] None,
      demo_node 1 ''b'' Act [(''type'', ''return''), (''value'', ''x'')] None]
     [demo_edge 0 1 EData None]"

text \<open>\<open>for i in range(3): return i\<close> and then \<open>y = 7\<close>.\<close>

definition loop_return_plan :: compiled_plan where
  "loop_return_plan = demo_plan 10
     [demo_node 0 ''l'' Loop [(''max_iterations'', ''3''), (''target'', ''i'')] None,
      demo_node 1 ''r'' Act [(''type'', ''return''), (''value'', ''i'')] None,
      demo_node 2 ''k'' Calc [(''expr'', ''7''), (''output'', ''y'')] None]
     [demo_edge 0 1 EData None, demo_edge 0 2 EControl None]"

text \<open>\<open>for i in range(2): raise\<close>\<close>

definition loop_error_plan :: compiled_plan where
  "loop_error_plan = demo_plan 10
     [demo_node 0 ''l'' Loop [(''max_iterations'', ''2''), (''target'', ''i'')] None,
      demo_node 1 ''e'' Error [(''message'', ''boom'')] None]
     [demo_edge 0 1 EData None]"

text \<open>Two branches, and a continuation that both control.\<close>

definition parallel_plan :: "u32 \<Rightarrow> compiled_plan" where
  "parallel_plan budget = demo_plan budget
     [demo_node 0 ''p'' Parallel [] None,
      demo_node 1 ''a'' Calc [(''expr'', ''1''), (''output'', ''x'')] (Some 0),
      demo_node 2 ''b'' Calc [(''expr'', ''2''), (''output'', ''y'')] (Some 1),
      demo_node 3 ''c'' Calc [(''expr'', ''3''), (''output'', ''z'')] None]
     [demo_edge 0 1 EData None, demo_edge 0 2 EData None,
      demo_edge 1 3 EControl None, demo_edge 2 3 EControl None]"

section \<open>Evaluating a run\<close>

text \<open>
  Bundles that unfold the interpreter on a concrete plan; the weak congruences keep the
  simplifier from rewriting branches that are not taken.
\<close>

lemma run_node_numeral:
  "run_node (numeral k) = (\<lambda>ex. run_node_step (run_node (pred_numeral k) ex None) ex)"
  by (simp add: numeral_eq_Suc fun_eq_iff)

lemma run_iterations_numeral:
  "run_iterations ex pause li target body (numeral k) it pos st =
     bind_res (run_body ex pause li it (drop pos (enumerate 0 body))
         (set_var_opt target (VInt (int it)) st))
       (\<lambda>(st', e). case e of
          BodyDone \<Rightarrow> run_iterations ex pause li target body (pred_numeral k) (Suc it) 0 st'
        | BodyBreak \<Rightarrow> Inr (st', None)
        | BodyPaused ls \<Rightarrow> Inr (st', Some ls))"
  by (simp add: numeral_eq_Suc)

lemma bind_res_block: "r = r' \<Longrightarrow> bind_res r f = bind_res r' f"
  by simp

lemmas demo_defs = demo_node_def demo_edge_def demo_plan_def demo_world_def compiled_metadata_default_def

lemmas state_eval = set_out_def set_var_def set_var_opt_def enable_def satisfy_control_def
  apply_mapping_def find_arg_def find_arg2_def

lemmas gate_eval = skipped_def branch_mismatch_def control_pending_def data_pred_missing_def
  edge_mismatch_def decide_edge_def bool_condition_def op_at_def control_pred_count_def
  is_branch_dead_def in_some_body_def

lemmas context_eval = context_new_def ctx_set_def ctx_get_def active_value_def parent_value_def
  set_branch_def clear_branch_def estimated_bytes_def upd_def modify_or_insert_def or_insert_def

lemmas arm_eval = node_fuel_def run_node_numeral run_node_step_def charge_def check_memory_def
  time_limit_us_def node_budget_def mem_limit_def enter_node_def run_arm_def with_ok_def
  run_calc_def calc_value_def eval_in_def resolve_in_def resolve_arg_value_def
  propagate_edges_def propagate_edge_def edge_enables_def run_act_def action_type_def
  return_value_def act_marker_def unwrap_or_def trim_quotes_def

lemmas loop_eval = run_loop_def loop_iterations_def loop_bound_value_def loop_max_iterations_def
  loop_starts_def run_iterations_numeral body_order_def loop_body_def collect_reachable_indices_def
  reach_step_def visit_edge_def body_node_def body_act_def pauses_def finish_loop_def
  late_calc_def enable_fed_def leave_edge_def own_body_def

lemmas parallel_eval = run_parallel_def children_def enable_children_def branch_at_def
  branch_region_def branch_group_def branch_ids_def thread_state_def run_thread_def
  merge_control_def merge_thread_def enter_parallel_def take_branch_scope_def
  insert_branch_scope_def scope_new_def scope_set_def

lemmas frame_eval = make_executor_def initial_state_def initial_enabled_def get_node_def
  list_at_def identify_loop_bodies_def should_pause_def build_checkpoint_def
  checkpoint_elapsed_def result_of_def pause_policy_default_def

lemmas text_eval = eval_expression_rec [OF plain_json_string_shrinks] eval_sections string_eval
  plain_json_string_def

lemmas version_eval = checked_version_def check_version_compatibility_def
  min_supported_version_def max_supported_version_def

lemmas run_eval = demo_defs state_eval gate_eval context_eval arm_eval loop_eval parallel_eval
  frame_eval text_eval Let_def u32_add_def u32_modulus_def edges_from_def List.map_filter_simps

lemmas run_block = first_some_block bind_res_block let_weak_cong

section \<open>Runs of the plans\<close>

lemma demo_orders:
  "topological_order two_step_plan = Some [0, 1]"
  "topological_order loop_return_plan = Some [0, 2, 1]"
  "topological_order loop_error_plan = Some [0, 1]"
  "topological_order (parallel_plan b) = Some [0, 2, 1, 3]"
  by (simp_all add: two_step_plan_def loop_return_plan_def loop_error_plan_def parallel_plan_def
      demo_defs order_eval)

lemma demo_versions:
  "checked_version two_step_plan = Inr ()" "checked_version loop_return_plan = Inr ()"
  "checked_version loop_error_plan = Inr ()" "checked_version (parallel_plan b) = Inr ()"
  by (simp_all add: two_step_plan_def loop_return_plan_def loop_error_plan_def parallel_plan_def
      demo_defs version_eval)

lemmas demo_start = execute_with_def plan_order_def demo_orders demo_versions

lemma two_step_indexed: "plan_indexed two_step_plan" "plan_sized two_step_plan" "no_parallel two_step_plan"
  by (simp_all add: plan_indexed_def plan_sized_def no_parallel_def two_step_plan_def demo_defs
      u32_modulus_def nth_Cons')

lemma two_step_run:
  "execute_with two_step_plan demo_world context_new pause_policy_default =
     Inr (Completed \<lparr>er_context = context_new\<lparr>variables := [(''x'', VInt 1)]\<rparr>,
       er_execution_order = [''a'', ''b''], er_node_count = 2, er_output = Some (VInt 1)\<rparr>)"
  apply (simp add: demo_start cong: bind_res_block)
  apply (simp add: two_step_plan_def demo_defs frame_eval)
  apply (simp add: run_eval cong: run_block del: first_some.simps)
  done

definition pause_after :: "u32 \<Rightarrow> pause_policy" where
  "pause_after k = \<lparr>pp_max_nodes = Some k, pp_node_ids = None\<rparr>"

lemma two_step_pause:
  "\<exists>ck. execute_with two_step_plan demo_world context_new (pause_after 1) = Inr (Paused ck) \<and>
     ck_loop_state ck = None \<and> ck_elapsed_us ck = 0"
  apply (simp add: demo_start pause_after_def cong: bind_res_block)
  apply (simp add: two_step_plan_def demo_defs frame_eval)
  apply (simp add: run_eval cong: run_block del: first_some.simps)
  done

lemma loop_return_run:
  "execute_with loop_return_plan demo_world context_new pause_policy_default =
     Inr (Completed \<lparr>er_context = context_new\<lparr>variables := [(''i'', VInt 0), (''y'', VInt 7)]\<rparr>,
       er_execution_order = [''l'', ''k''], er_node_count = 3, er_output = None\<rparr>)"
  apply (simp add: demo_start cong: bind_res_block)
  apply (simp add: loop_return_plan_def demo_defs frame_eval)
  apply (simp add: run_eval cong: run_block del: first_some.simps)
  done

lemma loop_error_run:
  "execute_with loop_error_plan demo_world context_new pause_policy_default =
     Inr (Completed \<lparr>er_context = context_new\<lparr>variables := [(''i'', VInt 1)]\<rparr>,
       er_execution_order = [''l''], er_node_count = 3, er_output = None\<rparr>)"
  apply (simp add: demo_start cong: bind_res_block)
  apply (simp add: loop_error_plan_def demo_defs frame_eval)
  apply (simp add: run_eval cong: run_block del: first_some.simps)
  done

lemma parallel_run:
  "\<exists>c. execute_with (parallel_plan 1) demo_world context_new pause_policy_default =
     Inr (Completed \<lparr>er_context = c, er_execution_order = [''p'', ''a'', ''b''], er_node_count = 3,
       er_output = None\<rparr>)"
  apply (simp add: demo_start cong: bind_res_block)
  apply (simp add: parallel_plan_def demo_defs frame_eval)
  apply (simp add: run_eval cong: run_block del: first_some.simps)
  done

lemma two_step_unpaused:
  "execute_with two_step_plan demo_world context_new (pause_after 5) =
     Inr (Completed \<lparr>er_context = context_new\<lparr>variables := [(''x'', VInt 1)]\<rparr>,
       er_execution_order = [''a'', ''b''], er_node_count = 2, er_output = Some (VInt 1)\<rparr>)"
  apply (simp add: demo_start pause_after_def cong: bind_res_block)
  apply (simp add: two_step_plan_def demo_defs frame_eval)
  apply (simp add: two_step_plan_def run_eval cong: run_block del: first_some.simps)
  done

lemma loop_return_loop:
  "\<exists>st out. run_loop (make_executor loop_return_plan demo_world [0, 2, 1]) None None
     (cp_nodes loop_return_plan ! 0)
     (initial_state loop_return_plan context_new\<lparr>x_output := Some VNull\<rparr>) = Inr (st, out) \<and>
     map_of (x_outs st) 1 = Some (VInt 0)"
  apply (simp add: loop_return_plan_def demo_defs frame_eval)
  apply (simp add: run_eval cong: run_block del: first_some.simps)
  done

lemma loop_return_indexed: "plan_indexed loop_return_plan"
  by (simp add: plan_indexed_def loop_return_plan_def demo_defs nth_Cons')

end
