(* ===== verification/Pipeline.thy ===== *)
theory Pipeline
  imports Codegen Translation Pause Examples "HOL-Library.Multiset" "HOL-Library.Code_Target_Nat" "HOL-Library.Code_Target_Int"
begin

text \<open>
  From source code to the executor: the sanitizer, the transformer, the optimizer and the code
  generator together.  The targets of calls reach the code generator with the quotes of the
  source, which it does not expect.  The library theories \<open>Code_Target_*\<close> give the code equations
  on binary numerals that \<open>code_simp\<close> rewrites with.
\<close>

section \<open>Calls survive the optimizer unchanged\<close>

lemma folded_calls: "set (call_nodes (plan_nodes (fst (constant_folding p)))) \<subseteq> set (call_nodes (plan_nodes p))"
proof -
  have "fst (fold_node n) = n" if "node_op (fst (fold_node n)) = Call" for n
    using that by (auto simp: fold_node_def split: if_splits option.splits arg_value.splits)
  moreover have "node_op (fst (fold_node n)) = node_op n" for n
    by (auto simp: fold_node_def split: option.split arg_value.split)
  ultimately show ?thesis by (fastforce simp: constant_folding_def call_nodes_def Let_def)
qed

lemma folded_ids: "map node_id (plan_nodes (fst (constant_folding p))) = map node_id (plan_nodes p)"
proof -
  have "node_id (fst (fold_node n)) = node_id n" for n
    by (auto simp: fold_node_def split: option.split arg_value.split)
  then show ?thesis by (simp add: constant_folding_def Let_def)
qed

lemma live_nodes_filter:
  "plan_nodes (fst (dead_node_elimination p)) = filter (live_node p) (plan_nodes p)"
  by (simp add: dead_node_elimination_def Let_def)

lemma fused_calls:
  assumes "distinct (map node_id (plan_nodes p))"
  shows "call_nodes (plan_nodes (fst (calc_fusion p))) = call_nodes (plan_nodes p)"
proof -
  obtain ns k where l: "fusion_loop (plan_edges p) (plan_nodes p) 0 = (ns, k)" by fastforce
  have c: "call_nodes ms = filter (\<lambda>n. node_op n = Call) (others ms)" for ms
    by (simp add: call_nodes_def others_def) (metis (mono_tags, lifting) opcode.distinct)
  from fusion_loop_keeps [OF assms l] have "others ns = others (plan_nodes p)" by blast
  then show ?thesis by (simp add: calc_fusion_def l c)
qed

lemma merged_calls: "set (call_nodes (plan_nodes (fst (multi_branch_fusion p)))) \<subseteq> set (call_nodes (plan_nodes p))"
  by (auto simp: multi_branch_fusion_def call_nodes_def Let_def)

lemma optimized_calls:
  assumes "distinct (map node_id (plan_nodes p))" "optimize_all p = (p', opts)"
  shows "set (call_nodes (plan_nodes p')) \<subseteq> set (call_nodes (plan_nodes p))"
proof -
  let ?p1 = "fst (constant_folding p)"
  let ?p2 = "fst (dead_node_elimination ?p1)"
  let ?p3 = "fst (calc_fusion ?p2)"
  have "p' = fst (multi_branch_fusion ?p3)"
    using assms(2) by (simp add: optimize_all_def Let_def case_prod_unfold)
  then have "set (call_nodes (plan_nodes p')) \<subseteq> set (call_nodes (plan_nodes ?p3))" using merged_calls by simp
  moreover have "distinct (map node_id (plan_nodes ?p2))"
    using assms(1) by (simp add: live_nodes_filter distinct_map_filter folded_ids)
  then have "call_nodes (plan_nodes ?p3) = call_nodes (plan_nodes ?p2)" by (rule fused_calls)
  moreover have "set (call_nodes (plan_nodes ?p2)) \<subseteq> set (call_nodes (plan_nodes ?p1))"
    by (auto simp: live_nodes_filter call_nodes_def)
  ultimately show ?thesis using folded_calls [of p] by (metis subset_trans)
qed

section \<open>Targets keep their quotes\<close>

lemma occurs_function_body:
  "SFunctionDef i name ps ss d r \<in> set body \<Longrightarrow> occurs_stmt s ss \<Longrightarrow> occurs_stmt s body"
  by (rule nested [of s "SFunctionDef i name ps ss d r"]) auto

lemma transformed_targets:
  assumes "transform fe code = Inr p"
  shows "distinct (map node_id (plan_nodes p)) \<and> (\<forall>n \<in> set (plan_nodes p). quoted_target n)"
proof -
  from assms have "sanitize fe code = Inr ()" by (auto simp: transform_def bind_res_Inr)
  then obtain body where b: "fe_parse fe code = Module body" "clean_body (fe_location fe code) body"
    "\<And>i name ps b ds r. SFunctionDef i name ps b ds r \<in> set body \<Longrightarrow> meta_free b"
    by (rule sanitized_module) blast
  from assms b(1) obtain t where t: "transform_module fe (fe_location fe code) body transformer_new = Inr t"
    "p = transformer_build t"
    by (auto simp: transform_def bind_res_Inr)
  have "fine ss" if f: "SFunctionDef i name ps ss d r \<in> set body" for i name ps ss d r
    unfolding fine_def fine_stmt_def fine_expr_def
    using clean_body_restricted [OF b(2) occurs_function_body [OF f]] b(3) [OF f]
    by (auto simp: meta_free_def)
  then have "good False True {} t" by (intro good_module [OF t(1)]) simp_all
  then show ?thesis
    by (simp add: t(2) good_def fresh_ids_distinct transformer_build_def execution_plan_new_def Let_def)
qed

lemma quoted_not_subgraph: "quoted_target n \<Longrightarrow> node_op n = Call \<Longrightarrow> subgraph_dep_target n = None"
  by (auto simp: quoted_target_def subgraph_dep_target_def starts_with_def)

lemma quoted_tool_name:
  "tool_of_target (dquote # s) = (name, version) \<Longrightarrow> \<exists>r. name = dquote # r"
proof -
  have t: "trim_start_matches ''tool:'' (dquote # s) = dquote # s"
    by (subst trim_start_matches.simps) (simp add: starts_with_def)
  have "find_str ''@'' (dquote # s) = Some k \<Longrightarrow> \<exists>j. k = Suc j" for k
    by (auto simp: starts_with_def)
  then show "tool_of_target (dquote # s) = (name, version) \<Longrightarrow> \<exists>r. name = dquote # r"
    by (auto simp: tool_of_target_def t Let_def split: option.splits)
qed

lemma quoted_tool_dep:
  assumes "quoted_target n" "node_op n = Call" "tool_dep_of hashes n = Some d"
    and "\<forall>(k, h) \<in> set hashes. \<not> starts_with k [dquote]"
  shows "dep_schema_hash d = []"
proof -
  from assms(1,2) obtain s where s: "plan_arg n ''target'' = Some (AString (dquote # s))"
    by (auto simp: quoted_target_def)
  obtain name version where t: "tool_of_target (dquote # s) = (name, version)" by fastforce
  from quoted_tool_name [OF t] obtain r where r: "name = dquote # r" ..
  have "map_of hashes name = None"
    using assms(4) by (fastforce simp: map_of_eq_None_iff r starts_with_def)
  with assms(3) show ?thesis by (auto simp: tool_dep_of_def s t starts_with_def)
qed

text \<open>C38: the code generator does not recognise the targets of calls in programs, because they arrive
  in the quotes of their literals.  Whatever the program is, its compiled plan has no subgraph
  dependency; and when the registry's names do not start with a quote, no dependency has a schema
  hash, so the executor never detects a changed schema, whatever node and target it looks at.\<close>

theorem drift_never_detected:
  assumes "transform fe code = Inr p"
    and "codegen_with_schema_hashes io enc bytes hashes p = Inr out"
    and "\<forall>(k, h) \<in> set hashes. \<not> starts_with k [dquote]"
    and "e_plan ex = co_compiled out"
  shows "cm_subgraph_dependencies (cp_metadata (co_compiled out)) = [] \<and> schema_drift ex n target st = None"
proof -
  obtain p1 opts where o': "optimize_all p = (p1, opts)" by fastforce
  from transformed_targets [OF assms(1)] optimized_calls [OF _ o']
  have q: "node_op n = Call \<and> quoted_target n" if "n \<in> set (call_nodes (plan_nodes p1))" for n
    using that by (auto simp: call_nodes_def)
  have c: "co_compiled out = from_execution_plan (cg_json io) (compiled_plan_metadata io hashes opts p1) opts"
    using assms(2) by (auto simp: codegen_with_schema_hashes_def o' Let_def split: sum.splits)
  have "subgraph_deps (plan_nodes p1) = []"
    using q by (auto simp: subgraph_deps_def List.map_filter_def quoted_not_subgraph filter_empty_conv)
  then have s: "cm_subgraph_dependencies (cp_metadata (co_compiled out)) = []"
    by (simp add: c from_execution_plan_def compiled_plan_metadata_def Let_def case_prod_unfold)
  have "dep_schema_hash d = []" if "d \<in> set (cm_tool_deps (cp_metadata (co_compiled out)))" for d
  proof -
    from that obtain n where "n \<in> set (call_nodes (plan_nodes p1))" "tool_dep_of hashes n = Some d"
      by (auto simp: c from_execution_plan_def compiled_plan_metadata_def Let_def case_prod_unfold
          collect_tool_deps_def List.map_filter_def)
    then show ?thesis using quoted_tool_dep [OF _ _ _ assms(3)] q by blast
  qed
  then have "find (\<lambda>d. dep_name d = tool \<and> dep_schema_hash d \<noteq> [])
      (cm_tool_deps (cp_metadata (e_plan ex))) = None" for tool
    by (auto simp: find_None_iff assms(4))
  with s show ?thesis by (simp add: schema_drift_def Let_def)
qed

text \<open>\<open>return call("tool:db", id=a)\<close>, and a registry that knows the tool\<close>

definition calling :: "stmt list" where
  "calling = [graph_def [''a''] [SReturn 0 (Some (ECall 0 (EName 0 ''call'')
     [EConstant 0 (CStr ''tool:db'')] [Keyword (Some ''id'') (EName 0 ''a'')]))]]"

definition fixed_io :: codegen_io where
  "fixed_io = \<lparr>cg_now = 0, cg_json = (\<lambda>_. [])\<rparr>"

lemma calling_compiles:
  "case transform (fixed_frontend calling) [] of
     Inl _ \<Rightarrow> False
   | Inr p \<Rightarrow>
       (case codegen_with_schema_hashes fixed_io (\<lambda>_. ()) (\<lambda>_. 0) [(''db'', ''v1'')] p of
          Inl _ \<Rightarrow> False
        | Inr out \<Rightarrow> map dep_name (cm_tool_deps (cp_metadata (co_compiled out))) = [dquote # ''tool:db'' @ [dquote]])"
  by code_simp

theorem drift_never_detected_witness:
  "\<exists>p out. transform (fixed_frontend calling) [] = Inr p \<and>
     codegen_with_schema_hashes fixed_io (\<lambda>_. ()) (\<lambda>_. 0) [(''db'', ''v1'')] p = Inr out \<and>
     (\<forall>n st. schema_drift (make_executor (co_compiled out) (demo_world\<lparr>w_schema_hash := \<lambda>_ _. Inr ''v2''\<rparr>) [])
       n ''tool:db'' st = None)"
proof -
  from calling_compiles obtain p out where p: "transform (fixed_frontend calling) [] = Inr p"
    "codegen_with_schema_hashes fixed_io (\<lambda>_. ()) (\<lambda>_. 0) [(''db'', ''v1'')] p = Inr out"
    by (auto split: sum.splits)
  have "e_plan (make_executor (co_compiled out) w []) = co_compiled out" for w by (simp add: make_executor_def)
  with drift_never_detected [OF p] p show ?thesis by (fastforce simp: starts_with_def)
qed

section \<open>What a successful compilation guarantees\<close>

lemma compiled_ids: "map cn_id (cp_nodes (from_execution_plan aj p opts)) = map node_id (plan_nodes p)"
proof (rule nth_equalityI)
  show l: "length (map cn_id (cp_nodes (from_execution_plan aj p opts))) = length (map node_id (plan_nodes p))"
    by (simp add: from_execution_plan_def Let_def case_prod_unfold)
  fix k
  assume "k < length (map cn_id (cp_nodes (from_execution_plan aj p opts)))"
  with l have "k < length (plan_nodes p)" by simp
  from compile_nodes_nth [OF this, of aj 0 "([], [])"] this
  show "map cn_id (cp_nodes (from_execution_plan aj p opts)) ! k = map node_id (plan_nodes p) ! k"
    by (simp add: from_execution_plan_def Let_def case_prod_unfold)
qed

lemma subseq_distinct: "subseq xs ys \<Longrightarrow> distinct ys \<Longrightarrow> distinct xs"
  by (induction rule: list_emb.induct) (auto dest: list_emb_set)

lemma subseq_set: "subseq xs ys \<Longrightarrow> set xs \<subseteq> set ys"
  by (induction rule: list_emb.induct) auto

lemma optimized_ids:
  assumes "distinct (map node_id (plan_nodes p))" "optimize_all p = (p', opts)"
  shows "distinct (map node_id (plan_nodes p')) \<and> node_id ` set (plan_nodes p') \<subseteq> node_id ` set (plan_nodes p)"
proof -
  let ?p1 = "fst (constant_folding p)"
  let ?p2 = "fst (dead_node_elimination ?p1)"
  let ?p3 = "fst (calc_fusion ?p2)"
  have p': "p' = fst (multi_branch_fusion ?p3)"
    using assms(2) by (simp add: optimize_all_def Let_def case_prod_unfold)
  have d: "distinct (map node_id (plan_nodes ?p2))"
    using assms(1) by (simp add: live_nodes_filter distinct_map_filter folded_ids)
  obtain ns k where l: "fusion_loop (plan_edges ?p2) (plan_nodes ?p2) 0 = (ns, k)" by fastforce
  with fusion_loop_keeps [OF d l] have s: "subseq (map node_id (plan_nodes ?p3)) (map node_id (plan_nodes ?p2))"
    by (simp add: calc_fusion_def)
  have "subseq (map node_id (plan_nodes p')) (map node_id (plan_nodes ?p3))"
    unfolding p' by (auto simp: multi_branch_fusion_def Let_def intro: subseq_map)
  from subseq_order.trans [OF this s] have s: "subseq (map node_id (plan_nodes p')) (map node_id (plan_nodes ?p2))" .
  moreover have "set (map node_id (plan_nodes ?p2)) \<subseteq> set (map node_id (plan_nodes p))"
    using folded_ids [of p, THEN arg_cong [of _ _ set]] by (auto simp: live_nodes_filter)
  ultimately show ?thesis using subseq_distinct [OF s d] subseq_set [OF s] by auto
qed

text \<open>C39: when \<open>compile\<close> succeeds the code was translated to a plan that passed the validator; the nodes
  of the compiled plan are among those of that plan, with pairwise different ids; the reported
  execution order lists each of them exactly once; the recorded node count is theirs; and the binary
  is the encoding of the compiled plan.\<close>

theorem compile_success:
  assumes "compile fe io enc bytes code = Inr out"
  shows "\<exists>p. transform fe code = Inr p \<and> validate p = Inr () \<and>
    set (map cn_id (cp_nodes (co_compiled out))) \<subseteq> node_id ` set (plan_nodes p) \<and>
    distinct (map cn_id (cp_nodes (co_compiled out))) \<and>
    mset (co_order out) = mset (map cn_id (cp_nodes (co_compiled out))) \<and>
    cm_node_count (cp_metadata (co_compiled out)) = length (cp_nodes (co_compiled out)) mod u32_modulus \<and>
    co_binary out = to_fb_bytes enc (co_compiled out) \<and> co_size out = bytes (co_binary out)"
proof -
  from assms obtain p where p: "transform fe code = Inr p" "validate p = Inr ()" "codegen io enc bytes p = Inr out"
    by (auto simp: compile_def split: sum.splits)
  obtain p1 opts where o': "optimize_all p = (p1, opts)" by fastforce
  let ?q = "compiled_plan_metadata io [] opts p1"
  from p(3) o' obtain ord where ord: "plan_topological_order ?q = Inr ord"
    and out: "co_compiled out = from_execution_plan (cg_json io) ?q opts" "co_order out = map node_id ord"
      "co_binary out = to_fb_bytes enc (co_compiled out)" "co_size out = bytes (co_binary out)"
    by (auto simp: codegen_def codegen_with_schema_hashes_def Let_def split: sum.splits)
  from transformed_targets [OF p(1)] optimized_ids [OF _ o']
  have d: "distinct (map node_id (plan_nodes p1))" "node_id ` set (plan_nodes p1) \<subseteq> node_id ` set (plan_nodes p)"
    by blast+
  have n: "plan_nodes ?q = plan_nodes p1" by (simp add: compiled_plan_metadata_def)
  have "topo_order (node_id ` set (plan_nodes p1)) (id_pairs (plan_edges ?q)) (map node_id ord)"
    using order_ids_correct(2) [of "plan_nodes p1" "plan_edges ?q" ord] d(1) ord
    by (simp add: plan_topological_order_def plan_get_node n)
  then have "distinct (map node_id ord)" "set (map node_id ord) = set (map node_id (plan_nodes p1))"
    by (simp_all add: topo_order_def)
  then have "mset (map node_id ord) = mset (map node_id (plan_nodes p1))"
    using d(1) by (metis mset_set_set)
  moreover have "map cn_id (cp_nodes (co_compiled out)) = map node_id (plan_nodes p1)"
    by (simp add: out(1) compiled_ids n)
  ultimately have ms: "mset (co_order out) = mset (map cn_id (cp_nodes (co_compiled out)))"
    and ids: "map cn_id (cp_nodes (co_compiled out)) = map node_id (plan_nodes p1)" by (simp_all add: out(2))
  from ids have "length (cp_nodes (co_compiled out)) = length (plan_nodes p1)"
    by (metis length_map)
  moreover have "cm_node_count (cp_metadata (co_compiled out)) = length (plan_nodes p1) mod u32_modulus"
    by (simp add: out(1) from_execution_plan_def compiled_plan_metadata_def Let_def case_prod_unfold)
  ultimately show ?thesis using p(1,2) d out(3,4) ms ids by (auto simp del: mset_map)
qed

theorem compile_success_witness:
  "\<exists>out. compile (fixed_frontend calling) fixed_io (\<lambda>_. ()) (\<lambda>_. 0) [] = Inr out \<and>
     distinct (map cn_id (cp_nodes (co_compiled out))) \<and> length (co_order out) = 5"
proof -
  have "case compile (fixed_frontend calling) fixed_io (\<lambda>_. ()) (\<lambda>_. 0) [] of
      Inl _ \<Rightarrow> False | Inr out \<Rightarrow> length (co_order out) = 5" by code_simp
  then obtain out where out: "compile (fixed_frontend calling) fixed_io (\<lambda>_. ()) (\<lambda>_. 0) [] = Inr out"
    "length (co_order out) = 5" by (auto split: sum.splits)
  with compile_success [OF out(1)] show ?thesis by blast
qed

end
