(* ===== verification/Folding.thy ===== *)
theory Folding
  imports Optimizer
begin

text \<open>
  Constant folding agrees with the evaluator of the virtual machine: whatever
  \<open>eval_simple_int_expr\<close> (\<open>backend/optimize.rs\<close>) computes at compile time is what
  \<open>eval_expression\<close> (\<open>compiled_executor.rs\<close>) computes at run time, in every context whose
  variable names have a letter.
\<close>

section \<open>The characters of a foldable expression\<close>

definition ws_byte :: "char \<Rightarrow> bool" where
  "ws_byte c \<longleftrightarrow> (let n = (of_char c :: nat) in n = 32 \<or> (9 \<le> n \<and> n \<le> 13) \<or> 128 \<le> n)"

definition plain_char :: "char \<Rightarrow> bool" where
  "plain_char c \<longleftrightarrow> is_digit c \<or> c \<in> set arith_ops \<or> ws_byte c"

definition plain :: "string \<Rightarrow> bool" where
  "plain s \<longleftrightarrow> (\<forall>c \<in> set s. plain_char c)"

lemma plain_append [simp]: "plain (s @ t) \<longleftrightarrow> plain s \<and> plain t"
  by (auto simp: plain_def)

lemma plain_Cons [simp]: "plain (c # s) \<longleftrightarrow> plain_char c \<and> plain s"
  by (simp add: plain_def)

lemma plain_Nil [simp]: "plain []"
  by (simp add: plain_def)

lemma not_plain_chars:
  "\<not> plain_char CHR ''.''" "\<not> plain_char CHR ''(''" "\<not> plain_char CHR ''[''" "\<not> plain_char CHR ''{''"
  "\<not> plain_char CHR ''<''" "\<not> plain_char CHR ''>''" "\<not> plain_char CHR ''=''" "\<not> plain_char CHR ''!''"
  "\<not> plain_char CHR ''$''" "\<not> plain_char dquote" "\<not> plain_char squote" "\<not> plain_char CHR ''r''"
  "\<not> plain_char CHR ''l''" "\<not> plain_char CHR ''n''" "\<not> plain_char CHR ''t''" "\<not> plain_char CHR ''T''"
  "\<not> plain_char CHR ''f''" "\<not> plain_char CHR ''F''" "\<not> plain_char CHR ''N''" "\<not> plain_char CHR ''e''"
  "\<not> plain_char CHR ''E''" "\<not> plain_char CHR ''i''" "\<not> plain_char CHR ''I''"
  by (simp_all add: plain_char_def ws_byte_def is_digit_def arith_ops_def Let_def)

lemma ws_byte_plain: "ws_byte c \<Longrightarrow> plain_char c"
  by (simp add: plain_char_def)

lemma digit_plain: "is_digit c \<Longrightarrow> plain_char c"
  by (simp add: plain_char_def)

lemma ws_len_cases:
  "ws_len (c # cs) = 0 \<or> ws_len (c # cs) = 1 \<and> ws_byte c \<or>
   (\<exists>d ds. cs = d # ds \<and> ws_len (c # cs) = 2 \<and> ws_byte c \<and> ws_byte d) \<or>
   (\<exists>d e es. cs = d # e # es \<and> ws_len (c # cs) = 3 \<and> ws_byte c \<and> ws_byte d \<and> ws_byte e)"
proof (cases "(of_char c :: nat) < 128")
  case True
  then show ?thesis by (simp add: Let_def ws_byte_def)
next
  case False
  then have c: "ws_byte c" by (simp add: ws_byte_def)
  show ?thesis
  proof (cases cs)
    case Nil
    with False show ?thesis by (simp add: Let_def)
  next
    case (Cons d ds)
    show ?thesis
    proof (cases ds)
      case Nil
      with False Cons c show ?thesis by (auto simp: Let_def ws_byte_def)
    next
      case (Cons e es)
      let ?n = "of_char c :: nat" and ?a = "of_char d :: nat" and ?b = "of_char e :: nat"
      let ?two = "?n = 194 \<and> (?a = 133 \<or> ?a = 160)"
      let ?three = "?n = 225 \<and> ?a = 154 \<and> ?b = 128
        \<or> ?n = 226 \<and> ?a = 128 \<and> (128 \<le> ?b \<and> ?b \<le> 138 \<or> ?b = 168 \<or> ?b = 169 \<or> ?b = 175)
        \<or> ?n = 226 \<and> ?a = 129 \<and> ?b = 159 \<or> ?n = 227 \<and> ?a = 128 \<and> ?b = 128"
      from False \<open>cs = d # ds\<close> Cons have l: "ws_len (c # cs) = (if ?two then 2 else if ?three then 3 else 0)"
        by (simp add: Let_def)
      have two: "?two \<Longrightarrow> 128 \<le> ?a" by auto
      have three: "?three \<Longrightarrow> 128 \<le> ?a \<and> 128 \<le> ?b" by auto
      consider ?two | "\<not> ?two" ?three | "\<not> ?two" "\<not> ?three" by argo
      then show ?thesis
      proof cases
        case 1
        with two l \<open>cs = d # ds\<close> c show ?thesis by (simp add: ws_byte_def del: ws_len.simps)
      next
        case 2
        with three l \<open>cs = d # ds\<close> Cons c show ?thesis
          by (simp only: if_P if_not_P) (simp add: ws_byte_def del: ws_len.simps)
      next
        case 3
        with l have "ws_len (c # cs) = 0" by (simp only: if_not_P if_False)
        then show ?thesis ..
      qed
    qed
  qed
qed

lemma ws_len_bytes: "\<forall>c \<in> set (take (ws_len s) s). ws_byte c"
proof (cases s)
  case (Cons c cs)
  with ws_len_cases [of c cs] show ?thesis by (elim disjE exE conjE) (simp_all del: ws_len.simps add: numeral_2_eq_2 numeral_3_eq_3)
qed simp

lemma ws_len_rev_bytes: "\<forall>c \<in> set (take (ws_len_rev r) r). ws_byte c"
proof -
  have "\<forall>c \<in> set (take n r). ws_byte c" if "n \<le> length r" "ws_len (rev (take n r)) = n" for n
    using ws_len_bytes [of "rev (take n r)"] that by simp
  from this [of 1] this [of 2] this [of 3] show ?thesis
    by (cases r) (auto simp: ws_len_rev_def)
qed

lemma trim_front_bytes:
  assumes "\<And>s. \<forall>c \<in> set (take (w s) s). ws_byte c"
  shows "plain (trim_front w s) \<Longrightarrow> plain s"
  using assms
proof (induction w s rule: trim_front.induct)
  case (1 w s)
  show ?case
  proof (cases "0 < w s \<and> s \<noteq> []")
    case True
    with 1 have "plain (drop (w s) s)" by (simp add: trim_front.simps [of w s])
    moreover have "plain (take (w s) s)"
      using "1.prems"(2) [of s] ws_byte_plain by (auto simp: plain_def)
    ultimately show ?thesis by (metis append_take_drop_id plain_append)
  next
    case False
    with 1 show ?thesis by (auto simp: trim_front.simps [of w s])
  qed
qed

lemma plain_rev [simp]: "plain (rev s) = plain s"
  by (simp add: plain_def)

lemma plain_trim: "plain (trim s) \<Longrightarrow> plain s"
  using trim_front_bytes [OF ws_len_bytes, of s] trim_front_bytes [OF ws_len_rev_bytes]
  by (metis plain_rev trim_def trim_end_def trim_start_def)

section \<open>Numbers read from such texts\<close>

lemma digits_val_Some: "digits_val a s = Some n \<Longrightarrow> \<forall>c \<in> set s. is_digit c"
  by (induction s arbitrary: a) (auto split: if_splits)

lemma parse_nat_digits: "parse_nat s = Some n \<Longrightarrow> \<forall>c \<in> set s. is_digit c"
  by (auto simp: parse_nat_def digits_val_Some split: if_splits)

lemma sign_plain [simp]: "plain_char CHR ''+''" "plain_char CHR ''-''"
  by (simp_all add: plain_char_def arith_ops_def)

lemma parse_i64_plain: "parse_i64 s = Some n \<Longrightarrow> plain s"
  by (auto simp: parse_i64_def plain_def bind_eq_Some_conv digit_plain dest!: parse_nat_digits
      split: list.splits if_splits)

lemma parse_unsigned_tail: "parse_unsigned b s = Some n \<Longrightarrow> \<forall>c \<in> set (tl s). is_digit c"
  by (auto simp: parse_unsigned_def bind_eq_Some_conv dest!: parse_nat_digits
      split: list.splits if_splits)

lemma f64_number_digits:
  assumes "f64_parse_number neg s = Some f" "plain s"
  shows "\<forall>c \<in> set s. is_digit c"
proof (cases "dropWhile is_digit s")
  case Nil
  then show ?thesis by (metis dropWhile_eq_Nil_conv)
next
  case (Cons c cs)
  then have "c \<in> set s" by (metis list.set_intros(1) set_dropWhileD)
  with assms(2) have "plain_char c" by (simp add: plain_def)
  then have "c \<noteq> CHR ''.''" "c \<noteq> CHR ''e''" "c \<noteq> CHR ''E''" using not_plain_chars by auto
  with assms(1) Cons show ?thesis
    by (simp add: f64_parse_number_def parse_exponent_def split: option.splits)
qed

lemma ascii_lower_plain:
  assumes "plain_char c"
  shows "ascii_lower c = c"
proof -
  from assms have "\<not> (65 \<le> (of_char c :: nat) \<and> (of_char c :: nat) \<le> 90)"
    by (auto simp: plain_char_def is_digit_def ws_byte_def arith_ops_def Let_def)
  then show ?thesis by (auto simp: ascii_lower_def Let_def)
qed

lemma plain_not_word:
  assumes "plain s" "\<not> plain_char c" "c \<in> set t"
  shows "map ascii_lower s \<noteq> t"
proof -
  from assms(1) have "map ascii_lower s = s" by (induction s) (simp_all add: ascii_lower_plain)
  with assms show ?thesis by (auto simp: plain_def)
qed

lemma f64_parse_tail:
  assumes "f64_parse s = Some f" "plain s"
  shows "\<forall>c \<in> set (tl s). is_digit c"
proof (cases s)
  case (Cons c cs)
  define b where "b = (if c = CHR ''-'' \<or> c = CHR ''+'' then cs else s)"
  from assms(2) Cons have p: "plain b" by (simp add: b_def)
  have w: "map ascii_lower b \<noteq> ''inf''" "map ascii_lower b \<noteq> ''infinity''" "map ascii_lower b \<noteq> ''nan''"
    using plain_not_word [OF p, of "CHR ''n''"] not_plain_chars by simp_all
  from assms(1) Cons have "(if map ascii_lower b = ''inf'' \<or> map ascii_lower b = ''infinity''
      then Some (FInf (c = CHR ''-'')) else if map ascii_lower b = ''nan'' then Some FNaN
      else f64_parse_number (c = CHR ''-'') b) = Some f"
    by (simp only: f64_parse_def Let_def list.case b_def)
  with w have "f64_parse_number (c = CHR ''-'') b = Some f" by (simp only: if_False simp_thms)
  from f64_number_digits [OF this p] Cons show ?thesis by (auto simp: b_def split: if_splits)
qed simp

section \<open>Simple arithmetic\<close>

definition names_have_letters :: "tp_context \<Rightarrow> bool" where
  "names_have_letters ctx \<longleftrightarrow> (\<forall>k. ctx_get ctx k \<noteq> None \<longrightarrow> (\<exists>c \<in> set k. is_ascii_alphabetic c))"

definition json_strings_quoted :: "(string \<Rightarrow> string option) \<Rightarrow> bool" where
  "json_strings_quoted jd \<longleftrightarrow> (\<forall>s. jd s \<noteq> None \<longrightarrow> starts_with s [dquote])"

lemma plain_no_letter: "plain_char c \<Longrightarrow> \<not> is_ascii_alphabetic c"
  by (auto simp: plain_char_def is_digit_def ws_byte_def arith_ops_def is_ascii_alphabetic_def Let_def)

lemma plain_not_bound: "names_have_letters ctx \<Longrightarrow> plain s \<Longrightarrow> ctx_get ctx s = None"
  by (cases "ctx_get ctx s") (auto simp: names_have_letters_def plain_def dest: plain_no_letter)

lemma starts_with_mem: "starts_with s (c # p) \<Longrightarrow> c \<in> set s"
  by (auto simp: starts_with_prefix prefix_def)

lemma plain_starts: "plain s \<Longrightarrow> \<not> plain_char c \<Longrightarrow> \<not> starts_with s (c # p)"
  using starts_with_mem [of s c p] by (auto simp: plain_def)

lemma find_str_char: "find_str (c # p) s = Some i \<Longrightarrow> c \<in> set s"
  using find_str_Some [of "c # p" s i] starts_with_mem [of "drop i s" c p] by (auto dest: in_set_dropD)

lemma plain_find: "plain s \<Longrightarrow> \<not> plain_char c \<Longrightarrow> find_str (c # p) s = None"
  using find_str_char [of c p s] by (cases "find_str (c # p) s") (auto simp: plain_def)

lemma find_char_nth: "find_str [c] s = Some i \<Longrightarrow> i < length s \<and> s ! i = c"
  using find_str_Some [of "[c]" s i] by (auto simp: starts_with_prefix prefix_def dest: arg_cong [of _ _ hd] simp flip: hd_drop_conv_nth)

lemma find_char_split: "find_str [c] s = Some i \<Longrightarrow> s = take i s @ c # drop (Suc i) s"
  using find_char_nth [of c s i] by (metis id_take_nth_drop)

lemma resolve_plain:
  assumes "names_have_letters ctx" "plain key"
  shows "resolve_numeric rec ctx key = parse_i64 key"
  using plain_not_bound [OF assms] plain_find [OF assms(2)] not_plain_chars
  by (simp add: resolve_numeric_def contains_def split: option.split)

lemma trim_front_suffix: "\<exists>k. trim_front w s = drop k s"
proof (induction w s rule: trim_front.induct)
  case (1 w s)
  show ?case
  proof (cases "0 < w s \<and> s \<noteq> []")
    case True
    with 1 show ?thesis by (auto simp: trim_front.simps [of w s])
  next
    case False
    then show ?thesis by (metis drop0 trim_front.simps)
  qed
qed

lemma set_trim_front: "set (trim_front w s) \<subseteq> set s"
  using trim_front_suffix [of w s] by (auto dest: in_set_dropD)

lemma plain_trim_iff [simp]: "plain (trim s) = plain s"
proof
  have "set (trim s) \<subseteq> set s"
    unfolding trim_def trim_end_def trim_start_def
    using set_trim_front [of ws_len_rev "rev (trim_front ws_len s)"] set_trim_front [of ws_len s] by auto
  then show "plain s \<Longrightarrow> plain (trim s)" by (auto simp: plain_def)
qed (rule plain_trim)

lemma simple_ops_plain:
  assumes "simple_ops e ops = Some r" "set ops \<subseteq> set arith_ops"
  shows "plain e \<and> (\<exists>c \<in> set (tl e). \<not> is_digit c) \<and> in_i64 r"
  using assms
proof (induction ops)
  case (Cons op ops)
  show ?case
  proof (cases "simple_ops e ops = Some r")
    case False
    with Cons.prems(1) obtain pos a b where f: "find_str [op] e = Some pos" "pos \<noteq> 0"
      and ab: "parse_i64 (trim (take pos e)) = Some a" "parse_i64 (trim (drop (Suc pos) e)) = Some b"
      and r: "arith_op op a b = Some r"
      by (auto split: option.splits if_splits)
    have "plain_char op" using Cons.prems(2) by (simp add: plain_char_def)
    with parse_i64_plain [OF ab(1)] parse_i64_plain [OF ab(2)] have "plain e"
      by (subst find_char_split [OF f(1)]) simp
    moreover have "op \<in> set (tl e)" using find_char_nth [OF f(1)] f(2)
      by (cases e) (auto simp: nth_Cons split: nat.splits)
    moreover have "\<not> is_digit op" using Cons.prems(2) by (auto simp: arith_ops_def is_digit_def)
    moreover have "in_i64 r" using r by (auto simp: arith_op_def checked_i64_def split: if_splits)
    ultimately show ?thesis by blast
  next
    case True
    with Cons show ?thesis by auto
  qed
qed simp

lemma eval_arith_simple:
  assumes "names_have_letters ctx" "plain e" "simple_ops e ops = Some r"
  shows "eval_arith rec ctx e ops = Some (Inr (VInt r))"
proof -
  have "plain (take k e)" "plain (drop k e)" for k
    using assms(2) by (metis append_take_drop_id plain_append)+
  with assms(3) resolve_plain [OF assms(1)] show ?thesis
    by (induction ops) (auto split: option.splits if_splits)
qed

section \<open>The evaluator on foldable expressions\<close>

lemma trim_end_stop: "ws_len_rev (rev (trim s)) = 0 \<or> trim s = []"
  using trim_front_stop [of ws_len_rev "rev (trim_start s)"] by (auto simp: trim_def trim_end_def)

lemma eval_simple_plain:
  assumes "eval_simple_int_expr e = Some r"
  shows "plain e \<and> trim e \<noteq> [] \<and> in_i64 r"
proof (cases "parse_i64 (trim e)")
  case None
  with assms have "trim e \<noteq> []" "simple_ops (trim e) arith_ops = Some r"
    by (simp_all add: eval_simple_int_expr_def Let_def split: if_splits)
  with simple_ops_plain [of "trim e" arith_ops r] show ?thesis by simp
next
  case (Some n)
  with assms have "trim e \<noteq> []" "n = r" by (simp_all add: eval_simple_int_expr_def Let_def split: if_splits)
  with Some parse_i64_plain [OF Some] parse_i64_in_range [OF Some] show ?thesis by simp
qed

lemma plain_sections:
  assumes "plain e"
  shows "eval_range rec e = None" "eval_len rec q e = None" "eval_constant e = None"
    "eval_dict rec e e' = None" "eval_not rec e = None" "eval_cmp rec e cmp_ops = None"
proof -
  note st = plain_starts [OF assms] and fd = plain_find [OF assms]
  show "eval_range rec e = None" by (simp add: eval_range_def st not_plain_chars)
  show "eval_len rec q e = None" by (simp add: eval_len_def st not_plain_chars)
  show "eval_dict rec e e' = None" by (simp add: eval_dict_def st not_plain_chars)
  show "eval_not rec e = None" by (simp add: eval_not_def st not_plain_chars)
  show "eval_cmp rec e cmp_ops = None" by (simp add: cmp_ops_def fd not_plain_chars)
  have "e \<noteq> ''true''" "e \<noteq> ''True''" "e \<noteq> ''false''" "e \<noteq> ''False''" "e \<noteq> ''null''" "e \<noteq> ''None''"
    using assms not_plain_chars by auto
  then show "eval_constant e = None" by (simp add: eval_constant_def)
qed

lemma plain_decode: "json_strings_quoted jd \<Longrightarrow> plain e \<Longrightarrow> eval_decode jd e = (e, False)"
  using plain_starts [of e dquote "[]"] plain_starts [of e squote "[]"] not_plain_chars
  by (cases "jd e") (auto simp: eval_decode_def json_strings_quoted_def)

lemma simple_ops_atom:
  assumes "names_have_letters ctx" "plain e" "parse_i64 e = None" "simple_ops e arith_ops = Some r"
  shows "eval_atom ctx outs e = None"
proof -
  from simple_ops_plain [OF assms(4)] obtain c where c: "c \<in> set (tl e)" "\<not> is_digit c" by auto
  have "f64_parse e = None" using f64_parse_tail [of e] assms(2) c by (cases "f64_parse e") auto
  moreover have "parse_u32 e = None"
    using parse_unsigned_tail [of u32_modulus e] c by (cases "parse_u32 e") (auto simp: parse_u32_def)
  moreover have "strip_prefix e ''$'' = None"
    using plain_starts [OF assms(2), of "CHR ''$''" "[]"] not_plain_chars by (simp add: strip_prefix_def)
  ultimately show ?thesis using assms(3) plain_not_bound [OF assms(1,2)] by (simp add: eval_atom_def)
qed

lemma eval_simple:
  assumes "json_strings_quoted jd" "names_have_letters ctx" "eval_simple_int_expr e = Some r"
  shows "eval_expression jd ctx outs e = Inr (VInt r)"
proof -
  let ?t = "trim e"
  from eval_simple_plain [OF assms(3)] have p: "plain ?t" "?t \<noteq> []" by simp_all
  note sections = plain_decode [OF assms(1) p(1)] plain_sections [OF p(1)] p(2)
  show ?thesis
  proof (cases "parse_i64 ?t")
    case None
    with assms(3) have ops: "simple_ops ?t arith_ops = Some r"
      by (simp add: eval_simple_int_expr_def Let_def split: if_splits)
    note eval_arith_simple [OF assms(2) p(1) ops] simple_ops_atom [OF assms(2) p(1) None ops]
    then show ?thesis by (simp add: eval_expression_def eval_step_def sections)
  next
    case (Some n)
    with assms(3) have "n = r" by (simp add: eval_simple_int_expr_def Let_def split: if_splits)
    with Some have "eval_atom ctx outs ?t = Some (Inr (VInt r))" by (simp add: eval_atom_def)
    then show ?thesis by (simp add: eval_expression_def eval_step_def sections)
  qed
qed

lemma digit_not_ws: "is_digit c \<Longrightarrow> \<not> ws_byte c"
  by (auto simp: is_digit_def ws_byte_def Let_def)

lemma minus_not_ws: "\<not> ws_byte CHR ''-''"
  by (simp add: ws_byte_def)

lemma show_int_trim: "trim (show_int i) = show_int i"
proof -
  have ends: "c \<in> set (show_int i) \<Longrightarrow> \<not> ws_byte c" for c
    by (auto simp: show_int_def digit_not_ws [OF show_nat_digits] minus_not_ws split: if_splits)
  have "ws_len (show_int i) = 0"
    using ws_len_bytes [of "show_int i"] ends ws_len_le [of "show_int i"]
    by (cases "show_int i") (force simp: neq0_conv take_Cons' split: if_splits)+
  moreover have "ws_len_rev (rev (show_int i)) = 0"
    using ws_len_rev_bytes [of "rev (show_int i)"] ends ws_len_rev_le [of "rev (show_int i)"]
    by (cases "rev (show_int i)") (force simp: neq0_conv take_Cons' split: if_splits)+
  ultimately show ?thesis by (simp add: trim_def trim_start_def trim_end_def trim_front_id)
qed

lemma eval_simple_show: "in_i64 r \<Longrightarrow> eval_simple_int_expr (show_int r) = Some r"
proof -
  have "show_int r \<noteq> []" by (simp add: show_int_def)
  then show "in_i64 r \<Longrightarrow> ?thesis" by (simp add: eval_simple_int_expr_def show_int_trim parse_i64_show)
qed

section \<open>Constant folding keeps the meaning of the plan\<close>

text \<open>
  A node and its folded version: the same identifier, opcode and other arguments, and an
  expression that evaluates to the same result.
\<close>

definition same_meaning ::
  "(string \<Rightarrow> string option) \<Rightarrow> tp_context \<Rightarrow> tp_value nmap \<Rightarrow> node \<Rightarrow> node \<Rightarrow> bool" where
  "same_meaning jd ctx outs n n' \<longleftrightarrow>
     node_id n' = node_id n \<and> node_op n' = node_op n \<and>
     (\<forall>k. k \<noteq> ''expr'' \<longrightarrow> plan_arg n' k = plan_arg n k) \<and>
     (case (plan_arg n ''expr'', plan_arg n' ''expr'') of
        (Some (AString e), Some (AString e')) \<Rightarrow>
          eval_expression jd ctx outs e' = eval_expression jd ctx outs e
      | (a, a') \<Rightarrow> a' = a)"

lemma same_meaning_refl: "same_meaning jd ctx outs n n"
  by (auto simp: same_meaning_def split: option.splits arg_value.splits)

lemma find_filter_other:
  "k \<noteq> k' \<Longrightarrow> find (\<lambda>a. arg_key a = k) (filter (\<lambda>a. arg_key a \<noteq> k') as) = find (\<lambda>a. arg_key a = k) as"
  by (induction as) auto

lemma fold_node_meaning:
  assumes "json_strings_quoted jd" "names_have_letters ctx"
  shows "same_meaning jd ctx outs n (fst (fold_node n))"
proof (cases "snd (fold_node n)")
  case False
  then have "fst (fold_node n) = n"
    by (auto simp: fold_node_def split: option.splits arg_value.splits if_splits)
  then show ?thesis by (simp add: same_meaning_refl)
next
  case True
  then obtain e r where e: "plan_arg n ''expr'' = Some (AString e)" "eval_simple_int_expr e = Some r"
    and n': "fst (fold_node n) = n\<lparr>node_args := \<lparr>arg_key = ''expr'', arg_val = AString (show_int r)\<rparr> #
        filter (\<lambda>a. arg_key a \<noteq> ''expr'') (node_args n)\<rparr>"
    by (auto simp: fold_node_def split: option.splits arg_value.splits if_splits)
  from eval_simple_plain [OF e(2)] have "eval_simple_int_expr (show_int r) = Some r"
    by (simp add: eval_simple_show)
  from eval_simple [OF assms this] eval_simple [OF assms e(2)]
  have "eval_expression jd ctx outs (show_int r) = eval_expression jd ctx outs e" by simp
  then show ?thesis unfolding same_meaning_def n'
    using e(1) by (auto simp: plan_arg_def find_filter_other)
qed

text \<open>C26: constant folding keeps the edges and every node in its place, with its identifier,
  opcode and other arguments, and the expression it writes evaluates in the virtual machine to what
  the expression it replaces evaluates to, in every context whose variable names have a letter.\<close>

theorem constant_folding_sound:
  assumes "json_strings_quoted jd" "names_have_letters ctx"
  shows "plan_edges (fst (constant_folding p)) = plan_edges p \<and>
    list_all2 (same_meaning jd ctx outs) (plan_nodes p) (plan_nodes (fst (constant_folding p)))"
  using fold_node_meaning [OF assms]
  by (simp add: constant_folding_def Let_def list.rel_map list_all2_refl)

definition calc_node :: "string \<Rightarrow> string \<Rightarrow> string \<Rightarrow> node" where
  "calc_node i out e = with_arg ''expr'' (AString e) (with_arg ''output'' (AString out) (node_new i Calc))"

lemma new_context_names: "names_have_letters context_new"
  by (simp add: names_have_letters_def context_new_def ctx_get_def active_value_def parent_value_def)

lemma plain_json_quoted: "json_strings_quoted plain_json_string"
  by (auto simp: json_strings_quoted_def plain_json_string_def Let_def split: if_splits)

theorem constant_folding_sound_witness:
  "list_all2 (same_meaning plain_json_string context_new [])
     [calc_node ''n'' ''x'' ''3 + 4''] (plan_nodes (fst (constant_folding
       (execution_plan_new [calc_node ''n'' ''x'' ''3 + 4''] [])))) \<and>
   eval_simple_int_expr ''3 + 4'' = Some 7"
  using constant_folding_sound [OF plain_json_quoted new_context_names,
      of "execution_plan_new [calc_node ''n'' ''x'' ''3 + 4''] []" "[]"]
  by (simp add: execution_plan_new_def eval_simple_int_expr_def arith_ops_def arith_op_def string_eval)

section \<open>Fusion does not keep the meaning of the plan\<close>

text \<open>\<open>x = a + 1\<close> and then \<open>y = x * 2\<close>.\<close>

definition fusable_plan :: execution_plan where
  "fusable_plan = execution_plan_new
     [calc_node ''n1'' ''x'' ''a + 1'', calc_node ''n2'' ''y'' ''x * 2''] [edge_new ''n1'' ''n2'']"

lemmas word_eval = extract_variables_def emit_word_def word_char_def is_ascii_alphabetic_def is_digit_def

lemma fusable_variables: "extract_variables ''a + 1'' = [''a'']" "extract_variables ''x * 2'' = [''x'']"
  "extract_variables ''(a + 1) * 2'' = [''a'']"
  by (simp_all add: word_eval)

lemma fused_expression: "replace_var_in_expr ''x * 2'' ''x'' ''a + 1'' = ''(a + 1) * 2''"
  by (simp add: replace_var_in_expr_def replace_scan.simps [of "''x''"] word_eval string_eval)

lemma plan_arg_calc [simp]:
  "plan_arg (calc_node i out e) ''output'' = Some (AString out)"
  "plan_arg (calc_node i out e) ''expr'' = Some (AString e)"
  "node_op (calc_node i out e) = Calc" "node_id (calc_node i out e) = i"
  by (simp_all add: calc_node_def plan_arg_def with_arg_def node_new_def)

lemma set_expr_calc:
  "(calc_node i out e)\<lparr>node_args := set_first_expr (AString e') (node_args (calc_node i out e))\<rparr> =
   calc_node i out e'"
  by (simp add: calc_node_def with_arg_def node_new_def)

lemma fused_nodes: "plan_nodes (fst (calc_fusion fusable_plan)) = [calc_node ''n2'' ''y'' ''(a + 1) * 2'']"
proof -
  let ?a = "calc_node ''n1'' ''x'' ''a + 1''" and ?b = "calc_node ''n2'' ''y'' ''x * 2''"
  let ?c = "calc_node ''n2'' ''y'' ''(a + 1) * 2''" and ?es = "[edge_new ''n1'' ''n2'']"
  have ne: "\<not> is_constant_expression ''a + 1''" "\<not> is_constant_expression ''x * 2''"
    "\<not> is_constant_expression ''(a + 1) * 2''"
    by (simp_all add: is_constant_expression_def is_ascii_alphabetic_def)
  have m: "var_to_node [?a, ?b] = [(''x'', ?a), (''y'', ?b)]" "var_to_node [?c] = [(''y'', ?c)]"
    by (simp_all add: var_to_node_def upd_def)
  have k: "consumer_count [?a, ?b] ?es ''n1'' = 1" "feeds ?es ''n1'' ''n2''"
    by (simp_all add: consumer_count_def kept_edges_def feeds_def edge_new_def)
  have r1: "fuse_nodes [?a, ?b] ?es [?a, ?b] [] = ([?a, ?c], [''n1''], True)"
    by (simp add: fuse_node_def ne fusable_variables inline_var_def m k fused_expression set_expr_calc)
  have r2: "fuse_nodes [?c] ?es [?c] [] = ([?c], [], False)"
    by (simp add: fuse_node_def ne fusable_variables inline_var_def m)
  show ?thesis
    by (simp add: calc_fusion_def fusable_plan_def execution_plan_new_def
        fusion_loop.simps [of _ "[_, _]"] fusion_loop.simps [of _ "[_]"] r1 r2 Let_def
        del: fuse_nodes.simps)
qed

definition int_context :: "string \<Rightarrow> int \<Rightarrow> tp_context" where
  "int_context k i = ctx_set k (VInt i) context_new"

text \<open>C27: fusion of \<open>CALC\<close> nodes changes results.  From \<open>x = a + 1; y = x * 2\<close> it leaves
  the single node \<open>y = (a + 1) * 2\<close>.  With \<open>a = 1\<close> the two nodes compute \<open>2\<close> and then \<open>4\<close>, and the
  expression of the fused node cannot be evaluated.\<close>

theorem calc_fusion_changes_results:
  "plan_nodes (fst (calc_fusion fusable_plan)) = [calc_node ''n2'' ''y'' ''(a + 1) * 2''] \<and>
   eval_expression plain_json_string (int_context ''a'' 1) [] ''a + 1'' = Inr (VInt 2) \<and>
   eval_expression plain_json_string (int_context ''x'' 2) [] ''x * 2'' = Inr (VInt 4) \<and>
   (\<exists>m. eval_expression plain_json_string (int_context ''a'' 1) [] ''(a + 1) * 2'' = Inl (EvalError m))"
proof (intro conjI)
  note ctx = int_context_def ctx_set_def context_new_def ctx_get_def active_value_def parent_value_def
  have f: "f64_to_i64 (f64_of_int 1) = 1" "f64_to_i64 (f64_of_int 2) = 2"
    by (simp_all add: f64_of_int_exact)
  note ev = eval_expression_def eval_sections string_eval
    plain_json_string_def ctx f
  show "eval_expression plain_json_string (int_context ''a'' 1) [] ''a + 1'' = Inr (VInt 2)"
    by (simp add: ev cong: first_some_block del: first_some.simps)
  show "eval_expression plain_json_string (int_context ''x'' 2) [] ''x * 2'' = Inr (VInt 4)"
    by (simp add: ev cong: first_some_block del: first_some.simps)
  let ?ev = "eval plain_json_string (int_context ''a'' 1) []"
  note run = ev split_accessors_def scan_accessors.simps Let_def
  have e1: "?ev (Suc k) ''(a'' = Inl (cannot_evaluate ''(a'')" for k
    by (simp add: run first_some.simps(1) del: first_some.simps(2))
  have e2: "?ev (Suc (Suc k)) ''(a + 1)'' = Inl (cannot_evaluate ''(a + 1)'')" for k
    using e1 [of k] by (simp add: run first_some.simps(1) del: first_some.simps(2))
  have "?ev (Suc (Suc (Suc k))) ''(a + 1) * 2'' = Inl (cannot_evaluate ''(a + 1) * 2'')" for k
    using e1 [of "Suc k"] e2 [of k] by (simp add: run first_some.simps(1) del: first_some.simps(2))
  from this [of 9] show "\<exists>m. eval_expression plain_json_string (int_context ''a'' 1) [] ''(a + 1) * 2'' = Inl (EvalError m)"
    by (simp add: eval_expression_def cannot_evaluate_def numeral_eq_Suc del: eval.simps)
qed (rule fused_nodes)

end

