(* ===== verification/Programs.thy ===== *)
theory Programs
  imports Pipeline Folding "HOL-Library.Code_Target_Nat" "HOL-Library.Code_Target_Int"
begin

text \<open>
  Programs through the whole pipeline: what every translation guarantees, and concrete programs
  sanitized, translated, compiled and run in the kernel.  The library theories \<open>Code_Target_*\<close>
  give the code equations on binary numerals that \<open>code_simp\<close> rewrites with.
\<close>

section \<open>What every translation guarantees\<close>

text \<open>C32: the nodes of a translated program have pairwise different ids, whatever the program is.\<close>

theorem transform_ids_distinct:
  assumes "transform fe code = Inr p"
  shows "distinct (map node_id (plan_nodes p))"
proof -
  from assms obtain body t where t: "transform_module fe (fe_location fe code) body transformer_new = Inr t"
    "p = transformer_build t"
    by (auto simp: transform_def bind_res_Inr split: parsed.splits)
  have "good False False {} t" by (rule good_module [OF t(1)]) simp_all
  then show ?thesis
    by (simp add: t(2) good_def fresh_ids_distinct transformer_build_def execution_plan_new_def Let_def)
qed

theorem transform_ids_distinct_witness:
  "\<exists>p. transform (fixed_frontend [graph_def [''a''] [SReturn 0 (Some (EName 1 ''a''))]]) [] = Inr p \<and>
     length (plan_nodes p) = 3 \<and> distinct (map node_id (plan_nodes p))"
proof -
  let ?b = "[graph_def [''a''] [SReturn 0 (Some (EName 1 ''a''))]]"
  have "case transform (fixed_frontend ?b) [] of Inr p \<Rightarrow> length (plan_nodes p) = 3 | Inl _ \<Rightarrow> False" by code_simp
  then obtain p where p: "transform (fixed_frontend ?b) [] = Inr p" "length (plan_nodes p) = 3"
    by (auto split: sum.splits)
  with transform_ids_distinct [OF p(1)] show ?thesis by blast
qed

text \<open>C33: when every statement of the program, at any depth, has a node (no \<open>pass\<close>, no empty
  \<open>with\<close>) and the translation ends without a recorded error, every edge of the plan joins two
  nodes of the plan, and so does every entry of the table of variables.\<close>

theorem transform_edges_closed:
  assumes "transform_module fe loc body transformer_new = Inr t" "solid body" "t_errors t = []"
  shows "edges_closed (transformer_build t) \<and>
    (\<forall>v i. map_of (t_vars t) v = Some i \<longrightarrow> plan_get_node (transformer_build t) i \<noteq> None)"
proof -
  have "good True False {} t" by (rule good_module [OF assms(1)]) (simp_all add: assms(2))
  with assms(3) have "closed_over (ids t) t" by (simp add: good_def)
  then show ?thesis
    by (force simp: closed_over_def ids_def edges_closed_def transformer_build_def execution_plan_new_def
        Let_def plan_get_node_def find_None_iff)
qed

definition early_return :: "stmt list" where
  "early_return =
     [graph_def [''a'']
        [SIf 1 (ECompare 1 (EName 1 ''a'') [CmpGt] [EConstant 1 (CInt 10)])
           [SReturn 2 (Some (EConstant 2 (CInt 2)))] [],
         SReturn 3 (Some (EName 3 ''a''))]]"

lemma early_return_solid: "solid early_return"
  by (simp add: early_return_def graph_def_def solid_Cons solid_stmt_def) (simp add: solid_def occurs_stmt.simps [of _ "[]"])

theorem transform_edges_closed_witness:
  "\<exists>t. transform_module (fixed_frontend []) (\<lambda>i. (1, i)) early_return transformer_new = Inr t \<and>
     length (t_edges t) = 9 \<and> edges_closed (transformer_build t)"
proof -
  have "case transform_module (fixed_frontend []) (\<lambda>i. (1, i)) early_return transformer_new of
      Inr t \<Rightarrow> length (t_edges t) = 9 \<and> t_errors t = [] | Inl _ \<Rightarrow> False" by code_simp
  then obtain t where t: "transform_module (fixed_frontend []) (\<lambda>i. (1, i)) early_return transformer_new = Inr t"
    "length (t_edges t) = 9" "t_errors t = []"
    by (auto split: sum.splits)
  with transform_edges_closed [OF t(1) early_return_solid t(3)] show ?thesis by blast
qed

section \<open>What is lost in translation\<close>

lemma wire_append: "fold (\<lambda>c. wire_expr_dependencies c i) (wired_children (EBinOp j a op b)) t =
    wire_expr_dependencies b i (wire_expr_dependencies a i t)"
  by simp

lemma wire_binop: "wire_expr_dependencies (EBinOp j a op b) i t =
    wire_expr_dependencies b i (wire_expr_dependencies a i t)"
  by (subst wire_expr_dependencies.simps) simp

lemma transform_binop: "transform_expr loc (EBinOp j a op b) t =
    (case push_node Calc [(''expr'', AString (format_expr (EBinOp j a op b)))] t of (n, t1) \<Rightarrow>
       (n, wire_expr_dependencies b n (wire_expr_dependencies a n t1)))"
  by (subst transform_expr.simps) (simp add: wire_binop)

text \<open>C34: the grouping of an expression does not reach the plan: for all operators and operands,
  \<open>(a + b) * c\<close> and \<open>a + (b * c)\<close> become the same nodes and the same edges, so no executor
  can tell them apart.\<close>

theorem grouping_is_lost:
  "transform_expr loc (EBinOp i (EBinOp j a op b) op' c) t =
   transform_expr loc (EBinOp i' a op (EBinOp j' b op' c)) t"
  by (simp add: transform_binop wire_binop)

section \<open>Programs in the kernel\<close>

lemma initial_enabled_code [code]:
  "initial_enabled p = set (map cn_index
     (filter (\<lambda>n. \<not> list_ex (\<lambda>e. ce_to e = cn_index n) (cp_edges p)) (cp_nodes p)))"
  unfolding initial_enabled_def by (auto simp: list_ex_iff)

text \<open>Sanitize, translate, compile and run; \<open>None\<close> when there is no plan or the run fails.\<close>

definition run_program :: "stmt list \<Rightarrow> tp_context \<Rightarrow> execution_result option" where
  "run_program body inputs =
     (case transform (fixed_frontend body) [] of
        Inl _ \<Rightarrow> None
      | Inr p \<Rightarrow>
          (case execute (from_execution_plan (\<lambda>_. []) p []) demo_world inputs of
             Inl _ \<Rightarrow> None
           | Inr r \<Rightarrow> Some r))"

definition program_output :: "stmt list \<Rightarrow> tp_context \<Rightarrow> tp_value option" where
  "program_output body inputs = Option.bind (run_program body inputs) er_output"

definition final_variables :: "stmt list \<Rightarrow> tp_context \<Rightarrow> (string \<times> tp_value) list option" where
  "final_variables body inputs = map_option (\<lambda>r. variables (er_context r)) (run_program body inputs)"

abbreviation set_to :: "string \<Rightarrow> int \<Rightarrow> stmt" where
  "set_to x i \<equiv> SAssign 0 [EName 0 x] (EConstant 0 (CInt i))"

abbreviation greater :: "string \<Rightarrow> int \<Rightarrow> expr" where
  "greater x i \<equiv> ECompare 0 (EName 0 x) [CmpGt] [EConstant 0 (CInt i)]"

lemma early_return_runs:
  "program_output early_return (int_context ''a'' 100) = Some (VInt 2)"
  "program_output early_return (int_context ''a'' 7) = Some (VInt 7)"
  by code_simp+

text \<open>\<open>if a > 10: b = 1; c = 2; d = 3\<close> and \<open>match a: case 1: x = 1; y = 2 case 2: x = 10; y = 20\<close>\<close>

definition guarded_three :: "stmt list" where
  "guarded_three = [graph_def [''a''] [SIf 0 (greater ''a'' 10) [set_to ''b'' 1, set_to ''c'' 2, set_to ''d'' 3] []]]"

definition two_cases :: "stmt list" where
  "two_cases = [graph_def [''a''] [SMatch 0 (EName 0 ''a'')
     [MatchCase (MatchValue (EConstant 0 (CInt 1))) None [set_to ''x'' 1, set_to ''y'' 2],
      MatchCase (MatchValue (EConstant 0 (CInt 2))) None [set_to ''x'' 10, set_to ''y'' 20]]]]"

lemma guarded_three_not_taken:
  "final_variables guarded_three (int_context ''a'' 1) = Some [(''a'', VInt 1), (''c'', VInt 2)]"
  by code_simp

lemma guarded_three_taken:
  "final_variables guarded_three (int_context ''a'' 11) =
     Some [(''a'', VInt 11), (''c'', VInt 2), (''b'', VInt 1), (''d'', VInt 3)]"
  by code_simp

lemma two_cases_second:
  "final_variables two_cases (int_context ''a'' 2) = Some [(''a'', VInt 2), (''x'', VInt 1), (''y'', VInt 20)]"
  by code_simp


text \<open>\<open>x: int = 5; return x\<close> and \<open>assert a > 10; return 1\<close>\<close>

definition annotated :: "stmt list" where
  "annotated = [graph_def [''a'']
     [SAnnAssign 0 (EName 0 ''x'') (EName 0 ''int'') (Some (EConstant 0 (CInt 5))), SReturn 0 (Some (EName 0 ''x''))]]"

definition asserted :: "stmt list" where
  "asserted = [graph_def [''a''] [SAssert 0 (greater ''a'' 10) None, SReturn 0 (Some (EConstant 0 (CInt 1)))]]"


text \<open>\<open>a = b = 1\<close>, which is not supported\<close>

definition chained :: "stmt list" where
  "chained = [graph_def [] [SAssign 0 [EName 0 ''a'', EName 0 ''b''] (EConstant 0 (CInt 1))]]"


end
