(* ===== verification/TypeCheck.thy ===== *)
theory TypeCheck
  imports Optimizer Folding
begin

text \<open>
  The type checker of the compiler (\<open>type_check.rs\<close>): the inferred type of a node and the checks
  of \<open>CALC\<close> and \<open>DECIDE\<close> nodes, and how far the inferred type of an expression agrees with the
  value the evaluator computes.

  \<open>to_lowercase\<close> is only compared with ASCII words that have no letter k, for which the lower
  case of the ASCII letters is the same thing.
\<close>

record type_error =
  te_node :: string
  te_message :: string

definition show_type_error :: "type_error \<Rightarrow> string" where
  "show_type_error e = ''Node '' @ [squote] @ te_node e @ [squote] @ '': '' @ te_message e"

section \<open>String literals in expressions\<close>

definition quote_char :: "char \<Rightarrow> bool" where
  "quote_char c \<longleftrightarrow> c = dquote \<or> c = squote"

text \<open>\<open>prev\<close> is the byte before the rest of the expression.\<close>

primrec has_literal_from :: "char option \<Rightarrow> string \<Rightarrow> bool" where
  "has_literal_from prev [] = False"
| "has_literal_from prev (c # cs) =
     (if quote_char c \<and> prev \<noteq> Some backslash then True else has_literal_from (Some c) cs)"

definition has_string_literal :: "string \<Rightarrow> bool" where
  "has_string_literal e = has_literal_from None e"

text \<open>A byte pushed \<open>as char\<close> is a code point below 256, encoded in UTF-8.\<close>

definition byte_as_char :: "char \<Rightarrow> string" where
  "byte_as_char c =
     (let b = (of_char c :: nat) in
      if b < 128 then [c] else [char_of (192 + b div 64), char_of (128 + b mod 64)])"

primrec strip_from :: "char option \<Rightarrow> bool \<Rightarrow> string \<Rightarrow> string" where
  "strip_from prev in_str [] = []"
| "strip_from prev in_str (c # cs) =
     (if quote_char c \<and> prev \<noteq> Some backslash then strip_from (Some c) (\<not> in_str) cs
      else if \<not> in_str then byte_as_char c @ strip_from (Some c) in_str cs
      else strip_from (Some c) in_str cs)"

definition strip_string_literals :: "string \<Rightarrow> string" where
  "strip_string_literals e = strip_from None False e"

section \<open>Types\<close>

definition parse_type_name :: "string \<Rightarrow> ty option" where
  "parse_type_name s =
     (let w = map ascii_lower (trim s) in
      if w \<in> {''string'', ''str''} then Some TyString
      else if w \<in> {''int'', ''integer''} then Some TyInt
      else if w \<in> {''float'', ''double''} then Some TyFloat
      else if w \<in> {''bool'', ''boolean''} then Some TyBool
      else if w \<in> {''null'', ''none''} then Some TyNull
      else None)"

definition infer_expr_type :: "string \<Rightarrow> ty" where
  "infer_expr_type expr =
     (let e = trim expr in
      if e = [] then TyAny
      else if has_string_literal e then TyString
      else if e \<in> {''true'', ''false''} then TyBool
      else if e \<in> {''null'', ''none'', ''None''} then TyNull
      else if contains e ''/'' then TyFloat
      else if \<forall>c \<in> set e. is_digit c \<or> c = CHR ''-'' \<or> c = CHR ''.'' then
        (if contains e ''.'' then TyFloat else TyInt)
      else if contains e ''+'' \<or> contains e ''-'' \<or> contains e ''*'' then TyInt
      else if contains e ''=='' \<or> contains e ''!='' \<or> contains e ''>='' \<or> contains e ''<='' \<or>
        contains e ''>'' \<or> contains e ''<'' then TyBool
      else TyAny)"

text \<open>The string value of an argument.\<close>

definition text_arg :: "node \<Rightarrow> string \<Rightarrow> string option" where
  "text_arg n k = (case plan_arg n k of Some (AString s) \<Rightarrow> Some s | _ \<Rightarrow> None)"

definition infer_node_type :: "node \<Rightarrow> ty" where
  "infer_node_type n = (case node_op n of
       Input \<Rightarrow> (case Option.bind (text_arg n ''type'') parse_type_name of Some t \<Rightarrow> t | None \<Rightarrow> TyAny)
     | Calc \<Rightarrow> infer_expr_type (case text_arg n ''expr'' of Some e \<Rightarrow> e | None \<Rightarrow> [])
     | Decide \<Rightarrow> TyBool
     | Switch \<Rightarrow> TyBool
     | Error \<Rightarrow> TyNull
     | _ \<Rightarrow> TyAny)"

section \<open>Checks\<close>

definition validate_calc :: "node \<Rightarrow> string option" where
  "validate_calc n =
     (case text_arg n ''expr'' of
        None \<Rightarrow> None
      | Some expr \<Rightarrow>
          (let stripped = strip_string_literals expr;
               has_numeric_op = (contains stripped ''/'' \<or> contains stripped ''*'' \<or> contains stripped ''%'');
               has_bool = (contains expr ''true'' \<or> contains expr ''false'')
           in if has_string_literal expr \<and> has_numeric_op \<and> \<not> contains stripped ''+'' then
                Some (''Type error in expression '' @ [squote] @ expr @ [squote] @
                  '': string and number operation is not allowed (use + for concatenation)'')
              else if has_bool \<and> (contains stripped ''/'' \<or> contains stripped ''*'' \<or> contains stripped ''-'') then
                Some (''Type error in expression '' @ [squote] @ expr @ [squote] @
                  '': arithmetic on boolean values is not allowed'')
              else None))"

definition validate_decide :: "node \<Rightarrow> string option" where
  "validate_decide n =
     (case (text_arg n ''source'', text_arg n ''value'') of
        (Some src, Some val) \<Rightarrow>
          if has_string_literal src \<and> (\<forall>c \<in> set val. is_digit c \<or> c = CHR ''.'') then
            Some (''Type warning in DECIDE: comparing string '' @ [squote] @ src @ [squote] @
              '' with numeric value '' @ [squote] @ val @ [squote])
          else None
      | _ \<Rightarrow> None)"

definition validate_node :: "node \<Rightarrow> string option" where
  "validate_node n = (case node_op n of
       Calc \<Rightarrow> validate_calc n
     | Decide \<Rightarrow> validate_decide n
     | _ \<Rightarrow> None)"

definition check_types :: "node list \<Rightarrow> type_error list" where
  "check_types ns =
     List.map_filter (\<lambda>n. map_option (\<lambda>m. \<lparr>te_node = node_id n, te_message = m\<rparr>) (validate_node n)) ns"

section \<open>Inferred types and values\<close>

lemma has_literal_quote: "has_literal_from prev e \<Longrightarrow> \<exists>c \<in> set e. quote_char c"
  by (induction e arbitrary: prev) (auto split: if_splits)

lemma plain_no_literal: "plain e \<Longrightarrow> \<not> has_string_literal e"
  using has_literal_quote [of None e] not_plain_chars
  by (auto simp: has_string_literal_def quote_char_def plain_def)

lemma plain_contains: "plain e \<Longrightarrow> \<not> plain_char c \<Longrightarrow> \<not> contains e (c # p)"
  by (simp add: contains_def plain_find)

lemma simple_ops_contains:
  "simple_ops e ops = Some r \<Longrightarrow> \<exists>op \<in> set ops. contains e [op]"
  by (induction ops) (auto simp: contains_def split: option.splits if_splits)

lemma parse_i64_shape:
  assumes "parse_i64 s = Some n" "\<not> contains s ''+''"
  shows "\<forall>c \<in> set s. is_digit c \<or> c = CHR ''-'' \<or> c = CHR ''.''"
proof (cases s)
  case (Cons c cs)
  have "c \<noteq> CHR ''+''" using assms(2) by (auto simp: Cons contains_def starts_with_def)
  with assms(1) show ?thesis
    by (auto simp: Cons parse_i64_def bind_eq_Some_conv dest!: parse_nat_digits split: if_splits)
qed (use assms in simp)

lemma infer_foldable:
  assumes "eval_simple_int_expr e = Some r"
  shows "infer_expr_type e = (if contains (trim e) ''/'' then TyFloat else TyInt)"
proof -
  let ?t = "trim e"
  from eval_simple_plain [OF assms] have p: "plain ?t" "?t \<noteq> []" by simp_all
  have words: "?t \<notin> {''true'', ''false'', ''null'', ''none'', ''None''}"
  proof -
    have "plain w" if "?t = w" for w using p(1) that plain_trim [of e] by metis
    from this [of "''true''"] this [of "''false''"] this [of "''null''"] this [of "''none''"]
      this [of "''None''"] not_plain_chars show ?thesis by auto
  qed
  have dot: "\<not> contains ?t ''.''" using plain_contains [OF p(1)] not_plain_chars by simp
  have ops: "(\<forall>c \<in> set ?t. is_digit c \<or> c = CHR ''-'' \<or> c = CHR ''.'') \<or>
      contains ?t ''+'' \<or> contains ?t ''-'' \<or> contains ?t ''*''" if "\<not> contains ?t ''/''"
  proof (cases "parse_i64 ?t")
    case None
    with assms have "simple_ops ?t arith_ops = Some r"
      by (simp add: eval_simple_int_expr_def Let_def split: if_splits)
    from simple_ops_contains [OF this] that show ?thesis by (auto simp: arith_ops_def)
  next
    case (Some n)
    with parse_i64_shape show ?thesis by blast
  qed
  show ?thesis
  proof (cases "contains ?t ''/''")
    case True
    then show ?thesis using words p(2) plain_no_literal [OF p(1)] by (simp add: infer_expr_type_def Let_def)
  next
    case False
    from ops [OF False] show ?thesis
      using False words p(2) plain_no_literal [OF p(1)] by (auto simp: infer_expr_type_def Let_def dot)
  qed
qed

definition value_has_type :: "tp_value \<Rightarrow> ty \<Rightarrow> bool" where
  "value_has_type v t = (case v of
       VInt _ \<Rightarrow> t = TyInt \<or> t = TyAny
     | VFloat _ \<Rightarrow> t = TyFloat \<or> t = TyAny
     | VString _ \<Rightarrow> t = TyString \<or> t = TyAny
     | VBool _ \<Rightarrow> t = TyBool \<or> t = TyAny
     | VNull \<Rightarrow> t = TyNull \<or> t = TyAny
     | _ \<Rightarrow> t = TyAny)"

text \<open>C40: on integer constant expressions the inferred type is the type of the value exactly when the
  expression has no division: the evaluator computes an integer in all cases, and the type checker
  calls every expression with a \<open>/\<close> a float.\<close>

theorem integer_types_sound:
  assumes "json_strings_quoted jd" "names_have_letters ctx" "eval_simple_int_expr e = Some r"
  shows "eval_expression jd ctx outs e = Inr (VInt r) \<and>
    (value_has_type (VInt r) (infer_expr_type e) \<longleftrightarrow> \<not> contains (trim e) ''/'')"
  using eval_simple [OF assms] infer_foldable [OF assms(3)] by (simp add: value_has_type_def)

theorem integer_types_sound_witness:
  "eval_expression plain_json_string context_new [] ''7 / 2'' = Inr (VInt 3) \<and>
   infer_expr_type ''7 / 2'' = TyFloat"
proof -
  have e: "eval_simple_int_expr ''7 / 2'' = Some 3"
    by (simp add: eval_simple_int_expr_def arith_ops_def arith_op_def trunc_div_def string_eval)
  have "contains (trim ''7 / 2'') ''/''" by (simp add: string_eval contains_def)
  with integer_types_sound [OF plain_json_quoted new_context_names e, of "[]"] infer_foldable [OF e]
  show ?thesis by simp
qed

end
