(* ===== verification/Storage.thy ===== *)
theory Storage
  imports Contexts "HOL-Library.List_Lexorder" "HOL-Library.Char_ord"
begin

text \<open>
  The SQLite implementation of \<open>GraphStorage\<close> (\<open>tinypipe-storage/src/lib.rs\<close>).  A table is the
  list of its rows in the order of their row ids, each statement of the code is an operation on
  these lists, and an operation returns the new database with its result, so that what a failing
  operation has already written stays visible.  Failures of SQLite other than a violated primary
  key are not modelled.  The parameters are the clock (\<open>now\<close>), the fresh UUIDs (\<open>uid\<close>) and the JSON
  codecs of the values in text columns (\<open>codec\<close>, for \<open>serde_json\<close>).  Rows with equal sort
  keys, whose order SQL leaves open, keep the order of their row ids.
\<close>

section \<open>Data\<close>

type_synonym blob = string

datatype storage_error =
    GraphNotFound string
  | VersionNotFound nat string
  | PlanMissing string
  | PlanVersionMissing nat string
  | ExecutionNotFound string
  | StorageInternal string

record graph_definition =
  gd_id :: string
  gd_name :: string
  gd_version :: nat
  gd_status :: string
  gd_code :: string
  gd_plan :: "blob option"
  gd_active :: bool
  gd_active_version :: "nat option"
  gd_parent :: "string option"
  gd_fork_node :: "string option"
  gd_fork_label :: "string option"
  gd_last_event :: "string option"
  gd_created_at :: string
  gd_updated_at :: string

datatype execution_status = Running | PausedStatus | CompletedStatus | Failed

record execution =
  ex_id :: string
  ex_graph :: string
  ex_version :: nat
  ex_input :: "tp_context"
  ex_output :: "tp_value option"
  ex_status :: execution_status
  ex_error :: "string option"
  ex_started_at :: string
  ex_completed_at :: "string option"
  ex_duration_us :: "nat option"
  ex_context :: "tp_context option"

record execution_step =
  st_id :: string
  st_execution :: string
  st_node :: string
  st_op :: string
  st_status :: string
  st_error :: "string option"
  st_started_at :: string
  st_completed_at :: "string option"
  st_duration_us :: "nat option"
  st_before :: "tp_context option"
  st_after :: "tp_context option"
  st_parent :: "string option"

record profile =
  pf_name :: string
  pf_label :: string
  pf_description :: string
  pf_view :: string
  pf_direction :: string
  pf_focus :: "string list"
  pf_config :: json
  pf_builtin :: bool

section \<open>Tables\<close>

record graph_row =
  gr_id :: string
  gr_name :: string
  gr_version :: i64
  gr_status :: string
  gr_code :: string
  gr_plan :: "blob option"
  gr_active :: "i64 option"
  gr_parent :: "string option"
  gr_fork_node :: "string option"
  gr_fork_label :: "string option"
  gr_created_at :: string
  gr_updated_at :: string
  gr_last_event :: "string option"

record version_row =
  vr_graph :: string
  vr_version :: i64
  vr_code :: string
  vr_plan :: "blob option"
  vr_created_at :: string

record execution_row =
  xr_id :: string
  xr_graph :: string
  xr_version :: i64
  xr_input :: string
  xr_output :: "string option"
  xr_status :: string
  xr_error :: "string option"
  xr_started_at :: string
  xr_completed_at :: "string option"
  xr_duration_us :: "i64 option"
  xr_context :: "string option"
  xr_checkpoint :: "blob option"

record step_row =
  sr_id :: string
  sr_execution :: string
  sr_node :: string
  sr_op :: string
  sr_status :: string
  sr_error :: "string option"
  sr_started_at :: string
  sr_completed_at :: "string option"
  sr_duration_us :: "i64 option"
  sr_before :: "string option"
  sr_after :: "string option"
  sr_parent :: "string option"

record profile_row =
  pfr_name :: string
  pfr_label :: string
  pfr_description :: string
  pfr_view :: string
  pfr_direction :: string
  pfr_focus :: string
  pfr_config :: string
  pfr_builtin :: bool

record db =
  db_graphs :: "graph_row list"
  db_versions :: "version_row list"
  db_executions :: "execution_row list"
  db_steps :: "step_row list"
  db_profiles :: "profile_row list"

definition db_empty :: db where
  "db_empty = \<lparr>db_graphs = [], db_versions = [], db_executions = [], db_steps = [], db_profiles = []\<rparr>"

record codec =
  enc_context :: "tp_context \<Rightarrow> string option"
  dec_context :: "string \<Rightarrow> tp_context option"
  enc_value :: "tp_value \<Rightarrow> string option"
  dec_value :: "string \<Rightarrow> tp_value option"
  enc_strings :: "string list \<Rightarrow> string option"
  dec_strings :: "string \<Rightarrow> string list option"
  enc_config :: "json \<Rightarrow> string option"
  dec_config :: "string \<Rightarrow> json option"

type_synonym 'a outcome_of = "db \<times> (storage_error + 'a)"

text \<open>The casts between the \<open>u64\<close> of the interface and the \<open>INTEGER\<close> of a column, and \<open>unwrap_or_default\<close>
  on a text.\<close>

definition as_i64 :: "nat \<Rightarrow> i64" where
  "as_i64 n = wrap_i64 (int n)"

definition i64_as_u64 :: "i64 \<Rightarrow> nat" where
  "i64_as_u64 i = nat (i mod 2 ^ 64)"

definition or_default :: "string option \<Rightarrow> string" where
  "or_default s = (case s of Some t \<Rightarrow> t | None \<Rightarrow> [])"

definition unique_failed :: "string \<Rightarrow> string \<Rightarrow> storage_error" where
  "unique_failed what key = StorageInternal (what @ '': UNIQUE constraint failed: '' @ key)"

text \<open>\<open>ORDER BY key ASC\<close> and \<open>DESC\<close>.\<close>

definition order_asc :: "('a \<Rightarrow> 'k::linorder) \<Rightarrow> 'a list \<Rightarrow> 'a list" where
  "order_asc f xs = sort_key f xs"

definition order_desc :: "('a \<Rightarrow> 'k::linorder) \<Rightarrow> 'a list \<Rightarrow> 'a list" where
  "order_desc f xs = rev (sort_key f (rev xs))"

section \<open>Graphs and versions\<close>

definition find_graph :: "db \<Rightarrow> string \<Rightarrow> graph_row option" where
  "find_graph d i = find (\<lambda>g. gr_id g = i) (db_graphs d)"

definition find_version :: "db \<Rightarrow> string \<Rightarrow> i64 \<Rightarrow> version_row option" where
  "find_version d i v = find (\<lambda>r. vr_graph r = i \<and> vr_version r = v) (db_versions d)"

definition update_graphs :: "string \<Rightarrow> (graph_row \<Rightarrow> graph_row) \<Rightarrow> db \<Rightarrow> db" where
  "update_graphs i f d = d\<lparr>db_graphs := map (\<lambda>g. if gr_id g = i then f g else g) (db_graphs d)\<rparr>"

definition insert_graph :: "string \<Rightarrow> graph_row \<Rightarrow> db \<Rightarrow> unit outcome_of" where
  "insert_graph what g d =
     (if find_graph d (gr_id g) \<noteq> None then (d, Inl (unique_failed what ''graphs.id''))
      else (d\<lparr>db_graphs := db_graphs d @ [g]\<rparr>, Inr ()))"

definition insert_version :: "string \<Rightarrow> version_row \<Rightarrow> db \<Rightarrow> unit outcome_of" where
  "insert_version what r d =
     (if find_version d (vr_graph r) (vr_version r) \<noteq> None
      then (d, Inl (unique_failed what ''graph_versions.graph_id, graph_versions.version''))
      else (d\<lparr>db_versions := db_versions d @ [r]\<rparr>, Inr ()))"

text \<open>The \<open>?\<close> of the code between two statements.\<close>

definition then_do :: "'a outcome_of \<Rightarrow> (db \<Rightarrow> 'a \<Rightarrow> 'b outcome_of) \<Rightarrow> 'b outcome_of" where
  "then_do r f = (case r of (d, Inl e) \<Rightarrow> (d, Inl e) | (d, Inr a) \<Rightarrow> f d a)"

definition new_graph_row :: "string \<Rightarrow> string \<Rightarrow> string \<Rightarrow> string \<Rightarrow> graph_row" where
  "new_graph_row uid now name code =
     \<lparr>gr_id = uid, gr_name = name, gr_version = 1, gr_status = ''draft'', gr_code = code,
      gr_plan = None, gr_active = None, gr_parent = None, gr_fork_node = None, gr_fork_label = None,
      gr_created_at = now, gr_updated_at = now, gr_last_event = None\<rparr>"

definition first_version :: "string \<Rightarrow> string \<Rightarrow> string \<Rightarrow> version_row" where
  "first_version uid now code =
     \<lparr>vr_graph = uid, vr_version = 1, vr_code = code, vr_plan = None, vr_created_at = now\<rparr>"

definition create_graph :: "string \<Rightarrow> string \<Rightarrow> string \<Rightarrow> string \<Rightarrow> db \<Rightarrow> string outcome_of" where
  "create_graph uid now name code d =
     then_do (insert_graph ''create_graph failed'' (new_graph_row uid now name code) d)
       (\<lambda>d1 _. then_do (insert_version ''create_graph version failed'' (first_version uid now code) d1)
         (\<lambda>d2 _. (d2, Inr uid)))"

definition create_fork_graph ::
  "string \<Rightarrow> string \<Rightarrow> string \<Rightarrow> string \<Rightarrow> string \<Rightarrow> string \<Rightarrow> string option \<Rightarrow> db \<Rightarrow> string outcome_of" where
  "create_fork_graph uid now name code parent fork_node fork_label d =
     then_do (insert_graph ''create_fork_graph failed''
         ((new_graph_row uid now name code)\<lparr>gr_parent := Some parent, gr_fork_node := Some fork_node,
            gr_fork_label := fork_label\<rparr>) d)
       (\<lambda>d1 _. then_do (insert_version ''create_fork_graph version failed'' (first_version uid now code) d1)
         (\<lambda>d2 _. (d2, Inr uid)))"

definition update_graph :: "string \<Rightarrow> string \<Rightarrow> string \<Rightarrow> db \<Rightarrow> nat outcome_of" where
  "update_graph now i code d =
     (case find_graph d i of
        None \<Rightarrow> (d, Inl (GraphNotFound i))
      | Some g \<Rightarrow>
          let v = wrap_i64 (gr_version g + 1);
              d1 = update_graphs i (\<lambda>g. g\<lparr>gr_code := code, gr_version := v, gr_updated_at := now\<rparr>) d in
          then_do (insert_version ''update_graph version failed''
              \<lparr>vr_graph = i, vr_version = v, vr_code = code, vr_plan = None, vr_created_at = now\<rparr> d1)
            (\<lambda>d2 _. (d2, Inr (i64_as_u64 v))))"

definition version_tag :: "nat \<Rightarrow> string" where
  "version_tag v = CHR ''v'' # show_nat v"

definition deploy :: "string \<Rightarrow> nat \<Rightarrow> db \<Rightarrow> unit outcome_of" where
  "deploy i v d =
     (if find_version d i (as_i64 v) = None then (d, Inl (VersionNotFound v i))
      else (update_graphs i
             (\<lambda>g. g\<lparr>gr_active := Some (as_i64 v), gr_status := ''deployed'',
                gr_last_event := Some (''deploy: '' @ version_tag v)\<rparr>) d, Inr ()))"

definition list_versions :: "string \<Rightarrow> db \<Rightarrow> (nat \<times> string \<times> string) list" where
  "list_versions i d =
     map (\<lambda>r. (i64_as_u64 (vr_version r), vr_code r, vr_created_at r))
       (order_asc vr_version (filter (\<lambda>r. vr_graph r = i) (db_versions d)))"

text \<open>\<open>COALESCE(MAX(version), 0)\<close> over the versions of a graph.\<close>

definition max_version :: "db \<Rightarrow> string \<Rightarrow> i64" where
  "max_version d i =
     (case map vr_version (filter (\<lambda>r. vr_graph r = i) (db_versions d)) of
        [] \<Rightarrow> 0
      | v # vs \<Rightarrow> fold max vs v)"

definition restore_plan :: "string \<Rightarrow> blob option \<Rightarrow> db \<Rightarrow> db" where
  "restore_plan i plan d =
     (case plan of None \<Rightarrow> d | Some b \<Rightarrow> update_graphs i (\<lambda>g. g\<lparr>gr_plan := Some b\<rparr>) d)"

definition move_active :: "string \<Rightarrow> i64 \<Rightarrow> db \<Rightarrow> db" where
  "move_active i v d =
     (if list_ex (\<lambda>g. gr_id g = i \<and> gr_status g = ''deployed'') (db_graphs d)
      then update_graphs i (\<lambda>g. g\<lparr>gr_active := Some v\<rparr>) d else d)"

definition rollback :: "string \<Rightarrow> string \<Rightarrow> nat \<Rightarrow> db \<Rightarrow> unit outcome_of" where
  "rollback now i v d =
     (case find_version d i (as_i64 v) of
        None \<Rightarrow> (d, Inl (VersionNotFound v i))
      | Some old \<Rightarrow>
          let n = wrap_i64 (max_version d i + 1);
              d1 = update_graphs i
                (\<lambda>g. g\<lparr>gr_code := vr_code old, gr_version := n, gr_updated_at := now\<rparr>) d in
          then_do (insert_version ''rollback version insert failed''
              \<lparr>vr_graph = i, vr_version = n, vr_code = vr_code old, vr_plan = vr_plan old,
                 vr_created_at = now\<rparr> d1)
            (\<lambda>d2 _.
               let d3 = move_active i n (restore_plan i (vr_plan old) d2) in
               (update_graphs i (\<lambda>g. g\<lparr>gr_last_event := Some (''rollback: '' @ version_tag v)\<rparr>) d3, Inr ())))"

section \<open>Reading graphs and plans\<close>

definition row_to_graph :: "graph_row \<Rightarrow> graph_definition" where
  "row_to_graph g =
     \<lparr>gd_id = gr_id g, gd_name = gr_name g, gd_version = i64_as_u64 (gr_version g), gd_status = gr_status g,
      gd_code = gr_code g, gd_plan = None, gd_active = (gr_active g \<noteq> None),
      gd_active_version = map_option i64_as_u64 (gr_active g), gd_parent = gr_parent g,
      gd_fork_node = gr_fork_node g, gd_fork_label = gr_fork_label g, gd_last_event = gr_last_event g,
      gd_created_at = gr_created_at g, gd_updated_at = gr_updated_at g\<rparr>"

definition load_graph :: "string \<Rightarrow> db \<Rightarrow> storage_error + graph_definition" where
  "load_graph i d =
     (case find_graph d i of Some g \<Rightarrow> Inr (row_to_graph g) | None \<Rightarrow> Inl (GraphNotFound i))"

definition load_plan :: "string \<Rightarrow> db \<Rightarrow> storage_error + blob" where
  "load_plan i d =
     (case find_graph d i of
        None \<Rightarrow> Inl (GraphNotFound i)
      | Some g \<Rightarrow> (case gr_plan g of Some b \<Rightarrow> Inr b | None \<Rightarrow> Inl (PlanMissing i)))"

definition load_plan_version :: "string \<Rightarrow> nat \<Rightarrow> db \<Rightarrow> storage_error + blob" where
  "load_plan_version i v d =
     (case find_version d i (as_i64 v) of
        None \<Rightarrow> Inl (VersionNotFound v i)
      | Some r \<Rightarrow> (case vr_plan r of Some b \<Rightarrow> Inr b | None \<Rightarrow> Inl (PlanVersionMissing v i)))"

definition save_plan :: "string \<Rightarrow> string \<Rightarrow> nat \<Rightarrow> blob \<Rightarrow> db \<Rightarrow> unit outcome_of" where
  "save_plan now i v plan d =
     (let d1 = update_graphs i (\<lambda>g. g\<lparr>gr_plan := Some plan, gr_updated_at := now\<rparr>) d in
      (d1\<lparr>db_versions := map (\<lambda>r. if vr_graph r = i \<and> vr_version r = as_i64 v then r\<lparr>vr_plan := Some plan\<rparr> else r)
            (db_versions d1)\<rparr>, Inr ()))"

definition list_all_graphs :: "db \<Rightarrow> graph_definition list" where
  "list_all_graphs d = map row_to_graph (order_desc gr_created_at (db_graphs d))"

record list_item =
  li_id :: string
  li_name :: string
  li_version :: nat
  li_status :: string
  li_code_len :: nat

text \<open>\<open>LIMIT\<close> with a negative bound is no limit, \<open>OFFSET\<close> with a negative bound is zero; \<open>LENGTH\<close> counts
  the characters of a text.\<close>

definition sql_limit :: "i64 \<Rightarrow> 'a list \<Rightarrow> 'a list" where
  "sql_limit n xs = (if n < 0 then xs else take (nat n) xs)"

definition list_graph_items :: "nat option \<Rightarrow> nat option \<Rightarrow> db \<Rightarrow> list_item list" where
  "list_graph_items limit offset d =
     (let rows = map (\<lambda>g. \<lparr>li_id = gr_id g, li_name = gr_name g, li_version = i64_as_u64 (gr_version g),
                li_status = gr_status g, li_code_len = char_count (gr_code g)\<rparr>)
                (order_desc gr_created_at (db_graphs d));
          lim = (case limit of Some n \<Rightarrow> n | None \<Rightarrow> 1000);
          off = (case offset of Some n \<Rightarrow> n | None \<Rightarrow> 0) in
      if limit \<noteq> None \<or> offset \<noteq> None then sql_limit (as_i64 lim) (drop (nat (as_i64 off)) rows) else rows)"

definition find_graph_by_name :: "string \<Rightarrow> db \<Rightarrow> storage_error + graph_definition" where
  "find_graph_by_name name d =
     (case order_desc gr_created_at (filter (\<lambda>g. gr_name g = name) (db_graphs d)) of
        g # _ \<Rightarrow> Inr (row_to_graph g)
      | [] \<Rightarrow> Inl (GraphNotFound name))"

section \<open>Executions, checkpoints and steps\<close>

fun status_text :: "execution_status \<Rightarrow> string" where
  "status_text Running = ''running''"
| "status_text PausedStatus = ''paused''"
| "status_text CompletedStatus = ''completed''"
| "status_text Failed = ''failed''"

definition parse_status :: "string \<Rightarrow> execution_status" where
  "parse_status s =
     (if s = ''running'' then Running else if s = ''paused'' then PausedStatus
      else if s = ''completed'' then CompletedStatus else if s = ''failed'' then Failed else Running)"

text \<open>\<open>INSERT OR REPLACE\<close> deletes the row with the same key and adds the new one at the end; columns
  the statement does not name, here the checkpoint, are \<open>NULL\<close> in the new row.\<close>

definition execution_to_row :: "codec \<Rightarrow> string \<Rightarrow> execution \<Rightarrow> execution_row" where
  "execution_to_row jc input x =
     \<lparr>xr_id = ex_id x, xr_graph = ex_graph x, xr_version = as_i64 (ex_version x), xr_input = input,
      xr_output = map_option (\<lambda>v. or_default (enc_value jc v)) (ex_output x),
      xr_status = status_text (ex_status x), xr_error = ex_error x, xr_started_at = ex_started_at x,
      xr_completed_at = ex_completed_at x, xr_duration_us = map_option as_i64 (ex_duration_us x),
      xr_context = map_option (\<lambda>c. or_default (enc_context jc c)) (ex_context x), xr_checkpoint = None\<rparr>"

definition save_execution :: "codec \<Rightarrow> execution \<Rightarrow> db \<Rightarrow> unit outcome_of" where
  "save_execution jc x d =
     (case enc_context jc (ex_input x) of
        None \<Rightarrow> (d, Inl (StorageInternal ''serialize input''))
      | Some input \<Rightarrow>
          (d\<lparr>db_executions := filter (\<lambda>r. xr_id r \<noteq> ex_id x) (db_executions d) @ [execution_to_row jc input x]\<rparr>,
           Inr ()))"

definition row_to_execution :: "codec \<Rightarrow> execution_row \<Rightarrow> execution" where
  "row_to_execution jc r =
     \<lparr>ex_id = xr_id r, ex_graph = xr_graph r, ex_version = i64_as_u64 (xr_version r),
      ex_input = (case dec_context jc (xr_input r) of Some c \<Rightarrow> c | None \<Rightarrow> context_new),
      ex_output = Option.bind (xr_output r) (dec_value jc), ex_status = parse_status (xr_status r),
      ex_error = xr_error r, ex_started_at = xr_started_at r, ex_completed_at = xr_completed_at r,
      ex_duration_us = map_option i64_as_u64 (xr_duration_us r),
      ex_context = Option.bind (xr_context r) (dec_context jc)\<rparr>"

definition find_execution :: "string \<Rightarrow> db \<Rightarrow> execution_row option" where
  "find_execution i d = find (\<lambda>r. xr_id r = i) (db_executions d)"

definition load_execution :: "codec \<Rightarrow> string \<Rightarrow> db \<Rightarrow> storage_error + execution" where
  "load_execution jc i d =
     (case find_execution i d of
        Some r \<Rightarrow> Inr (row_to_execution jc r) | None \<Rightarrow> Inl (ExecutionNotFound i))"

definition list_paused_executions :: "codec \<Rightarrow> db \<Rightarrow> execution list" where
  "list_paused_executions jc d =
     map (\<lambda>r. (row_to_execution jc r)\<lparr>ex_status := PausedStatus\<rparr>)
       (filter (\<lambda>r. xr_status r = ''paused'') (db_executions d))"

definition list_executions :: "codec \<Rightarrow> string \<Rightarrow> nat option \<Rightarrow> db \<Rightarrow> execution list" where
  "list_executions jc g limit d =
     map (row_to_execution jc)
       (sql_limit (as_i64 (case limit of Some n \<Rightarrow> n | None \<Rightarrow> 100))
         (order_desc xr_started_at (filter (\<lambda>r. xr_graph r = g) (db_executions d))))"

definition save_checkpoint :: "string \<Rightarrow> blob \<Rightarrow> db \<Rightarrow> unit outcome_of" where
  "save_checkpoint i b d =
     (d\<lparr>db_executions := map (\<lambda>r. if xr_id r = i then r\<lparr>xr_checkpoint := Some b\<rparr> else r) (db_executions d)\<rparr>,
      Inr ())"

definition load_checkpoint :: "string \<Rightarrow> db \<Rightarrow> storage_error + blob" where
  "load_checkpoint i d =
     (case find_execution i d of
        None \<Rightarrow> Inl (ExecutionNotFound i)
      | Some r \<Rightarrow> Inr (case xr_checkpoint r of Some b \<Rightarrow> b | None \<Rightarrow> []))"

definition save_step :: "codec \<Rightarrow> execution_step \<Rightarrow> db \<Rightarrow> unit outcome_of" where
  "save_step jc s d =
     (d\<lparr>db_steps := filter (\<lambda>r. sr_id r \<noteq> st_id s) (db_steps d) @
         [\<lparr>sr_id = st_id s, sr_execution = st_execution s, sr_node = st_node s, sr_op = st_op s,
           sr_status = st_status s, sr_error = st_error s, sr_started_at = st_started_at s,
           sr_completed_at = st_completed_at s, sr_duration_us = map_option as_i64 (st_duration_us s),
           sr_before = map_option (\<lambda>c. or_default (enc_context jc c)) (st_before s),
           sr_after = map_option (\<lambda>c. or_default (enc_context jc c)) (st_after s),
           sr_parent = st_parent s\<rparr>]\<rparr>, Inr ())"

definition row_to_step :: "codec \<Rightarrow> step_row \<Rightarrow> execution_step" where
  "row_to_step jc r =
     \<lparr>st_id = sr_id r, st_execution = sr_execution r, st_node = sr_node r, st_op = sr_op r,
      st_status = sr_status r, st_error = sr_error r, st_started_at = sr_started_at r,
      st_completed_at = sr_completed_at r, st_duration_us = map_option i64_as_u64 (sr_duration_us r),
      st_before = Option.bind (sr_before r) (dec_context jc),
      st_after = Option.bind (sr_after r) (dec_context jc), st_parent = sr_parent r\<rparr>"

definition list_steps :: "codec \<Rightarrow> string \<Rightarrow> db \<Rightarrow> execution_step list" where
  "list_steps jc i d =
     map (row_to_step jc) (order_asc sr_started_at (filter (\<lambda>r. sr_execution r = i) (db_steps d)))"

section \<open>Forks\<close>

definition fork_graph ::
  "string \<Rightarrow> string \<Rightarrow> string \<Rightarrow> string \<Rightarrow> string \<Rightarrow> string option \<Rightarrow> db \<Rightarrow> string outcome_of" where
  "fork_graph uid now i fork_node code label d =
     (case load_graph i d of
        Inl e \<Rightarrow> (d, Inl e)
      | Inr parent \<Rightarrow> create_fork_graph uid now (gd_name parent) code i fork_node label d)"

definition list_children :: "string \<Rightarrow> db \<Rightarrow> graph_definition list" where
  "list_children i d =
     map row_to_graph (order_asc gr_created_at (filter (\<lambda>g. gr_parent g = Some i) (db_graphs d)))"

text \<open>The walk to the root follows the parents as long as there is one: \<open>None\<close> is a walk that
  does not end.\<close>

partial_function (option) walk_up :: "db \<Rightarrow> graph_definition list \<Rightarrow> string \<Rightarrow> (storage_error + graph_definition list) option" where
  [code]: "walk_up d acc i =
     (case load_graph i d of
        Inl e \<Rightarrow> Some (Inl e)
      | Inr g \<Rightarrow>
          (case gd_parent g of
             None \<Rightarrow> Some (Inr (g # acc))
           | Some p \<Rightarrow> walk_up d (g # acc) p))"

definition graph_lineage :: "string \<Rightarrow> db \<Rightarrow> (storage_error + graph_definition list) option" where
  "graph_lineage i d = walk_up d [] i"

datatype graph_tree_node = Tree graph_definition "graph_tree_node list"

text \<open>The recursion over the children; \<open>None\<close> when the fuel does not reach the leaves.\<close>

fun all_trees :: "(storage_error + graph_tree_node) option list \<Rightarrow> (storage_error + graph_tree_node list) option" where
  "all_trees [] = Some (Inr [])"
| "all_trees (None # ts) = None"
| "all_trees (Some (Inl e) # ts) = Some (Inl e)"
| "all_trees (Some (Inr t) # ts) = map_option (map_sum id ((#) t)) (all_trees ts)"

fun graph_tree :: "nat \<Rightarrow> string \<Rightarrow> db \<Rightarrow> (storage_error + graph_tree_node) option" where
  "graph_tree 0 i d = None"
| "graph_tree (Suc k) i d =
     (case load_graph i d of
        Inl e \<Rightarrow> Some (Inl e)
      | Inr g \<Rightarrow>
          map_option (map_sum id (Tree g))
            (all_trees (map (\<lambda>c. graph_tree k (gd_id c) d) (list_children i d))))"

section \<open>Profiles\<close>

definition row_to_profile :: "codec \<Rightarrow> profile_row \<Rightarrow> profile" where
  "row_to_profile jc r =
     \<lparr>pf_name = pfr_name r, pf_label = pfr_label r, pf_description = pfr_description r,
      pf_view = pfr_view r, pf_direction = pfr_direction r,
      pf_focus = (case dec_strings jc (pfr_focus r) of Some xs \<Rightarrow> xs | None \<Rightarrow> []),
      pf_config = (case dec_config jc (pfr_config r) of Some j \<Rightarrow> j | None \<Rightarrow> JNull),
      pf_builtin = pfr_builtin r\<rparr>"

definition find_profile :: "string \<Rightarrow> db \<Rightarrow> profile_row option" where
  "find_profile name d = find (\<lambda>r. pfr_name r = name) (db_profiles d)"

definition list_profiles :: "codec \<Rightarrow> db \<Rightarrow> profile list" where
  "list_profiles jc d = map (row_to_profile jc) (order_asc pfr_name (db_profiles d))"

definition profile_missing :: "string \<Rightarrow> storage_error" where
  "profile_missing name = StorageInternal (''profile '' @ [CHR 0x27] @ name @ [CHR 0x27] @ '' not found'')"

definition profile_builtin_error :: "string \<Rightarrow> string \<Rightarrow> storage_error" where
  "profile_builtin_error name what =
     StorageInternal (''profile '' @ [CHR 0x27] @ name @ [CHR 0x27] @ '' is built-in and cannot be '' @ what)"

definition load_profile :: "codec \<Rightarrow> string \<Rightarrow> db \<Rightarrow> storage_error + profile" where
  "load_profile jc name d =
     (case find_profile name d of
        Some r \<Rightarrow> Inr (row_to_profile jc r) | None \<Rightarrow> Inl (profile_missing name))"

definition save_profile :: "codec \<Rightarrow> profile \<Rightarrow> db \<Rightarrow> unit outcome_of" where
  "save_profile jc p d =
     (if map_option pfr_builtin (find_profile (pf_name p) d) = Some True
      then (d, Inl (profile_builtin_error (pf_name p) ''overwritten''))
      else (d\<lparr>db_profiles := filter (\<lambda>r. pfr_name r \<noteq> pf_name p) (db_profiles d) @
               [\<lparr>pfr_name = pf_name p, pfr_label = pf_label p, pfr_description = pf_description p,
                 pfr_view = pf_view p, pfr_direction = pf_direction p,
                 pfr_focus = or_default (enc_strings jc (pf_focus p)),
                 pfr_config = or_default (enc_config jc (pf_config p)), pfr_builtin = pf_builtin p\<rparr>]\<rparr>, Inr ()))"

definition delete_profile :: "string \<Rightarrow> db \<Rightarrow> unit outcome_of" where
  "delete_profile name d =
     (case map_option pfr_builtin (find_profile name d) of
        None \<Rightarrow> (d, Inl (profile_missing name))
      | Some True \<Rightarrow> (d, Inl (profile_builtin_error name ''deleted''))
      | Some False \<Rightarrow> (d\<lparr>db_profiles := filter (\<lambda>r. pfr_name r \<noteq> name) (db_profiles d)\<rparr>, Inr ()))"

end
