(* ===== verification/Env.thy ===== *)
theory Env
  imports Strings
begin

text \<open>
  The environment of a run (\<open>tinypipe-env\<close>): normalised keys, the providers (static map, process
  environment, \<open>.env\<close> file), the layered and scoped look-up of \<open>Env\<close>, and the template language
  of \<open>template.rs\<close>.  The parameter \<open>uni\<close> is \<open>str::to_uppercase\<close> on strings that are not ASCII;
  on ASCII strings it is defined here.  A hash map is an association list in its iteration order.
\<close>

section \<open>Keys\<close>

definition is_ascii :: "string \<Rightarrow> bool" where
  "is_ascii s \<longleftrightarrow> list_all (\<lambda>c. (of_char c :: nat) < 128) s"

definition to_uppercase :: "(string \<Rightarrow> string) \<Rightarrow> string \<Rightarrow> string" where
  "to_uppercase uni s = (if is_ascii s then map ascii_upper s else uni s)"

definition replace_char :: "char \<Rightarrow> char \<Rightarrow> string \<Rightarrow> string" where
  "replace_char a b s = map (\<lambda>c. if c = a then b else c) s"

definition normalize_key :: "(string \<Rightarrow> string) \<Rightarrow> string \<Rightarrow> string" where
  "normalize_key uni key =
     replace_char CHR '' '' CHR ''_''
       (replace_char CHR ''.'' CHR ''_''
         (replace_char CHR ''-'' CHR ''_'' (to_uppercase uni (trim key))))"

section \<open>Providers\<close>

record provider =
  pr_get :: "string \<Rightarrow> string option"
  pr_list :: "(string \<times> string) list"
  pr_secret :: "string \<Rightarrow> bool"

definition static_vars :: "(string \<Rightarrow> string) \<Rightarrow> (string \<times> string) list \<Rightarrow> (string \<times> string) list" where
  "static_vars uni vars = fold (\<lambda>(k, v). upd (normalize_key uni k) v) vars []"

definition static_provider :: "(string \<Rightarrow> string) \<Rightarrow> (string \<times> string) list \<Rightarrow> provider" where
  "static_provider uni vars =
     \<lparr>pr_get = (\<lambda>k. map_of (static_vars uni vars) (normalize_key uni k)),
      pr_list = static_vars uni vars,
      pr_secret = (\<lambda>_. False)\<rparr>"

text \<open>The process environment is the list of variables the operating system holds.\<close>

definition os_provider :: "(string \<times> string) list \<Rightarrow> provider" where
  "os_provider vars = \<lparr>pr_get = map_of vars, pr_list = vars, pr_secret = (\<lambda>_. False)\<rparr>"

section \<open>Files of variables\<close>

text \<open>\<open>str::lines\<close>: lines end with a line feed, which is dropped with a carriage return before it.\<close>

definition strip_cr :: "string \<Rightarrow> string" where
  "strip_cr l = (if l \<noteq> [] \<and> last l = CHR 0x0D then butlast l else l)"

fun lines_acc :: "string \<Rightarrow> string \<Rightarrow> string list" where
  "lines_acc acc [] = (if acc = [] then [] else [rev acc])"
| "lines_acc acc (c # cs) =
     (if c = CHR 0x0A then strip_cr (rev acc) # lines_acc [] cs else lines_acc (c # acc) cs)"

definition str_lines :: "string \<Rightarrow> string list" where
  "str_lines s = lines_acc [] s"

definition unquote :: "string \<Rightarrow> string" where
  "unquote v0 =
     (let v = trim v0 in
      if 2 \<le> length v \<and> (hd v = CHR 0x22 \<and> last v = CHR 0x22 \<or> hd v = CHR 0x27 \<and> last v = CHR 0x27)
      then slice v 1 (length v - 1)
      else case split_once v '' #'' of Some (val, _) \<Rightarrow> trim val | None \<Rightarrow> v)"

definition dotenv_line :: "(string \<Rightarrow> string) \<Rightarrow> string \<Rightarrow> (string \<times> string) option" where
  "dotenv_line uni l0 =
     (let l = trim l0 in
      if l = [] \<or> starts_with l ''#'' then None
      else
        let l = trim (case strip_prefix l ''export '' of Some r \<Rightarrow> r | None \<Rightarrow> l) in
        case split_once l ''='' of
          None \<Rightarrow> None
        | Some (k, v) \<Rightarrow>
            let key = to_uppercase uni (trim k) in
            if key = [] then None else Some (key, unquote (trim v)))"

definition parse_dotenv :: "(string \<Rightarrow> string) \<Rightarrow> string \<Rightarrow> (string \<times> string) list" where
  "parse_dotenv uni content =
     fold (\<lambda>l out. case dotenv_line uni l of Some (k, v) \<Rightarrow> upd k v out | None \<Rightarrow> out) (str_lines content) []"

text \<open>The provider reads its file at the first access and keeps the result; \<open>None\<close> is a file
  that cannot be read.\<close>

definition dotenv_provider :: "(string \<Rightarrow> string) \<Rightarrow> string option \<Rightarrow> provider" where
  "dotenv_provider uni file =
     \<lparr>pr_get = (\<lambda>k. case file of None \<Rightarrow> None | Some c \<Rightarrow> map_of (parse_dotenv uni c) k),
      pr_list = (case file of None \<Rightarrow> [] | Some c \<Rightarrow> parse_dotenv uni c),
      pr_secret = (\<lambda>_. False)\<rparr>"

section \<open>The layered environment\<close>

record env =
  env_providers :: "provider list"
  env_scopes :: "string list"

definition env_new :: "provider list \<Rightarrow> env" where
  "env_new ps = \<lparr>env_providers = ps, env_scopes = []\<rparr>"

definition env_empty :: env where
  "env_empty = env_new []"

definition env_from_process :: "(string \<times> string) list \<Rightarrow> env" where
  "env_from_process vars = env_new [os_provider vars]"

definition env_from_file :: "(string \<Rightarrow> string) \<Rightarrow> string option \<Rightarrow> env" where
  "env_from_file uni file = env_new [dotenv_provider uni file]"

definition env_scoped :: "(string \<Rightarrow> string) \<Rightarrow> env \<Rightarrow> string \<Rightarrow> env" where
  "env_scoped uni e m = e\<lparr>env_scopes := env_scopes e @ [normalize_key uni m]\<rparr>"

fun find_map :: "('a \<Rightarrow> 'b option) \<Rightarrow> 'a list \<Rightarrow> 'b option" where
  "find_map f [] = None"
| "find_map f (x # xs) = (case f x of Some y \<Rightarrow> Some y | None \<Rightarrow> find_map f xs)"

definition env_lookup :: "env \<Rightarrow> string \<Rightarrow> string option" where
  "env_lookup e key = find_map (\<lambda>p. pr_get p key) (env_providers e)"

definition join_scopes :: "string list \<Rightarrow> string \<Rightarrow> string" where
  "join_scopes ss key = (if ss = [] then key else join ''_'' ss @ ''_'' @ key)"

definition env_get :: "(string \<Rightarrow> string) \<Rightarrow> env \<Rightarrow> string \<Rightarrow> string option" where
  "env_get uni e key =
     find_map (\<lambda>i. env_lookup e (join_scopes (take i (env_scopes e)) (normalize_key uni key)))
       (rev [0..<Suc (length (env_scopes e))])"

definition list_entry ::
  "(string \<Rightarrow> string) \<Rightarrow> string \<times> string \<Rightarrow> string set \<times> (string \<times> string) list \<Rightarrow> string set \<times> (string \<times> string) list" where
  "list_entry uni kv acc =
     (let nk = normalize_key uni (fst kv) in
      if nk \<in> fst acc then acc else (insert nk (fst acc), snd acc @ [(nk, snd kv)]))"

definition env_list :: "(string \<Rightarrow> string) \<Rightarrow> env \<Rightarrow> (string \<times> string) list" where
  "env_list uni e = snd (fold (list_entry uni) (concat (map pr_list (env_providers e))) ({}, []))"

definition env_is_secret :: "(string \<Rightarrow> string) \<Rightarrow> env \<Rightarrow> string \<Rightarrow> bool" where
  "env_is_secret uni e key = list_ex (\<lambda>p. pr_secret p (normalize_key uni key)) (env_providers e)"

section \<open>Templates\<close>

datatype env_error = MissingRequired string | TemplateError string

fun closing_at :: "nat \<Rightarrow> string \<Rightarrow> nat option" where
  "closing_at depth [] = None"
| "closing_at depth (c # cs) =
     (if c = CHR ''{'' then map_option Suc (closing_at (depth + 1) cs)
      else if c = CHR ''}'' then (if depth = 1 then Some 0 else map_option Suc (closing_at (depth - 1) cs))
      else map_option Suc (closing_at depth cs))"

definition find_closing :: "string \<Rightarrow> nat option" where
  "find_closing s = closing_at 1 s"

definition resolve_spec :: "(string \<Rightarrow> string) \<Rightarrow> env \<Rightarrow> string \<Rightarrow> env_error + string" where
  "resolve_spec uni e spec =
     (case find_str '':-'' spec of
        Some i \<Rightarrow>
          Inr (case env_get uni e (take i spec) of Some v \<Rightarrow> v | None \<Rightarrow> drop (i + 2) spec)
      | None \<Rightarrow>
          (case find_str '':?'' spec of
             Some i \<Rightarrow>
               (case env_get uni e (take i spec) of
                  Some v \<Rightarrow> Inr v
                | None \<Rightarrow> Inl (MissingRequired (take i spec)))
           | None \<Rightarrow> Inr (case env_get uni e spec of Some v \<Rightarrow> v | None \<Rightarrow> [])))"

text \<open>The loop over the characters of a template: \<open>s\<close> is what is left, the result is what is
  still to be written.\<close>

function resolve_template :: "(string \<Rightarrow> string) \<Rightarrow> env \<Rightarrow> string \<Rightarrow> env_error + string" where
  "resolve_template uni e s =
     (case s of
        [] \<Rightarrow> Inr []
      | c # cs \<Rightarrow>
          if starts_with s ''$${'' then map_sum id ((#) c) (resolve_template uni e (drop 2 s))
          else if starts_with s ''${'' then
            (case find_closing (drop 2 s) of
               Some n \<Rightarrow>
                 bind_res (resolve_spec uni e (take n (drop 2 s)))
                   (\<lambda>v. map_sum id ((@) v) (resolve_template uni e (drop (n + 3) s)))
             | None \<Rightarrow> map_sum id ((#) c) (resolve_template uni e cs))
          else if starts_with s ''{{'' then
            (case find_closing (drop 2 s) of
               Some n \<Rightarrow>
                 bind_res (resolve_spec uni e (take n (drop 2 s)))
                   (\<lambda>v. map_sum id ((@) v) (resolve_template uni e (drop (n + 4) s)))
             | None \<Rightarrow> map_sum id ((#) c) (resolve_template uni e cs))
          else map_sum id ((#) c) (resolve_template uni e cs))"
  by pat_completeness auto
termination by (relation "measure (\<lambda>(uni, e, s). length s)") auto

declare resolve_template.simps [simp del]

section \<open>Layers and scopes\<close>

lemma find_map_cong [fundef_cong]:
  "xs = ys \<Longrightarrow> (\<And>x. x \<in> set ys \<Longrightarrow> f x = g x) \<Longrightarrow> find_map f xs = find_map g ys"
  by (induction ys arbitrary: xs) (auto split: option.splits)

lemma env_lookup_scopes [simp]: "env_lookup (e\<lparr>env_scopes := ss\<rparr>) = env_lookup e"
  by (simp add: env_lookup_def fun_eq_iff)

lemma env_get_scoped:
  "env_get uni (env_scoped uni e m) key =
     (case env_lookup e (join_scopes (env_scopes e @ [normalize_key uni m]) (normalize_key uni key)) of
        Some v \<Rightarrow> Some v
      | None \<Rightarrow> env_get uni e key)"
proof -
  have "find_map (\<lambda>i. env_lookup e (f (take i (env_scopes e @ [m'])))) (rev [0..<length (env_scopes e)]) =
      find_map (\<lambda>i. env_lookup e (f (take i (env_scopes e)))) (rev [0..<length (env_scopes e)])" for f m'
    by (intro find_map_cong) auto
  note body = this [of "\<lambda>ss. join_scopes ss (normalize_key uni key)" "normalize_key uni m"]
  have "take (length ss) (ss @ ts) = ss" for ss ts :: "string list" by simp
  with body show ?thesis
    by (simp add: env_get_def env_scoped_def del: take_append cong: option.case_cong)
qed

text \<open>The first layer that knows a variable decides, whatever the later layers hold.\<close>

lemma first_layer_wins:
  "env_get uni (env_new (p # ps)) key =
     (case pr_get p (normalize_key uni key) of Some v \<Rightarrow> Some v | None \<Rightarrow> env_get uni (env_new ps) key)"
  by (simp add: env_get_def env_new_def env_lookup_def join_scopes_def split: option.splits)

text \<open>A \<open>.env\<close> file keeps the dashes and dots of its keys, which every look-up replaces by
  underscores: such a variable is listed but cannot be read.\<close>

lemma dashed_file: "parse_dotenv uni ''a-b=x'' = [(''A-B'', ''x'')]"
  by code_simp

lemma dashed_keys: "normalize_key uni ''A-B'' = ''A_B''" "normalize_key uni ''a-b'' = ''A_B''"
  by code_simp+

lemma listed_variable_not_found:
  "env_list uni (env_from_file uni (Some ''a-b=x'')) = [(''A_B'', ''x'')] \<and>
   env_get uni (env_from_file uni (Some ''a-b=x'')) ''a-b'' = None"
  by (simp add: env_from_file_def dotenv_provider_def env_new_def env_list_def env_get_def env_lookup_def
      list_entry_def join_scopes_def dashed_file dashed_keys Let_def)

end
