(* ===== verification/EnvDeps.thy ===== *)
theory EnvDeps
  imports Env Plans
begin

text \<open>
  The scan of a compiled plan for the environment variables it needs (\<open>env_deps.rs\<close>), and its
  agreement with the template language of the environment: the scanner and the resolver are two
  hand-written parsers of the same syntax.  The parameter \<open>js\<close> decodes a JSON text that is a
  string literal (\<open>serde_json\<close>), and is \<open>None\<close> on every other text.
\<close>

section \<open>The scanner\<close>

record env_dep =
  ed_key :: string
  ed_optional :: bool

definition node_literal :: "(string \<Rightarrow> string option) \<Rightarrow> compiled_node \<Rightarrow> string \<Rightarrow> string option" where
  "node_literal js n k = Option.bind (find (\<lambda>a. ca_key a = k) (cn_args n)) (\<lambda>a. js (ca_value a))"

text \<open>\<open>find_seq\<close> for the two uses of the code: the position of \<open>}\<close>, and of \<open>}}\<close>.\<close>

definition find_close :: "bool \<Rightarrow> string \<Rightarrow> nat option" where
  "find_close double s = find_str (if double then ''}}'' else ''}'') s"

definition spec_dep :: "string \<Rightarrow> env_dep" where
  "spec_dep spec =
     (case strip_suffix spec '':?'' of
        Some key \<Rightarrow> \<lparr>ed_key = key, ed_optional = False\<rparr>
      | None \<Rightarrow>
          (case split_once spec '':-'' of
             Some (key, _) \<Rightarrow> \<lparr>ed_key = key, ed_optional = True\<rparr>
           | None \<Rightarrow> \<lparr>ed_key = spec, ed_optional = False\<rparr>))"

function extract_template_keys :: "string \<Rightarrow> env_dep list" where
  "extract_template_keys s =
     (case s of
        [] \<Rightarrow> []
      | c # cs \<Rightarrow>
          let double = starts_with s ''{{''; dollar = starts_with s ''${'' in
          if \<not> (double \<or> dollar) then extract_template_keys cs
          else
            case find_close double (drop 2 s) of
              None \<Rightarrow> extract_template_keys cs
            | Some n \<Rightarrow>
                spec_dep (take n (drop 2 s)) #
                  extract_template_keys (drop (n + (if double then 4 else 3)) s))"
  by pat_completeness auto
termination by (relation "measure length") auto

declare extract_template_keys.simps [simp del]

definition env_get_deps :: "(string \<Rightarrow> string option) \<Rightarrow> compiled_node \<Rightarrow> env_dep list" where
  "env_get_deps js n =
     (case node_literal js n ''key'' of
        None \<Rightarrow> []
      | Some key \<Rightarrow> [\<lparr>ed_key = key, ed_optional = list_ex (\<lambda>a. ca_key a = ''default'') (cn_args n)\<rparr>])"

definition env_template_deps :: "(string \<Rightarrow> string option) \<Rightarrow> compiled_node \<Rightarrow> env_dep list" where
  "env_template_deps js n =
     (case node_literal js n ''value'' of None \<Rightarrow> [] | Some v \<Rightarrow> extract_template_keys v)"

definition scan_node :: "(string \<Rightarrow> string option) \<Rightarrow> compiled_node \<Rightarrow> env_dep list" where
  "scan_node js n =
     (if cn_op n \<noteq> Call then []
      else case node_literal js n ''target'' of
        None \<Rightarrow> []
      | Some t \<Rightarrow>
          if t = ''env.get'' then env_get_deps js n
          else if t = ''env.template'' then env_template_deps js n
          else [])"

definition scan_plan_env_deps :: "(string \<Rightarrow> string option) \<Rightarrow> compiled_plan \<Rightarrow> env_dep list" where
  "scan_plan_env_deps js p = concat (map (scan_node js) (cp_nodes p))"

definition subgraph_targets :: "(string \<Rightarrow> string option) \<Rightarrow> compiled_plan \<Rightarrow> string list" where
  "subgraph_targets js p =
     List.map_filter
       (\<lambda>n. if cn_op n \<noteq> Call then None
            else Option.bind (node_literal js n ''target'') (\<lambda>t. strip_prefix t ''subgraph:''))
       (cp_nodes p)"

section \<open>The documented template language\<close>

datatype placeholder =
    Plain string
  | WithDefault string string
  | Required string

datatype piece = Text string | Dollar placeholder | Braces placeholder

fun show_placeholder :: "placeholder \<Rightarrow> string" where
  "show_placeholder (Plain k) = k"
| "show_placeholder (WithDefault k d) = k @ '':-'' @ d"
| "show_placeholder (Required k) = k @ '':?''"

fun show_piece :: "piece \<Rightarrow> string" where
  "show_piece (Text t) = t"
| "show_piece (Dollar p) = ''${'' @ show_placeholder p @ ''}''"
| "show_piece (Braces p) = ''{{'' @ show_placeholder p @ ''}}''"

definition show_template :: "piece list \<Rightarrow> string" where
  "show_template ps = concat (map show_piece ps)"

text \<open>Text without \<open>$\<close> and \<open>{\<close>; keys without braces and colons; defaults without braces, which do
  not end as a required reference does.\<close>

definition free_of :: "char list \<Rightarrow> string \<Rightarrow> bool" where
  "free_of cs s \<longleftrightarrow> set s \<inter> set cs = {}"

fun placeholder_ok :: "placeholder \<Rightarrow> bool" where
  "placeholder_ok (Plain k) = free_of ''{}:'' k"
| "placeholder_ok (WithDefault k d) = (free_of ''{}:'' k \<and> free_of ''{}'' d \<and> \<not> ends_with d '':?'')"
| "placeholder_ok (Required k) = free_of ''{}:'' k"

fun piece_ok :: "piece \<Rightarrow> bool" where
  "piece_ok (Text t) = free_of ''${'' t"
| "piece_ok (Dollar p) = placeholder_ok p"
| "piece_ok (Braces p) = placeholder_ok p"

fun placeholder_value :: "(string \<Rightarrow> string option) \<Rightarrow> placeholder \<Rightarrow> env_error + string" where
  "placeholder_value get (Plain k) = Inr (case get k of Some v \<Rightarrow> v | None \<Rightarrow> [])"
| "placeholder_value get (WithDefault k d) = Inr (case get k of Some v \<Rightarrow> v | None \<Rightarrow> d)"
| "placeholder_value get (Required k) = (case get k of Some v \<Rightarrow> Inr v | None \<Rightarrow> Inl (MissingRequired k))"

fun piece_value :: "(string \<Rightarrow> string option) \<Rightarrow> piece \<Rightarrow> env_error + string" where
  "piece_value get (Text t) = Inr t"
| "piece_value get (Dollar p) = placeholder_value get p"
| "piece_value get (Braces p) = placeholder_value get p"

definition template_value :: "(string \<Rightarrow> string option) \<Rightarrow> piece list \<Rightarrow> env_error + string" where
  "template_value get ps = map_sum id concat (map_res (piece_value get) ps)"

fun placeholder_dep :: "placeholder \<Rightarrow> env_dep" where
  "placeholder_dep (Plain k) = \<lparr>ed_key = k, ed_optional = False\<rparr>"
| "placeholder_dep (WithDefault k d) = \<lparr>ed_key = k, ed_optional = True\<rparr>"
| "placeholder_dep (Required k) = \<lparr>ed_key = k, ed_optional = False\<rparr>"

fun piece_deps :: "piece \<Rightarrow> env_dep list" where
  "piece_deps (Text t) = []"
| "piece_deps (Dollar p) = [placeholder_dep p]"
| "piece_deps (Braces p) = [placeholder_dep p]"

section \<open>The two parsers on the documented language\<close>

lemma find_str_absent: "c \<notin> set s \<Longrightarrow> find_str (c # p) s = None"
  by (induction s) (auto simp: starts_with_def)

lemma find_str_here: "c \<notin> set x \<Longrightarrow> find_str (c # p) (x @ c # p @ rest) = Some (length x)"
  by (induction x) (auto simp: starts_with_def)

lemma find_str_pair: "c \<notin> set x \<Longrightarrow> d \<noteq> c \<Longrightarrow> d \<noteq> b \<Longrightarrow> find_str [c, b] (x @ [c, d]) = None"
  by (induction x) (auto simp: starts_with_def)

lemma closing_here: "free_of ''{}'' x \<Longrightarrow> closing_at 1 (x @ CHR ''}'' # rest) = Some (length x)"
  by (induction x) (auto simp: free_of_def)

lemma placeholder_free: "placeholder_ok p \<Longrightarrow> free_of ''{}'' (show_placeholder p)"
  by (cases p) (auto simp: free_of_def)

lemma resolve_spec_placeholder:
  "placeholder_ok p \<Longrightarrow> resolve_spec uni e (show_placeholder p) = placeholder_value (env_get uni e) p"
  using find_str_here [of "CHR '':''" _ "''-''"] find_str_here [of "CHR '':''" _ "''?''" "[]"]
    find_str_pair [of "CHR '':''" _ "CHR ''?''" "CHR ''-''"]
  by (cases p) (auto simp: resolve_spec_def free_of_def find_str_absent split: option.splits)

lemma not_required_suffix:
  assumes "\<not> ends_with d '':?''"
  shows "\<not> ends_with (k @ '':-'' @ d) '':?''"
proof (cases "2 \<le> length d")
  case True
  then obtain m where "length d = Suc (Suc m)" by (metis add_2_eq_Suc le_Suc_ex)
  with assms show ?thesis by (simp add: ends_with_def)
next
  case False
  then consider "d = []" | c where "d = [c]" by (cases d; cases "tl d") auto
  then show ?thesis by cases (auto simp: ends_with_def)
qed

lemma spec_dep_placeholder:
  assumes "placeholder_ok p"
  shows "spec_dep (show_placeholder p) = placeholder_dep p"
proof (cases p)
  case (Plain k)
  with assms have "CHR '':'' \<notin> set k" by (auto simp: free_of_def)
  moreover from this have "\<not> ends_with k '':?''"
    unfolding ends_with_def by (metis list.set_intros(1) set_drop_subset subsetD)
  ultimately show ?thesis using Plain
    by (simp add: spec_dep_def strip_suffix_def split_once_def find_str_absent)
next
  case (WithDefault k d)
  with assms have k: "CHR '':'' \<notin> set k" and d: "\<not> ends_with d '':?''" by (auto simp: free_of_def)
  from find_str_here [OF k, of "''-''" d] have "find_str '':-'' (k @ '':-'' @ d) = Some (length k)" by simp
  then have "split_once (k @ '':-'' @ d) '':-'' = Some (k, d)"
    by (simp add: split_once_def)
  with WithDefault not_required_suffix [OF d, of k] show ?thesis
    by (simp add: spec_dep_def strip_suffix_def)
next
  case (Required k)
  then show ?thesis by (simp add: spec_dep_def strip_suffix_def ends_with_def)
qed

lemma resolve_Nil [simp]: "resolve_template uni e [] = Inr []"
  by (subst resolve_template.simps) simp

lemma resolve_plain_char:
  "c \<noteq> CHR ''$'' \<Longrightarrow> c \<noteq> CHR ''{'' \<Longrightarrow>
     resolve_template uni e (c # cs) = map_sum id ((#) c) (resolve_template uni e cs)"
  by (subst resolve_template.simps) (simp add: starts_with_def)

lemma map_sum_comp: "map_sum id f (map_sum id g r) = map_sum id (f \<circ> g) r"
  by (cases r) simp_all

lemma resolve_text:
  "free_of ''${'' t \<Longrightarrow> resolve_template uni e (t @ rest) = map_sum id ((@) t) (resolve_template uni e rest)"
  by (cases "resolve_template uni e rest"; induction t) (auto simp: free_of_def resolve_plain_char)

lemma resolve_dollar:
  assumes "free_of ''{}'' x"
  shows "resolve_template uni e (''${'' @ x @ ''}'' @ rest) =
    bind_res (resolve_spec uni e x) (\<lambda>v. map_sum id ((@) v) (resolve_template uni e rest))"
  using closing_here [OF assms, of rest]
  by (subst resolve_template.simps) (simp add: starts_with_def find_closing_def eval_nat_numeral)

lemma resolve_braces:
  assumes "free_of ''{}'' x"
  shows "resolve_template uni e (''{{'' @ x @ ''}}'' @ rest) =
    bind_res (resolve_spec uni e x) (\<lambda>v. map_sum id ((@) v) (resolve_template uni e rest))"
  using closing_here [OF assms, of "CHR ''}'' # rest"]
  by (subst resolve_template.simps) (simp add: starts_with_def find_closing_def eval_nat_numeral)

lemma template_value_Cons:
  "template_value get (p # ps) = bind_res (piece_value get p) (\<lambda>v. map_sum id ((@) v) (template_value get ps))"
  by (cases "piece_value get p"; cases "map_res (piece_value get) ps") (simp_all add: template_value_def)

lemma resolve_pieces:
  "list_all piece_ok ps \<Longrightarrow>
     resolve_template uni e (show_template ps) = template_value (env_get uni e) ps"
proof (induction ps)
  case Nil
  show ?case by (simp add: show_template_def template_value_def)
next
  case (Cons p ps)
  then have IH: "resolve_template uni e (concat (map show_piece ps)) = template_value (env_get uni e) ps"
    by (simp add: show_template_def)
  show ?case
    using Cons.prems placeholder_free resolve_spec_placeholder
    by (cases p) (simp_all add: show_template_def template_value_Cons resolve_text IH
      resolve_dollar [simplified] resolve_braces [simplified])
qed

lemma extract_Nil [simp]: "extract_template_keys [] = []"
  by (subst extract_template_keys.simps) simp

lemma extract_text: "free_of ''${'' t \<Longrightarrow> extract_template_keys (t @ rest) = extract_template_keys rest"
  by (induction t) (auto simp: free_of_def starts_with_def Let_def extract_template_keys.simps [of "_ # _"])

lemma extract_dollar:
  assumes "free_of ''{}'' x"
  shows "extract_template_keys (''${'' @ x @ ''}'' @ rest) = spec_dep x # extract_template_keys rest"
proof -
  have "CHR ''}'' \<notin> set x" using assms by (auto simp: free_of_def)
  from find_str_here [OF this, of "[]" rest] show ?thesis
    by (subst extract_template_keys.simps) (simp add: starts_with_def find_close_def eval_nat_numeral)
qed

lemma extract_braces:
  assumes "free_of ''{}'' x"
  shows "extract_template_keys (''{{'' @ x @ ''}}'' @ rest) = spec_dep x # extract_template_keys rest"
proof -
  have "CHR ''}'' \<notin> set x" using assms by (auto simp: free_of_def)
  from find_str_here [OF this, of "''}''" rest] show ?thesis
    by (subst extract_template_keys.simps) (simp add: starts_with_def find_close_def eval_nat_numeral)
qed

lemma extract_pieces:
  "list_all piece_ok ps \<Longrightarrow> extract_template_keys (show_template ps) = concat (map piece_deps ps)"
proof (induction ps)
  case Nil
  show ?case by (simp add: show_template_def)
next
  case (Cons p ps)
  then have IH: "extract_template_keys (concat (map show_piece ps)) = concat (map piece_deps ps)"
    by (simp add: show_template_def)
  show ?case
    using Cons.prems placeholder_free spec_dep_placeholder
    by (cases p) (simp_all add: show_template_def extract_text IH
      extract_dollar [simplified] extract_braces [simplified])
qed

section \<open>What the check before a run guarantees\<close>



text \<open>Outside the documented language the scanner misses requirements: a template whose braces are
  closed only once needs no variable for the scanner, while resolving it fails on the required
  variable; an escaped reference is never resolved but the scanner asks for its variable.\<close>

theorem scan_misses_requirements:
  "(extract_template_keys ''{{A:?}'' = [] \<and>
    resolve_template uni env_empty ''{{A:?}'' = Inl (MissingRequired ''A'')) \<and>
   (extract_template_keys ''$${A:?}'' = [\<lparr>ed_key = ''A'', ed_optional = False\<rparr>] \<and>
    resolve_template uni env_empty ''$${A:?}'' = Inr ''${A:?}'')"
proof -
  have none: "env_get uni env_empty k = None" for k
    by (simp add: env_get_def env_empty_def env_new_def env_lookup_def)
  note steps = starts_with_def find_close_def find_closing_def spec_dep_def strip_suffix_def ends_with_def
    resolve_spec_def none eval_nat_numeral
  have "extract_template_keys ''{{A:?}'' = []"
    by (simp add: extract_template_keys.simps [of "_ # _"] steps)
  moreover have "resolve_template uni env_empty ''{{A:?}'' = Inl (MissingRequired ''A'')"
    by (simp add: resolve_template.simps [of _ _ "_ # _"] steps)
  moreover have "extract_template_keys ''$${A:?}'' = [\<lparr>ed_key = ''A'', ed_optional = False\<rparr>]"
    by (simp add: extract_template_keys.simps [of "_ # _"] steps)
  moreover have "resolve_template uni env_empty ''$${A:?}'' = Inr ''${A:?}''"
    by (simp add: resolve_template.simps [of _ _ "_ # _"] steps)
  ultimately show ?thesis by simp
qed

end
