(* ===== verification/Registry.thy ===== *)
theory Registry
  imports Storage EnvDeps Codegen Pause
begin

text \<open>
  Where the calls of a running plan go: the tool table (\<open>mock.rs\<close>) and the registry that runs
  \<open>subgraph:\<close> targets as plans of their own (\<open>registry.rs\<close>), with the check of environment
  variables before a run.  The parameters of \<open>registry_io\<close> are the decoder of JSON string literals
  (\<open>serde_json\<close>), the FlatBuffers decoder and encoder, the parser and code generator inputs of the
  compiler, \<open>str::to_uppercase\<close> outside ASCII, and the clock of the database.  Functions of the world
  are pure, so the plan cache and the plans recompiled on the way are not carried from one call of
  a run to the next; recompiling gives the same plan again.
\<close>

section \<open>Errors\<close>

datatype dispatch_error =
    ToolNotFound string
  | ExecutionFailed string
  | DispatchTimeout nat
  | DispatchInternal string

definition quoted :: "string \<Rightarrow> string" where
  "quoted s = [CHR 0x27] @ s @ [CHR 0x27]"

fun show_dispatch_error :: "dispatch_error \<Rightarrow> string" where
  "show_dispatch_error (ToolNotFound s) = ''Tool '' @ quoted s @ '' not found''"
| "show_dispatch_error (ExecutionFailed s) = ''Execution failed: '' @ s"
| "show_dispatch_error (DispatchTimeout n) = ''Timeout after '' @ show_nat n @ ''ms''"
| "show_dispatch_error (DispatchInternal s) = ''Dispatch internal error: '' @ s"

fun show_storage_error :: "storage_error \<Rightarrow> string" where
  "show_storage_error (GraphNotFound i) = ''Graph '' @ quoted i @ '' not found''"
| "show_storage_error (VersionNotFound v i) =
     ''Version '' @ version_tag v @ '' not found for graph '' @ quoted i"
| "show_storage_error (PlanMissing i) =
     ''Graph '' @ quoted i @ '' has no stored plan (created before plan persistence; recompile)''"
| "show_storage_error (PlanVersionMissing v i) =
     ''Version '' @ version_tag v @ '' of graph '' @ quoted i @
     '' has no stored plan (created before plan persistence)''"
| "show_storage_error (ExecutionNotFound i) = ''Execution '' @ quoted i @ '' not found''"
| "show_storage_error (StorageInternal s) = ''Storage internal error: '' @ s"

fun show_exec_error :: "exec_error \<Rightarrow> string" where
  "show_exec_error CycleDetected = ''Plan contains a cycle''"
| "show_exec_error (NodeNotFound s) = ''Node '' @ quoted s @ '' not found''"
| "show_exec_error (VariableNotFound s) = ''Variable '' @ quoted s @ '' not found in context''"
| "show_exec_error (CallFailed t e) = ''CALL dispatch failed for '' @ quoted t @ '': '' @ e"
| "show_exec_error (EvalError s) = ''Expression evaluation failed: '' @ s"
| "show_exec_error (LoopLimitExceeded n) = ''LOOP iteration limit ('' @ show_nat n @ '') exceeded''"
| "show_exec_error (TimeLimitExceeded n) = ''Execution time limit ('' @ show_nat n @ ''ms) exceeded''"
| "show_exec_error (MemoryLimitExceeded a b) =
     ''Context memory limit ('' @ show_nat a @ '' bytes) exceeded (approx '' @ show_nat b @ '' bytes)''"
| "show_exec_error (NodeBudgetExceeded a b) =
     ''Node execution count ('' @ show_nat a @ '') exceeded plan budget ('' @ show_nat b @ '')''"
| "show_exec_error (RecursionDepthExceeded a b) =
     ''Subgraph recursion depth ('' @ show_nat a @ '') exceeded max ('' @ show_nat b @ '')''"
| "show_exec_error (RecursionLimitExceeded s) = ''Subgraph recursion limit exceeded for '' @ quoted s"
| "show_exec_error (Custom s) = s"
| "show_exec_error (VersionMismatch s) = ''IR version mismatch: '' @ s"
| "show_exec_error (SchemaDriftDetected t a b) =
     ''Schema drift detected for tool '' @ quoted t @ '': compiled hash '' @ quoted a @
     '' != registry hash '' @ quoted b"
| "show_exec_error OutOfFuel = ''out of fuel''"

section \<open>Tools\<close>

type_synonym tool_fn = "tp_value list \<Rightarrow> tp_value smap \<Rightarrow> env \<Rightarrow> string + tp_value"

record tool_call =
  ct_name :: string
  ct_args :: "tp_value list"
  ct_kwargs :: "tp_value smap"

record tool_spec =
  ts_name :: string
  ts_description :: string
  ts_input :: json
  ts_output :: json
  ts_pure :: bool
  ts_version :: string
  ts_schema_hash :: string

record mock_tool =
  mt_name :: string
  mt_description :: string
  mt_input :: json
  mt_output :: json
  mt_pure :: bool
  mt_exec :: tool_fn

type_synonym tools = "mock_tool smap"

definition add_with_schema :: "string \<Rightarrow> json \<Rightarrow> json \<Rightarrow> bool \<Rightarrow> tool_fn \<Rightarrow> tools \<Rightarrow> tools" where
  "add_with_schema name inp outp pure f ts =
     upd name \<lparr>mt_name = name, mt_description = [], mt_input = inp, mt_output = outp, mt_pure = pure, mt_exec = f\<rparr> ts"

definition add_tool :: "string \<Rightarrow> tool_fn \<Rightarrow> tools \<Rightarrow> tools" where
  "add_tool name f ts =
     upd name \<lparr>mt_name = name, mt_description = [], mt_input = JNull, mt_output = JNull, mt_pure = False, mt_exec = f\<rparr> ts"

definition tool_names :: "tools \<Rightarrow> string list" where
  "tool_names ts = sort (map fst ts)"

definition mock_resolve :: "tools \<Rightarrow> string \<Rightarrow> string + tool_spec" where
  "mock_resolve ts name =
     (case map_of ts name of
        None \<Rightarrow> Inl (''Tool '' @ quoted name @ '' not found'')
      | Some t \<Rightarrow> Inr \<lparr>ts_name = mt_name t, ts_description = mt_description t, ts_input = mt_input t,
           ts_output = mt_output t, ts_pure = mt_pure t, ts_version = ''0.0.0'', ts_schema_hash = ''mock''\<rparr>)"

definition mock_dispatch :: "tools \<Rightarrow> tool_call \<Rightarrow> env \<Rightarrow> dispatch_error + tp_value" where
  "mock_dispatch ts call e =
     (case map_of ts (ct_name call) of
        None \<Rightarrow> Inl (ToolNotFound (ct_name call))
      | Some t \<Rightarrow> map_sum ExecutionFailed id (mt_exec t (ct_args call) (ct_kwargs call) e))"

definition mock_execute_subgraph :: "tools \<Rightarrow> string \<Rightarrow> env \<Rightarrow> dispatch_error + tp_context \<times> tp_value" where
  "mock_execute_subgraph ts name e =
     (if contains name ''echo'' then
        case map_of ts ''echo'' of
          None \<Rightarrow> Inl (ToolNotFound ''echo'')
        | Some t \<Rightarrow>
            (case mt_exec t [VString ''echo!''] [] e of
               Inl m \<Rightarrow> Inl (ExecutionFailed m)
             | Inr v \<Rightarrow> Inr (ctx_set ''output'' v context_new, v))
      else Inl (ToolNotFound name))"

definition mock_schema_hash :: "string \<Rightarrow> string + string" where
  "mock_schema_hash name = Inr ''mock''"

section \<open>Graphs and their plans\<close>

record registry_io =
  rg_literal :: "string \<Rightarrow> string option"
  rg_root :: "blob \<Rightarrow> string + fb_plan"
  rg_encode :: "fb_plan \<Rightarrow> blob"
  rg_frontend :: frontend
  rg_codegen :: codegen_io
  rg_upper :: "string \<Rightarrow> string"
  rg_now :: string

definition resolve_graph :: "string \<Rightarrow> db \<Rightarrow> dispatch_error + graph_definition" where
  "resolve_graph input d =
     (case find_graph_by_name input d of
        Inr g \<Rightarrow> Inr g
      | Inl (GraphNotFound _) \<Rightarrow>
          (case load_graph input d of
             Inr g \<Rightarrow> Inr g
           | Inl (GraphNotFound _) \<Rightarrow> Inl (ToolNotFound (''graph '' @ quoted input))
           | Inl e \<Rightarrow> Inl (ExecutionFailed (show_storage_error e)))
      | Inl e \<Rightarrow> Inl (ExecutionFailed (show_storage_error e)))"

definition compile_blob :: "registry_io \<Rightarrow> string \<Rightarrow> string + blob" where
  "compile_blob io code =
     map_sum id co_binary (compile (rg_frontend io) (rg_codegen io) (rg_encode io) length code)"

text \<open>The bytes of the plan of a graph, recompiled and stored when none is stored.\<close>

definition plan_bytes :: "registry_io \<Rightarrow> graph_definition \<Rightarrow> db \<Rightarrow> db \<times> (dispatch_error + blob)" where
  "plan_bytes io g d =
     (let recompile =
        (case compile_blob io (gd_code g) of
           Inl e \<Rightarrow> (d, Inl (ExecutionFailed (''recompile: '' @ e)))
         | Inr b \<Rightarrow>
             (case save_plan (rg_now io) (gd_id g) (gd_version g) b d of
                (d', Inl e) \<Rightarrow> (d', Inl (ExecutionFailed (show_storage_error e)))
              | (d', Inr _) \<Rightarrow> (d', Inr b)))
      in case load_plan_version (gd_id g) (gd_version g) d of
           Inr b \<Rightarrow> (d, Inr b)
         | Inl (PlanMissing _) \<Rightarrow> recompile
         | Inl (PlanVersionMissing _ _) \<Rightarrow> recompile
         | Inl e \<Rightarrow> (d, Inl (ExecutionFailed (show_storage_error e))))"

type_synonym plan_cache = "(nat \<times> compiled_plan) smap"

definition load_cached_plan ::
  "registry_io \<Rightarrow> graph_definition \<Rightarrow> db \<times> plan_cache \<Rightarrow> (db \<times> plan_cache) \<times> (dispatch_error + compiled_plan)" where
  "load_cached_plan io g s =
     (case s of (d, cache) \<Rightarrow>
        let load =
          (case plan_bytes io g d of
             (d', Inl e) \<Rightarrow> ((d', cache), Inl e)
           | (d', Inr b) \<Rightarrow>
               (case from_fb_bytes (rg_root io) b of
                  Inl m \<Rightarrow> ((d', cache), Inl (ExecutionFailed (''plan decode: '' @ m)))
                | Inr p \<Rightarrow> ((d', upd (gd_id g) (gd_version g, p) cache), Inr p)))
        in case map_of cache (gd_id g) of
             Some (v, p) \<Rightarrow> if v = gd_version g then (s, Inr p) else load
           | None \<Rightarrow> load)"

section \<open>The check of environment variables\<close>

record env_report =
  rp_path :: string
  rp_missing :: "string list"

record env_scan =
  es_store :: "db \<times> plan_cache"
  es_visited :: "string set"
  es_reports :: "env_report list"

definition arrow :: string where
  "arrow = '' '' @ [CHR 0xE2, CHR 0x86, CHR 0x92] @ '' ''"

definition missing_keys :: "registry_io \<Rightarrow> env \<Rightarrow> compiled_plan \<Rightarrow> string list" where
  "missing_keys io e p =
     map ed_key (filter (\<lambda>d. \<not> ed_optional d \<and> env_get (rg_upper io) e (ed_key d) = None)
       (scan_plan_env_deps (rg_literal io) p))"

text \<open>One step of the loop over the subgraphs of a plan, stopping at the first error; \<open>None\<close> is a
  recursion deeper than the fuel.\<close>

fun scan_subgraphs ::
  "(string \<Rightarrow> env_scan \<Rightarrow> (env_scan \<times> (dispatch_error + unit)) option) \<Rightarrow> string list \<Rightarrow> env_scan \<Rightarrow>
     (env_scan \<times> (dispatch_error + unit)) option" where
  "scan_subgraphs f [] s = Some (s, Inr ())"
| "scan_subgraphs f (n # ns) s =
     (case f n s of
        None \<Rightarrow> None
      | Some (s', Inl e) \<Rightarrow> Some (s', Inl e)
      | Some (s', Inr _) \<Rightarrow> scan_subgraphs f ns s')"

fun validate_graph_env ::
  "nat \<Rightarrow> registry_io \<Rightarrow> env \<Rightarrow> string \<Rightarrow> string \<Rightarrow> env_scan \<Rightarrow> (env_scan \<times> (dispatch_error + unit)) option" where
  "validate_graph_env 0 io e path name s = None"
| "validate_graph_env (Suc k) io e path name s =
     (case resolve_graph name (fst (es_store s)) of
        Inl err \<Rightarrow> Some (s, Inl err)
      | Inr g \<Rightarrow>
          if gd_id g \<in> es_visited s then Some (s, Inr ())
          else
            (case load_cached_plan io g (es_store s) of
               (st, Inl err) \<Rightarrow> Some (s\<lparr>es_store := st, es_visited := insert (gd_id g) (es_visited s)\<rparr>, Inl err)
             | (st, Inr p) \<Rightarrow>
                 let missing = missing_keys io e p;
                     reports = (if missing = [] then es_reports s
                       else es_reports s @ [\<lparr>rp_path = path @ gd_name g, rp_missing = missing\<rparr>])
                 in scan_subgraphs (validate_graph_env k io e (path @ gd_name g @ arrow))
                      (subgraph_targets (rg_literal io) p)
                      \<lparr>es_store = st, es_visited = insert (gd_id g) (es_visited s), es_reports = reports\<rparr>))"

text \<open>The fuel is the number of graphs, and one.\<close>

definition validate_env ::
  "registry_io \<Rightarrow> string \<Rightarrow> env \<Rightarrow> db \<times> plan_cache \<Rightarrow> ((db \<times> plan_cache) \<times> (dispatch_error + env_report list)) option" where
  "validate_env io root e s =
     map_option (\<lambda>(s', r). (es_store s', map_sum id (\<lambda>_. es_reports s') r))
       (validate_graph_env (Suc (length (db_graphs (fst s)))) io e [] root
         \<lparr>es_store = s, es_visited = {}, es_reports = []\<rparr>)"

section \<open>Running subgraphs\<close>

text \<open>
  The world of a run in this registry: its clock and codecs are those of \<open>base\<close>, tools get the
  environment of the executor, and \<open>subgraph:\<close> targets run with a scoped environment.  The fuel bounds
  how deep runs nest; the code has no bound, and a run that exhausts the fuel shows in the error.
\<close>

definition registry_world ::
  "(env \<Rightarrow> string \<Rightarrow> tp_context \<Rightarrow> dispatch_error + tp_context \<times> tp_value) \<Rightarrow> world \<Rightarrow> tools \<Rightarrow> env \<Rightarrow> world" where
  "registry_world sub base ts e =
     base\<lparr>w_dispatch := (\<lambda>_ name kw _.
            map_sum show_dispatch_error id (mock_dispatch ts \<lparr>ct_name = name, ct_args = [], ct_kwargs = kw\<rparr> e)),
          w_subgraph := (\<lambda>_ name c. map_sum show_dispatch_error id (sub e name c)),
          w_schema_hash := (\<lambda>_ name. mock_schema_hash name)\<rparr>"

primrec run_subgraph ::
  "nat \<Rightarrow> registry_io \<Rightarrow> world \<Rightarrow> tools \<Rightarrow> db \<times> plan_cache \<Rightarrow> env \<Rightarrow> string \<Rightarrow> tp_context \<Rightarrow>
     dispatch_error + tp_context \<times> tp_value" where
  "run_subgraph 0 io base ts s e name input = Inl (DispatchInternal ''out of fuel'')"
| "run_subgraph (Suc k) io base ts s e name input =
     (case resolve_graph name (fst s) of
        Inl err \<Rightarrow> Inl err
      | Inr g \<Rightarrow>
          (case load_cached_plan io g s of
             (_, Inl err) \<Rightarrow> Inl err
           | (s', Inr p) \<Rightarrow>
               (case execute p (registry_world (run_subgraph k io base ts s') base ts (env_scoped (rg_upper io) e name)) input of
                  Inl err \<Rightarrow> Inl (ExecutionFailed (show_exec_error err))
                | Inr r \<Rightarrow> Inr (er_context r, case er_output r of Some v \<Rightarrow> v | None \<Rightarrow> VNull))))"

end
