(* ===== verification/Meta.thy ===== *)
theory Meta
  imports Env Values "HOL-Library.List_Lexorder" "HOL-Library.Char_ord"
begin

text \<open>
  The publishing contract of a graph (\<open>tinypipe-server/src/meta.rs\<close>): the \<open>http_*\<close> keys of its
  \<open>META\<close> object.  The parameters of \<open>meta_io\<close> are the JSON parser and \<open>Number::as_u64\<close> of
  \<open>serde_json\<close> and the case mappings of strings that are not ASCII.
\<close>

section \<open>Routes\<close>

datatype route_method = Get | Post | Put | Patch | Delete | Head | Options

record route_config =
  rc_graph :: string
  rc_path :: string
  rc_method :: route_method
  rc_public :: bool
  rc_timeout_ms :: nat
  rc_cache_ttl :: nat

fun method_text :: "route_method \<Rightarrow> string" where
  "method_text Get = ''GET''"
| "method_text Post = ''POST''"
| "method_text Put = ''PUT''"
| "method_text Patch = ''PATCH''"
| "method_text Delete = ''DELETE''"
| "method_text Head = ''HEAD''"
| "method_text Options = ''OPTIONS''"

definition all_methods :: "route_method list" where
  "all_methods = [Get, Post, Put, Patch, Delete, Head, Options]"

definition route_key :: "string \<Rightarrow> route_method \<Rightarrow> string" where
  "route_key path m = path @ [CHR 0x01] @ method_text m"

section \<open>The contract\<close>

record meta_io =
  mi_parse :: "string \<Rightarrow> string + json"
  mi_as_u64 :: "i64 option \<Rightarrow> f64 option \<Rightarrow> nat option"
  mi_lower :: "string \<Rightarrow> string"
  mi_upper :: "string \<Rightarrow> string"

definition to_lowercase :: "(string \<Rightarrow> string) \<Rightarrow> string \<Rightarrow> string" where
  "to_lowercase uni s = (if is_ascii s then map ascii_lower s else uni s)"

definition required_keys :: "string list" where
  "required_keys = [''http_route'', ''http_method'', ''http_public'', ''http_timeout_ms'', ''http_cache_ttl'']"

definition graph_tag :: "string \<Rightarrow> string" where
  "graph_tag name = ''graph '' @ [squote] @ name @ [squote] @ '': ''"

definition ticked :: "string \<Rightarrow> string" where
  "ticked s = [CHR 0x60] @ s @ [CHR 0x60]"

definition got :: "string \<Rightarrow> string" where
  "got s = '' (got '' @ [dquote] @ s @ [dquote] @ '')''"

definition unknown_keys :: "(string \<times> json) list \<Rightarrow> string list" where
  "unknown_keys obj =
     sort (filter (\<lambda>k. starts_with k ''http_'' \<and> k \<notin> set required_keys) (map fst obj))"

definition missing_required :: "(string \<times> json) list \<Rightarrow> string list" where
  "missing_required obj = filter (\<lambda>k. map_of obj k = None \<or> map_of obj k = Some JNull) required_keys"

definition reserved_path :: "string \<Rightarrow> bool" where
  "reserved_path lower \<longleftrightarrow>
     starts_with lower ''api'' \<or> starts_with lower ''healthz'' \<or> starts_with lower ''assets'' \<or>
     starts_with lower ''static''"

definition path_char :: "char \<Rightarrow> bool" where
  "path_char c \<longleftrightarrow> is_ascii_alphabetic c \<or> is_digit c \<or> c \<in> set ''/-_.~''"

text \<open>The code point at the head of a string: its first byte and the continuation bytes after it.\<close>

definition head_char :: "string \<Rightarrow> string" where
  "head_char s =
     (case s of [] \<Rightarrow> []
      | c # cs \<Rightarrow> c # takeWhile (\<lambda>b. 128 \<le> (of_char b :: nat) \<and> (of_char b :: nat) < 192) cs)"

definition route_path :: "meta_io \<Rightarrow> string \<Rightarrow> (string \<times> json) list \<Rightarrow> string + string" where
  "route_path io name obj =
     (case map_of obj ''http_route'' of
        Some (JString raw) \<Rightarrow>
          (let path = trim_start_matches ''/'' (trim raw) in
           if path = [] then Inl (graph_tag name @ ticked ''http_route'' @ '' must not be empty'')
           else if 128 < length path then Inl (graph_tag name @ ticked ''http_route'' @ '' too long (max 128)'')
           else if reserved_path (to_lowercase (mi_lower io) path) then
             Inl (graph_tag name @ ticked ''http_route'' @ '' '' @ [squote] @ ''/'' @ path @ [squote] @
               '' collides with a reserved path (api/healthz/assets/static)'')
           else case dropWhile path_char path of
               [] \<Rightarrow> Inr path
             | bad \<Rightarrow> Inl (graph_tag name @ ticked ''http_route'' @ '' '' @ [squote] @ ''/'' @ path @ [squote] @
                 '' contains invalid character '' @ [squote] @ head_char bad @ [squote]))
      | _ \<Rightarrow> Inl (graph_tag name @ ticked ''http_route'' @ '' must be a string''))"

definition route_method_of :: "meta_io \<Rightarrow> string \<Rightarrow> (string \<times> json) list \<Rightarrow> string + route_method" where
  "route_method_of io name obj =
     (let required = Inl (graph_tag name @ ticked ''http_method'' @
            '' is required (no default; missing keys are reported above)'') in
      case map_of obj ''http_method'' of
        None \<Rightarrow> required
      | Some JNull \<Rightarrow> required
      | Some (JString s) \<Rightarrow>
          (let u = to_uppercase (mi_upper io) s in
           if u = ''GET'' then Inr Get
           else if u = ''POST'' then Inr Post
           else if u = ''PUT'' then Inr Put
           else if u = ''PATCH'' then Inr Patch
           else if u = ''DELETE'' then Inr Delete
           else if u = ''HEAD'' then Inr Head
           else if u = ''OPTIONS'' then
             Inl (graph_tag name @ ticked ''http_method'' @
               '' OPTIONS is served automatically as CORS preflight; publish a different method'')
           else Inl (graph_tag name @ ticked ''http_method'' @
               '' must be GET, POST, PUT, PATCH, DELETE, HEAD or OPTIONS'' @ got u))
      | Some _ \<Rightarrow>
          Inl (graph_tag name @ ticked ''http_method'' @
            '' must be a string (GET, POST, PUT, PATCH, DELETE, HEAD or OPTIONS)''))"

definition route_public_of :: "string \<Rightarrow> (string \<times> json) list \<Rightarrow> string + bool" where
  "route_public_of name obj =
     (case map_of obj ''http_public'' of
        None \<Rightarrow> Inr False
      | Some JNull \<Rightarrow> Inr False
      | Some (JBool b) \<Rightarrow> Inr b
      | Some (JString s) \<Rightarrow>
          (let l = map ascii_lower s in
           if l \<in> {''true'', ''1'', ''yes'', ''on''} then Inr True
           else if l \<in> {''false'', ''0'', ''no'', ''off'', []} then Inr False
           else Inl (graph_tag name @ ticked ''http_public'' @ '' must be a boolean'' @ got l))
      | Some _ \<Rightarrow> Inl (graph_tag name @ ticked ''http_public'' @ '' must be a boolean''))"

definition bounded_u32 :: "string \<Rightarrow> string \<Rightarrow> nat \<Rightarrow> string + nat" where
  "bounded_u32 name key v =
     (if u32_max < v then Inl (graph_tag name @ ticked key @ '' too large (max '' @ show_nat u32_max @ '')'')
      else Inr v)"

text \<open>\<open>http_timeout_ms\<close> (unit \<open>ms\<close>) and \<open>http_cache_ttl\<close> (unit \<open>seconds\<close>).\<close>

definition route_number :: "meta_io \<Rightarrow> string \<Rightarrow> string \<Rightarrow> string \<Rightarrow> (string \<times> json) list \<Rightarrow> string + nat" where
  "route_number io name key unit obj =
     (case map_of obj key of
        None \<Rightarrow> Inr 0
      | Some JNull \<Rightarrow> Inr 0
      | Some (JNumber i f) \<Rightarrow>
          (case mi_as_u64 io i f of
             None \<Rightarrow> Inl (graph_tag name @ ticked key @ '' must be a non-negative integer'')
           | Some v \<Rightarrow> bounded_u32 name key v)
      | Some (JString s) \<Rightarrow>
          (case parse_usize (trim s) of
             None \<Rightarrow> Inl (graph_tag name @ ticked key @ '' must be an integer'' @ got s)
           | Some v \<Rightarrow> bounded_u32 name key v)
      | Some _ \<Rightarrow> Inl (graph_tag name @ ticked key @ '' must be an integer ('' @ unit @ '')''))"

definition route_of_keys :: "meta_io \<Rightarrow> string \<Rightarrow> (string \<times> json) list \<Rightarrow> string + route_config" where
  "route_of_keys io name obj =
     bind_res (route_path io name obj) (\<lambda>path.
     bind_res (route_method_of io name obj) (\<lambda>m.
     bind_res (route_public_of name obj) (\<lambda>public.
     bind_res (route_number io name ''http_timeout_ms'' ''ms'' obj) (\<lambda>timeout.
     bind_res (route_number io name ''http_cache_ttl'' ''seconds'' obj) (\<lambda>ttl.
       Inr \<lparr>rc_graph = [], rc_path = path, rc_method = m, rc_public = public, rc_timeout_ms = timeout,
            rc_cache_ttl = ttl\<rparr>)))))"

definition parse_route_config :: "meta_io \<Rightarrow> string \<Rightarrow> string \<Rightarrow> string + route_config option" where
  "parse_route_config io meta name =
     (if trim meta = [] then Inr None
      else case mi_parse io meta of
          Inl e \<Rightarrow> Inl (graph_tag name @ ''invalid META JSON: '' @ e)
        | Inr (JObject obj) \<Rightarrow>
            if unknown_keys obj \<noteq> [] then
              Inl (graph_tag name @ ''unknown http_* META keys: '' @ join '', '' (unknown_keys obj))
            else if \<not> list_ex (\<lambda>(k, _). starts_with k ''http_'') obj then Inr None
            else if missing_required obj \<noteq> [] then
              Inl (graph_tag name @ ''publishing requires all http_* keys (missing: '' @
                join '', '' (missing_required obj) @ '')'')
            else map_sum id Some (route_of_keys io name obj)
        | Inr _ \<Rightarrow> Inl (graph_tag name @ ''META must be a JSON object''))"

section \<open>What a published route is\<close>

definition route_ok :: "route_config \<Rightarrow> bool" where
  "route_ok rc \<longleftrightarrow>
     rc_path rc \<noteq> [] \<and> length (rc_path rc) \<le> 128 \<and> list_all path_char (rc_path rc) \<and>
     hd (rc_path rc) \<noteq> CHR ''/'' \<and> \<not> reserved_path (map ascii_lower (rc_path rc)) \<and>
     rc_method rc \<noteq> Options \<and> rc_timeout_ms rc \<le> u32_max \<and> rc_cache_ttl rc \<le> u32_max"

lemma method_text_inj: "method_text m = method_text m' \<Longrightarrow> m = m'"
  by (cases m; cases m') simp_all

lemma path_char_not_key: "path_char c \<Longrightarrow> c \<noteq> CHR 0x01"
  by (auto simp: path_char_def is_ascii_alphabetic_def is_digit_def)

lemma path_char_ascii: "path_char c \<Longrightarrow> (of_char c :: nat) < 128"
  by (auto simp: path_char_def is_ascii_alphabetic_def is_digit_def Let_def)

lemma append_sep_inj:
  assumes "xs @ [c] @ ys = xs' @ [c] @ ys'" "c \<notin> set xs" "c \<notin> set xs'"
  shows "xs = xs' \<and> ys = ys'"
  using assms by (induction xs arbitrary: xs') (auto simp: Cons_eq_append_conv append_eq_Cons_conv)

lemma route_key_inj:
  assumes "route_key p m = route_key p' m'" "list_all path_char p" "list_all path_char p'"
  shows "p = p' \<and> m = m'"
proof -
  have "CHR 0x01 \<notin> set p" "CHR 0x01 \<notin> set p'"
    using assms(2,3) path_char_not_key by (auto simp: list_all_iff)
  from append_sep_inj [OF assms(1) [unfolded route_key_def] this] show ?thesis
    using method_text_inj by blast
qed

lemma trim_start_matches_no_prefix: "p \<noteq> [] \<Longrightarrow> \<not> starts_with (trim_start_matches p s) p"
  by (induction p s rule: trim_start_matches.induct) (subst trim_start_matches.simps, simp)

lemma route_path_ok:
  assumes "route_path io name obj = Inr p"
  shows "p \<noteq> [] \<and> length p \<le> 128 \<and> list_all path_char p \<and> hd p \<noteq> CHR ''/'' \<and>
    \<not> reserved_path (map ascii_lower p)"
proof -
  from assms obtain raw where p: "p = trim_start_matches ''/'' (trim raw)" "p \<noteq> []" "length p \<le> 128"
    "\<not> reserved_path (to_lowercase (mi_lower io) p)" "dropWhile path_char p = []"
    by (auto simp: route_path_def Let_def split: option.splits json.splits if_splits list.splits)
  from p(5) have all: "list_all path_char p" by (simp add: dropWhile_eq_Nil_conv list_all_iff)
  then have "is_ascii p" using path_char_ascii by (auto simp: is_ascii_def list_all_iff)
  moreover from trim_start_matches_no_prefix [of "''/''" "trim raw"] p(1,2) have "hd p \<noteq> CHR ''/''"
    by (auto simp: starts_with_def take_Suc)
  ultimately show ?thesis using p all by (simp add: to_lowercase_def)
qed

lemma route_method_ok: "route_method_of io name obj = Inr m \<Longrightarrow> m \<noteq> Options"
  by (auto simp: route_method_of_def Let_def split: option.splits json.splits if_splits)

lemma bounded_u32_ok: "bounded_u32 name key v = Inr n \<Longrightarrow> n \<le> u32_max"
  by (auto simp: bounded_u32_def split: if_splits)

lemma route_number_ok: "route_number io name key unit obj = Inr n \<Longrightarrow> n \<le> u32_max"
  by (auto simp: route_number_def bounded_u32_ok split: option.splits json.splits)

lemma route_of_keys_ok: "route_of_keys io name obj = Inr rc \<Longrightarrow> route_ok rc"
  using route_path_ok route_method_ok route_number_ok
  by (fastforce simp: route_of_keys_def route_ok_def bind_res_Inr)

lemma parsed_route_ok: "parse_route_config io meta name = Inr (Some rc) \<Longrightarrow> route_ok rc"
  by (auto simp: parse_route_config_def route_of_keys_ok map_sum_def
      split: if_splits sum.splits json.splits)

lemma route_key_ok_inj:
  "route_key (rc_path r) (rc_method r) = route_key (rc_path r') (rc_method r') \<Longrightarrow> route_ok r \<Longrightarrow> route_ok r' \<Longrightarrow>
     rc_path r = rc_path r' \<and> rc_method r = rc_method r'"
  by (simp add: route_ok_def route_key_inj)

end
