(* ===== verification/PlanView.thy ===== *)
theory PlanView
  imports Plans
begin

text \<open>
  How plans are shown (\<open>tinypipe-ir/src/plan_view.rs\<close>): labels of nodes, hidden nodes and the edges
  drawn around them, groups folded into single nodes, and the Mermaid and DOT texts.  A rendering
  is \<open>None\<close> when the code does not return: a slice inside a code point panics, and the walks around
  hidden nodes do not end on a cycle of them.  \<open>upc\<close> is the first code point of
  \<open>char::to_uppercase\<close> of a code point that is not ASCII.
\<close>

section \<open>Options\<close>

datatype view_level = Full | Summary | Layers

definition parse_view :: "string \<Rightarrow> view_level option" where
  "parse_view s =
     (if s = ''full'' then Some Full else if s = ''summary'' then Some Summary
      else if s = ''layers'' then Some Layers else None)"

fun view_text :: "view_level \<Rightarrow> string" where
  "view_text Full = ''full''"
| "view_text Summary = ''summary''"
| "view_text Layers = ''layers''"

datatype direction = Td | Lr

definition parse_direction :: "string \<Rightarrow> direction option" where
  "parse_direction s = (if s = ''td'' then Some Td else if s = ''lr'' then Some Lr else None)"

fun direction_text :: "direction \<Rightarrow> string" where
  "direction_text Td = ''td''"
| "direction_text Lr = ''lr''"

record render_options =
  ro_view :: view_level
  ro_direction :: direction
  ro_numbered :: bool

definition render_options_default :: render_options where
  "render_options_default = \<lparr>ro_view = Full, ro_direction = Td, ro_numbered = True\<rparr>"

section \<open>The graph that is drawn\<close>

datatype shape = DefaultShape | Rounded | Diamond | Stadium

record view_node =
  vn_index :: u32
  vn_label :: string
  vn_shape :: shape
  vn_group :: "u32 option"

record view_edge =
  ve_from :: u32
  ve_to :: u32
  ve_label :: "string option"
  ve_control :: bool

record view_graph =
  vg_nodes :: "view_node list"
  vg_edges :: "view_edge list"
  vg_groups :: "string list"

section \<open>Labels\<close>

definition view_trim_quotes :: "string \<Rightarrow> string" where
  "view_trim_quotes s = trim_matches (\<lambda>c. c = dquote \<or> c = squote \<or> c = backslash) s"

definition view_arg :: "compiled_node \<Rightarrow> string \<Rightarrow> string option" where
  "view_arg n k = map_option (\<lambda>a. view_trim_quotes (ca_value a)) (find (\<lambda>a. ca_key a = k) (cn_args n))"

definition view_arg_or :: "compiled_node \<Rightarrow> string \<Rightarrow> string" where
  "view_arg_or n k = (case view_arg n k of Some v \<Rightarrow> v | None \<Rightarrow> [])"

definition continuation_byte :: "char \<Rightarrow> bool" where
  "continuation_byte c \<longleftrightarrow> 128 \<le> (of_char c :: nat) \<and> (of_char c :: nat) < 192"

fun split_on :: "char \<Rightarrow> string \<Rightarrow> string list" where
  "split_on sep [] = [[]]"
| "split_on sep (c # cs) =
     (if c = sep then [] # split_on sep cs
      else case split_on sep cs of p # ps \<Rightarrow> (c # p) # ps | [] \<Rightarrow> [[c]])"

text \<open>The first code point in upper case, the rest as it is.\<close>

definition capitalized :: "(string \<Rightarrow> string) \<Rightarrow> string \<Rightarrow> string" where
  "capitalized upc part =
     (case part of
        [] \<Rightarrow> []
      | c # cs \<Rightarrow>
          if (of_char c :: nat) < 128 then ascii_upper c # cs
          else upc (c # takeWhile continuation_byte cs) @ dropWhile continuation_byte cs)"

fun titled_parts :: "(string \<Rightarrow> string) \<Rightarrow> nat \<Rightarrow> string list \<Rightarrow> string" where
  "titled_parts upc i [] = []"
| "titled_parts upc i (p # ps) =
     (if p = [] then [] else (if 0 < i then '' '' else []) @ capitalized upc p) @ titled_parts upc (Suc i) ps"

definition snake_to_title :: "(string \<Rightarrow> string) \<Rightarrow> string \<Rightarrow> string" where
  "snake_to_title upc s = titled_parts upc 0 (split_on CHR ''_'' s)"

text \<open>\<open>url_host\<close>: the authority without the user part.\<close>

definition url_host :: "string \<Rightarrow> string option" where
  "url_host url =
     (case split_once url ''://'' of
        None \<Rightarrow> None
      | Some (_, rest) \<Rightarrow>
          (let authority = takeWhile (\<lambda>c. c \<notin> set ''/?#'') rest; host = last (split_on CHR ''@'' authority)
           in if host = [] then None else Some host))"

definition field_name :: "string \<Rightarrow> string" where
  "field_name f =
     trim_matches (\<lambda>c. c = dquote) (trim_matches (\<lambda>c. c = squote) (trim (hd (split_on CHR '':'' f))))"

definition ellipsis :: string where
  "ellipsis = [CHR 0xE2, CHR 0x80, CHR 0xA6]"

text \<open>Slicing at byte 48 panics when that byte is inside a code point.\<close>

definition shorten_expr :: "string \<Rightarrow> string option" where
  "shorten_expr e =
     (let t = trim e;
          fields = filter (\<lambda>f. f \<noteq> []) (map trim (split_on CHR '','' (slice t 1 (length t - 1))));
          short = (if 48 < length t
                   then if continuation_byte (t ! 48) then None else Some (take 48 t @ ellipsis)
                   else Some t)
      in if starts_with t ''{'' \<and> ends_with t ''}'' \<and> 1 < length fields
         then Some (''Summary ('' @ join '', '' (map field_name fields) @ '')'') else short)"

definition call_base :: "(string \<Rightarrow> string) \<Rightarrow> compiled_node \<Rightarrow> string" where
  "call_base upc n =
     (let target = view_arg_or n ''target'' in
      case strip_prefix target ''subgraph:'' of
        Some sub \<Rightarrow> snake_to_title upc sub
      | None \<Rightarrow>
          if target = ''http_request'' then
            (case url_host (view_arg_or n ''url'') of Some h \<Rightarrow> ''HTTP: '' @ h | None \<Rightarrow> ''HTTP Request'')
          else if target = [] then ''Call'' else snake_to_title upc target)"

definition call_label :: "(string \<Rightarrow> string) \<Rightarrow> compiled_node \<Rightarrow> string" where
  "call_label upc n =
     (let kws = filter (\<lambda>k. k \<notin> {''target'', ''type'', ''output''}) (map ca_key (cn_args n))
      in if kws = [] then call_base upc n else call_base upc n @ '' ('' @ join '', '' kws @ '')'')"

definition loop_label :: "compiled_node \<Rightarrow> string" where
  "loop_label n =
     (let target = view_arg_or n ''target''; m = view_arg_or n ''max_iterations'' in
      if target = [] then ''Loop (max '' @ m @ '')'' else ''Loop: '' @ target @ '' (max '' @ m @ '')'')"

definition decide_label :: "compiled_node \<Rightarrow> string" where
  "decide_label n =
     (let cond = (case view_arg n ''condition'' of Some c \<Rightarrow> c | None \<Rightarrow> view_arg_or n ''expr'') in
      if cond \<noteq> [] then cond @ '' ?''
      else
        let src = view_arg_or n ''source'' in
        if src \<noteq> [] then src @ '' '' @ view_arg_or n ''op'' @ '' '' @ view_arg_or n ''value'' @ '' ?'' else ''Decide'')"

definition calc_label :: "compiled_node \<Rightarrow> string option" where
  "calc_label n =
     (let e = view_arg_or n ''expr'' in
      case view_arg n ''output'' of
        Some out \<Rightarrow> if e \<noteq> [] then map_option (\<lambda>s. out @ '' = '' @ s) (shorten_expr e) else Some out
      | None \<Rightarrow> if e \<noteq> [] then shorten_expr e else Some ''Calc'')"

definition node_label :: "(string \<Rightarrow> string) \<Rightarrow> compiled_node \<Rightarrow> string option" where
  "node_label upc n =
     (case cn_op n of
        Input \<Rightarrow> Some (''Input: '' @ view_arg_or n ''name'')
      | Call \<Rightarrow> Some (call_label upc n)
      | Loop \<Rightarrow> Some (loop_label n)
      | Decide \<Rightarrow> Some (decide_label n)
      | Switch \<Rightarrow> Some (''Switch on '' @ view_arg_or n ''source'')
      | Act \<Rightarrow> Some (if view_arg_or n ''type'' = ''return'' then ''Return'' else ''Act '' @ view_arg_or n ''type'')
      | Parallel \<Rightarrow> Some ''Parallel''
      | Merge \<Rightarrow> Some ''Merge''
      | Wait \<Rightarrow> Some (''Wait '' @ view_arg_or n ''duration'')
      | Error \<Rightarrow> Some ''Error''
      | Calc \<Rightarrow> calc_label n)"

definition node_shape :: "compiled_node \<Rightarrow> shape" where
  "node_shape n =
     (if cn_op n \<in> {Loop, Decide, Switch, Parallel, Merge, Wait} then Diamond
      else if cn_op n = Call then Rounded
      else if cn_op n = Act \<and> view_arg_or n ''type'' = ''return'' then Stadium else DefaultShape)"

section \<open>Hidden nodes\<close>

definition is_simple_value :: "string \<Rightarrow> string \<Rightarrow> bool" where
  "is_simple_value raw0 trimmed =
     (let raw = trim raw0; t = trim trimmed in
      raw \<noteq> [] \<and>
      (hd raw = dquote \<or> hd raw = squote \<or> parse_i64 t \<noteq> None \<or> f64_parse t \<noteq> None \<or>
       (case t of
          [] \<Rightarrow> False
        | c # cs \<Rightarrow> (is_ascii_alphabetic c \<or> c = CHR ''_'') \<and>
            list_all (\<lambda>c. is_ascii_alphabetic c \<or> is_digit c \<or> c = CHR ''_'' \<or> c = CHR ''.'') cs)))"

definition is_hidden :: "compiled_node \<Rightarrow> bool" where
  "is_hidden n \<longleftrightarrow>
     cn_op n = Calc \<and> \<not> list_ex (\<lambda>a. ca_key a = ''output'') (cn_args n) \<and>
     (let raw = (case find (\<lambda>a. ca_key a = ''expr'') (cn_args n) of Some a \<Rightarrow> ca_value a | None \<Rightarrow> [])
      in is_simple_value raw (view_trim_quotes raw))"

definition hidden_nodes :: "compiled_plan \<Rightarrow> u32 set" where
  "hidden_nodes p = cn_index ` {n \<in> set (cp_nodes p). is_hidden n}"

text \<open>The visible nodes next to a node, through hidden ones; \<open>next\<close> gives the neighbours.\<close>

fun collect_new :: "u32 list option list \<Rightarrow> u32 list \<Rightarrow> u32 list option" where
  "collect_new [] acc = Some acc"
| "collect_new (None # rs) acc = None"
| "collect_new (Some xs # rs) acc = collect_new rs (fold (\<lambda>x acc. if x \<in> set acc then acc else acc @ [x]) xs acc)"

primrec visible_ends :: "nat \<Rightarrow> (u32 \<Rightarrow> u32 list) \<Rightarrow> u32 set \<Rightarrow> u32 \<Rightarrow> u32 list option" where
  "visible_ends 0 next hidden i = None"
| "visible_ends (Suc k) next hidden i =
     (if i \<notin> hidden then Some [i] else collect_new (map (visible_ends k next hidden) (next i)) [])"

definition sources_of :: "compiled_plan \<Rightarrow> u32 \<Rightarrow> u32 list" where
  "sources_of p i = map ce_from (filter (\<lambda>e. ce_to e = i) (cp_edges p))"

definition targets_of :: "compiled_plan \<Rightarrow> u32 \<Rightarrow> u32 list" where
  "targets_of p i = map ce_to (filter (\<lambda>e. ce_from e = i) (cp_edges p))"

text \<open>A walk without repetition passes every hidden node at most once.\<close>

definition view_fuel :: "compiled_plan \<Rightarrow> nat" where
  "view_fuel p = length (cp_nodes p) + 1"

definition visible_roots :: "compiled_plan \<Rightarrow> u32 \<Rightarrow> u32 list option" where
  "visible_roots p i = visible_ends (view_fuel p) (sources_of p) (hidden_nodes p) i"

definition visible_leaves :: "compiled_plan \<Rightarrow> u32 \<Rightarrow> u32 list option" where
  "visible_leaves p i = visible_ends (view_fuel p) (targets_of p) (hidden_nodes p) i"

definition edge_label :: "compiled_edge \<Rightarrow> string option" where
  "edge_label e =
     (case map_option view_trim_quotes (case ce_condition e of Some c \<Rightarrow> Some c | None \<Rightarrow> ce_label e) of
        Some s \<Rightarrow> if s = [] then None else Some s
      | None \<Rightarrow> None)"

type_synonym drawn = "(u32 \<times> u32) set \<times> view_edge list"

definition draw_pair :: "compiled_edge \<Rightarrow> u32 \<times> u32 \<Rightarrow> drawn \<Rightarrow> drawn" where
  "draw_pair e ft acc =
     (if fst ft = snd ft \<or> ft \<in> fst acc then acc
      else (insert ft (fst acc),
            snd acc @ [\<lparr>ve_from = fst ft, ve_to = snd ft, ve_label = edge_label e, ve_control = (ce_kind e = EControl)\<rparr>]))"

fun draw_edges :: "compiled_plan \<Rightarrow> compiled_edge list \<Rightarrow> drawn \<Rightarrow> view_edge list option" where
  "draw_edges p [] acc = Some (snd acc)"
| "draw_edges p (e # es) acc =
     (case visible_roots p (ce_from e) of
        None \<Rightarrow> None
      | Some [] \<Rightarrow> draw_edges p es acc
      | Some fs \<Rightarrow>
          (case visible_leaves p (ce_to e) of
             None \<Rightarrow> None
           | Some ts \<Rightarrow> draw_edges p es (fold (draw_pair e) (List.product fs ts) acc)))"

definition view_node_of :: "(string \<Rightarrow> string) \<Rightarrow> compiled_node \<Rightarrow> view_node option" where
  "view_node_of upc n =
     map_option (\<lambda>l. \<lparr>vn_index = cn_index n, vn_label = l, vn_shape = node_shape n, vn_group = cn_group n\<rparr>)
       (node_label upc n)"

definition project :: "(string \<Rightarrow> string) \<Rightarrow> compiled_plan \<Rightarrow> view_graph option" where
  "project upc p =
     (case those (map (view_node_of upc) (filter (\<lambda>n. cn_index n \<notin> hidden_nodes p) (cp_nodes p))) of
        None \<Rightarrow> None
      | Some ns \<Rightarrow>
          map_option (\<lambda>es. \<lparr>vg_nodes = ns, vg_edges = es, vg_groups = cp_groups p\<rparr>)
            (draw_edges p (cp_edges p) ({}, [])))"

section \<open>Groups folded into nodes\<close>

definition numbered_title :: "string \<Rightarrow> nat \<Rightarrow> bool \<Rightarrow> string" where
  "numbered_title title ordinal numbered =
     (if \<not> numbered then title
      else case trim title of
          c # _ \<Rightarrow> if is_digit c then title else show_nat ordinal @ ''. '' @ title
        | [] \<Rightarrow> show_nat ordinal @ ''. '' @ title)"

definition group_members :: "view_graph \<Rightarrow> nat \<Rightarrow> u32 list" where
  "group_members v g = map vn_index (filter (\<lambda>n. vn_group n = Some g) (vg_nodes v))"

definition group_node :: "view_graph \<Rightarrow> nat \<Rightarrow> string \<Rightarrow> view_node" where
  "group_node v g title =
     (let k = length (group_members v g); label = numbered_title title (g + 1) True in
      \<lparr>vn_index = u32_max - g,
       vn_label = (if 0 < k then label @ '' ('' @ show_nat k @ '' '' @ (if k = 1 then ''step'' else ''steps'') @ '')''
                   else label),
       vn_shape = Rounded, vn_group = None\<rparr>)"

definition folded_index :: "view_graph \<Rightarrow> u32 \<Rightarrow> u32" where
  "folded_index v i =
     (case Option.bind (find (\<lambda>n. vn_index n = i) (vg_nodes v)) vn_group of
        Some g \<Rightarrow> u32_max - g | None \<Rightarrow> i)"

definition fold_edge :: "view_graph \<Rightarrow> view_edge \<Rightarrow> drawn \<Rightarrow> drawn" where
  "fold_edge v e acc =
     (let ft = (folded_index v (ve_from e), folded_index v (ve_to e)) in
      if fst ft = snd ft \<or> ft \<in> fst acc then acc
      else (insert ft (fst acc), snd acc @ [e\<lparr>ve_from := fst ft, ve_to := snd ft\<rparr>]))"

definition collapse :: "view_graph \<Rightarrow> view_graph" where
  "collapse v =
     (if vg_groups v = [] then v
      else \<lparr>vg_nodes = map (\<lambda>(g, title). group_node v g title) (enumerate 0 (vg_groups v)) @
              filter (\<lambda>n. vn_group n = None) (vg_nodes v),
            vg_edges = snd (fold (fold_edge v) (vg_edges v) ({}, [])), vg_groups = []\<rparr>)"

definition build_view :: "(string \<Rightarrow> string) \<Rightarrow> compiled_plan \<Rightarrow> view_level \<Rightarrow> view_graph option" where
  "build_view upc p level =
     map_option (\<lambda>v. if level = Summary then collapse v else v) (project upc p)"

section \<open>Texts\<close>

definition mermaid_open :: "shape \<Rightarrow> string" where
  "mermaid_open s = (case s of Rounded \<Rightarrow> ''('' | Diamond \<Rightarrow> ''{'' | Stadium \<Rightarrow> ''(['' | DefaultShape \<Rightarrow> ''['')"

definition mermaid_close :: "shape \<Rightarrow> string" where
  "mermaid_close s = (case s of Rounded \<Rightarrow> '')'' | Diamond \<Rightarrow> ''}'' | Stadium \<Rightarrow> ''])'' | DefaultShape \<Rightarrow> '']'')"

definition mermaid_escape :: "string \<Rightarrow> string" where
  "mermaid_escape s =
     concat (map (\<lambda>c. if c = CHR ''#'' then ''&#35;'' else if c = dquote then [squote] else [c]) s)"

definition dot_escape :: "string \<Rightarrow> string" where
  "dot_escape s = map (\<lambda>c. if c = dquote then squote else c) s"

definition text_line :: "string \<Rightarrow> string" where
  "text_line s = s @ [newline]"

text \<open>The label of a node is looked up by the position of the first node with its index.\<close>

definition label_of :: "view_graph \<Rightarrow> u32 \<Rightarrow> string" where
  "label_of v i =
     (case find (\<lambda>n. vn_index n = i) (vg_nodes v) of
        Some n \<Rightarrow> mermaid_escape (vn_label n)
      | None \<Rightarrow> (case vg_nodes v of n # _ \<Rightarrow> mermaid_escape (vn_label n) | [] \<Rightarrow> []))"

definition mermaid_node :: "string \<Rightarrow> view_graph \<Rightarrow> view_node \<Rightarrow> string" where
  "mermaid_node indent v n =
     text_line (indent @ ''N'' @ show_nat (vn_index n) @ mermaid_open (vn_shape n) @ [dquote] @
       label_of v (vn_index n) @ [dquote] @ mermaid_close (vn_shape n))"

definition palette :: "string list" where
  "palette = [''#e1f5fe'', ''#f3e5f5'', ''#fff3e0'', ''#e8f5e9'', ''#fce4ec'', ''#e0f7fa'']"

definition strokes :: "string list" where
  "strokes = [''#0288d1'', ''#7b1fa2'', ''#f57c00'', ''#388e3c'', ''#c62828'', ''#00838f'']"

definition class_def :: "nat \<Rightarrow> string" where
  "class_def i =
     text_line (''    classDef group'' @ show_nat i @ '' fill:'' @ (palette ! (i mod 6)) @ '',stroke:'' @
       (strokes ! (i mod 6)) @ '',stroke-width:2px;'')"

definition first_node :: "view_graph \<Rightarrow> u32 \<Rightarrow> view_node list" where
  "first_node v i = (case find (\<lambda>n. vn_index n = i) (vg_nodes v) of Some n \<Rightarrow> [n] | None \<Rightarrow> [])"

definition group_block :: "view_graph \<Rightarrow> render_options \<Rightarrow> nat \<times> string \<Rightarrow> string" where
  "group_block v ro gt =
     text_line (''    subgraph G'' @ show_nat (fst gt) @ ''['' @ [dquote] @
       mermaid_escape (numbered_title (snd gt) (fst gt + 1) (ro_numbered ro)) @ [dquote] @ '']'') @
     (if ro_direction ro = Td then text_line ''        direction TB'' else []) @
     concat (map (\<lambda>m. concat (map (mermaid_node ''        '' v) (first_node v m))) (group_members v (fst gt))) @
     text_line ''    end''"

definition class_line :: "view_node \<Rightarrow> string" where
  "class_line n =
     (case vn_group n of
        Some g \<Rightarrow> text_line (''    class N'' @ show_nat (vn_index n) @ '' group'' @ show_nat g @ '';'')
      | None \<Rightarrow> [])"

definition mermaid_edge :: "view_edge \<Rightarrow> string" where
  "mermaid_edge e =
     (let arrow = (if ve_control e then ''-.->'' else ''-->''); a = ''    N'' @ show_nat (ve_from e) @ '' '' @ arrow;
          b = '' N'' @ show_nat (ve_to e)
      in text_line (case ve_label e of
           Some l \<Rightarrow> if l \<noteq> [] then a @ ''|'' @ mermaid_escape l @ ''|'' @ b else a @ b
         | None \<Rightarrow> a @ b))"

definition emit_mermaid :: "view_graph \<Rightarrow> render_options \<Rightarrow> string" where
  "emit_mermaid v ro =
     text_line ''```mermaid'' @
     text_line (if ro_direction ro = Td then ''flowchart TD'' else ''flowchart LR'') @
     (if ro_view ro = Layers \<and> vg_groups v \<noteq> [] then concat (map class_def [0..<length (vg_groups v)]) else []) @
     (if ro_view ro \<noteq> Summary \<and> vg_groups v \<noteq> []
      then concat (map (group_block v ro) (enumerate 0 (vg_groups v))) @
           concat (map (mermaid_node ''    '' v) (filter (\<lambda>n. vn_group n = None) (vg_nodes v))) @
           (if ro_view ro = Layers then concat (map class_line (vg_nodes v)) else [])
      else concat (map (mermaid_node ''    '' v) (vg_nodes v))) @
     concat (map mermaid_edge (vg_edges v)) @ text_line ''```''"

definition dot_edge :: "view_edge \<Rightarrow> string" where
  "dot_edge e =
     (let style = (if ve_control e then ''style=dashed'' else ''style=solid'');
          a = ''    N'' @ show_nat (ve_from e) @ '' -> N'' @ show_nat (ve_to e) @ '' [''
      in text_line (case ve_label e of
           Some l \<Rightarrow> if l \<noteq> [] then a @ ''label='' @ [dquote] @ dot_escape l @ [dquote] @ '', '' @ style @ ''];''
             else a @ style @ ''];''
         | None \<Rightarrow> a @ style @ ''];''))"

definition emit_dot :: "view_graph \<Rightarrow> string" where
  "emit_dot v =
     text_line ''digraph plan {'' @
     concat (map (\<lambda>n. text_line (''    N'' @ show_nat (vn_index n) @ '' [label='' @ [dquote] @
       dot_escape (vn_label n) @ [dquote] @ ''];'')) (vg_nodes v)) @
     concat (map dot_edge (vg_edges v)) @ text_line ''}''"

definition render_mermaid :: "(string \<Rightarrow> string) \<Rightarrow> compiled_plan \<Rightarrow> render_options \<Rightarrow> string option" where
  "render_mermaid upc p ro = map_option (\<lambda>v. emit_mermaid v ro) (build_view upc p (ro_view ro))"

definition render_dot :: "(string \<Rightarrow> string) \<Rightarrow> compiled_plan \<Rightarrow> render_options \<Rightarrow> string option" where
  "render_dot upc p ro = map_option emit_dot (build_view upc p (ro_view ro))"

section \<open>Dumps\<close>

text \<open>\<open>plan_dump.rs\<close>; \<open>dbg\<close> is the \<open>Debug\<close> form of a string.\<close>

datatype plan_format = TextFormat | Mermaid | Dot

definition parse_format :: "string \<Rightarrow> plan_format option" where
  "parse_format s =
     (if s = ''text'' then Some TextFormat else if s = ''mermaid'' then Some Mermaid
      else if s = ''dot'' then Some Dot else None)"

fun format_text :: "plan_format \<Rightarrow> string" where
  "format_text TextFormat = ''text''"
| "format_text Mermaid = ''mermaid''"
| "format_text Dot = ''dot''"

definition supports_options :: "plan_format \<Rightarrow> bool" where
  "supports_options f \<longleftrightarrow> f \<noteq> TextFormat"

record dump_header =
  dh_name :: string
  dh_version :: nat
  dh_bytes :: nat

definition opcode_debug :: "opcode \<Rightarrow> string" where
  "opcode_debug op =
     (case op of Input \<Rightarrow> ''Input'' | Call \<Rightarrow> ''Call'' | Calc \<Rightarrow> ''Calc'' | Decide \<Rightarrow> ''Decide'' | Switch \<Rightarrow> ''Switch''
      | Act \<Rightarrow> ''Act'' | Parallel \<Rightarrow> ''Parallel'' | Loop \<Rightarrow> ''Loop'' | Wait \<Rightarrow> ''Wait'' | Merge \<Rightarrow> ''Merge''
      | Error \<Rightarrow> ''Error'')"

definition dump_node :: "(string \<Rightarrow> string) \<Rightarrow> compiled_plan \<Rightarrow> compiled_node \<Rightarrow> string" where
  "dump_node dbg p n =
     text_line (''  ['' @ show_nat (cn_index n) @ ''] '' @ dbg (cn_id n) @ '' op='' @ opcode_debug (cn_op n)) @
     concat (map (\<lambda>a. text_line (''      '' @ ca_key a @ '' = '' @
       trim_matches (\<lambda>c. c = dquote \<or> c = backslash) (ca_value a))) (cn_args n)) @
     (case cn_branch n of Some b \<Rightarrow> text_line (''      (branch_id: '' @ show_nat b @ '')'') | None \<Rightarrow> []) @
     (case cn_group n of
        Some g \<Rightarrow> text_line (''      (group: '' @ show_nat g @ '' -> '' @
          (case list_at (cp_groups p) g of Some t \<Rightarrow> t | None \<Rightarrow> ''?'') @ '')'')
      | None \<Rightarrow> [])"

definition dump_edge :: "compiled_edge \<Rightarrow> string" where
  "dump_edge e =
     text_line (''  '' @ show_nat (ce_from e) @ '' -> '' @ show_nat (ce_to e) @ '' ['' @
       (if ce_kind e = EData then ''data'' else ''control'') @
       (case ce_condition e of Some c \<Rightarrow> '' cond='' @ c | None \<Rightarrow> []) @ '']'')"

definition dump_text :: "(string \<Rightarrow> string) \<Rightarrow> compiled_plan \<Rightarrow> dump_header \<Rightarrow> string" where
  "dump_text dbg p h =
     text_line (''Graph: '' @ dh_name h @ '' (v'' @ show_nat (dh_version h) @ '')'') @
     text_line (''Format: FlatBuffers ('' @ show_nat (dh_bytes h) @ '' bytes)'') @ [newline] @
     text_line (''Nodes ('' @ show_nat (length (cp_nodes p)) @ ''):'') @
     concat (map (dump_node dbg p) (cp_nodes p)) @ [newline] @
     text_line (''Edges ('' @ show_nat (length (cp_edges p)) @ ''):'') @
     concat (map dump_edge (cp_edges p)) @ [newline] @
     text_line (''Metadata: version='' @ show_nat (cp_version p) @
       '' max_nodes='' @ show_nat (cm_max_node_execution_count (cp_metadata p)) @
       '' max_time_ms='' @ show_nat (cm_max_execution_time_ms (cp_metadata p)) @
       '' max_mem_bytes='' @ show_nat (cm_max_context_memory_bytes (cp_metadata p)))"

definition render_plan ::
  "(string \<Rightarrow> string) \<Rightarrow> (string \<Rightarrow> string) \<Rightarrow> plan_format \<Rightarrow> compiled_plan \<Rightarrow> dump_header \<Rightarrow> render_options \<Rightarrow> string option" where
  "render_plan upc dbg f p h ro =
     (case f of
        TextFormat \<Rightarrow> Some (dump_text dbg p h)
      | Mermaid \<Rightarrow> render_mermaid upc p ro
      | Dot \<Rightarrow> render_dot upc p ro)"

end
