(* ===== verification/Server.thy ===== *)
theory Server
  imports Registry Meta PlanView
begin

text \<open>
  The state of the HTTP server and its engine (\<open>tinypipe-server/src/state.rs\<close>, \<open>engine.rs\<close>):
  loading plans, running and resuming executions with their audit records, the scheduler end point
  and the reload of the route tables.  Every operation takes the application state and returns it
  with its result, so the records a failing operation has already written stay visible.

  The parameters of \<open>server_io\<close> are those of the registry, the world of runs, the tools, the
  process environment, the codecs of records and checkpoints (\<open>serde_json\<close>), the clock, the fresh
  UUIDs and the measured durations of nodes.  \<open>sv_depth\<close> is the fuel of nested subgraph runs.
\<close>

section \<open>State\<close>

text \<open>\<open>AppState\<close>; a time is a number of microseconds.\<close>

record app_state =
  as_store :: "db \<times> plan_cache"
  as_plans :: "compiled_plan smap"
  as_routes :: "route_config smap"
  as_resp_cache :: "(nat \<times> nat \<times> string) list"
  as_dynamic :: "(nat \<times> nat \<times> string \<times> compiled_plan) list"
  as_token :: "string option"
  as_audit :: bool

definition app_state_new :: "db \<times> plan_cache \<Rightarrow> string option \<Rightarrow> bool \<Rightarrow> app_state" where
  "app_state_new s token audit =
     \<lparr>as_store = s, as_plans = [], as_routes = [], as_resp_cache = [], as_dynamic = [], as_token = token,
      as_audit = audit\<rparr>"

definition as_db :: "app_state \<Rightarrow> db" where
  "as_db st = fst (as_store st)"

definition set_db :: "db \<Rightarrow> app_state \<Rightarrow> app_state" where
  "set_db d st = st\<lparr>as_store := (d, snd (as_store st))\<rparr>"

definition dynamic_plan_capacity :: nat where
  "dynamic_plan_capacity = 64"

text \<open>\<open>min_by_key\<close>: the first of the entries with the least time.\<close>

definition oldest_entry :: "(nat \<times> nat \<times> string \<times> compiled_plan) list \<Rightarrow> nat option" where
  "oldest_entry es =
     map_option fst (find (\<lambda>(_, ts, _). \<forall>(_, ts', _) \<in> set es. ts \<le> ts') es)"

definition cache_dynamic_plan :: "nat \<Rightarrow> nat \<Rightarrow> string \<Rightarrow> compiled_plan \<Rightarrow> app_state \<Rightarrow> app_state" where
  "cache_dynamic_plan now key code p st =
     (let es = as_dynamic st;
          es' = (if dynamic_plan_capacity \<le> length es
                 then case oldest_entry es of Some k \<Rightarrow> filter (\<lambda>e. fst e \<noteq> k) es | None \<Rightarrow> es
                 else es)
      in st\<lparr>as_dynamic := upd key (now, code, p) es'\<rparr>)"

text \<open>FNV-1a on 64 bits.\<close>

definition fnv1a :: "string \<Rightarrow> nat" where
  "fnv1a bytes =
     fold (\<lambda>b h. (Bit_Operations.xor h (of_char b :: nat) * 0x100000001b3) mod 2 ^ 64) bytes 0xcbf29ce484222325"

section \<open>Results\<close>

definition and_then :: "'s \<times> ('e + 'a) \<Rightarrow> ('s \<Rightarrow> 'a \<Rightarrow> 's \<times> ('e + 'b)) \<Rightarrow> 's \<times> ('e + 'b)" where
  "and_then r f = (case r of (s, Inl e) \<Rightarrow> (s, Inl e) | (s, Inr a) \<Rightarrow> f s a)"

lemma and_then_simps [simp]:
  "and_then (s, Inl e) f = (s, Inl e)" "and_then (s, Inr a) f = f s a"
  by (simp_all add: and_then_def)

lemma and_then_Inr:
  "and_then r f = (s', Inr b) \<longleftrightarrow> (\<exists>s a. r = (s, Inr a) \<and> f s a = (s', Inr b))"
  by (auto simp: and_then_def split: prod.splits sum.splits)

lemma and_then_Inl:
  "and_then r f = (s', Inl e) \<longleftrightarrow> r = (s', Inl e) \<or> (\<exists>s a. r = (s, Inr a) \<and> f s a = (s', Inl e))"
  by (auto simp: and_then_def split: prod.splits sum.splits)

record server_io =
  sv_registry :: registry_io
  sv_meta :: meta_io
  sv_world :: world
  sv_tools :: tools
  sv_depth :: nat
  sv_os :: "(string \<times> string) list"
  sv_codec :: codec
  sv_save_checkpoint :: "checkpoint \<Rightarrow> string + blob"
  sv_load_checkpoint :: "blob \<Rightarrow> string + checkpoint"
  sv_now :: "nat \<Rightarrow> nat"
  sv_uid :: "nat \<Rightarrow> string"
  sv_node_durations :: "execution_result \<Rightarrow> (string \<times> nat) list"
  sv_duration :: "execution_result \<Rightarrow> nat"

definition now_micros :: "server_io \<Rightarrow> nat \<Rightarrow> string" where
  "now_micros io k = show_nat (sv_now io k)"

section \<open>Graphs and plans\<close>

definition server_resolve_graph :: "db \<Rightarrow> string \<Rightarrow> string + graph_definition" where
  "server_resolve_graph d i =
     (case load_graph i d of
        Inr g \<Rightarrow> Inr g
      | Inl (GraphNotFound _) \<Rightarrow> map_sum show_storage_error id (find_graph_by_name i d)
      | Inl e \<Rightarrow> Inl (show_storage_error e))"

definition decode_plan :: "server_io \<Rightarrow> blob \<Rightarrow> string + compiled_plan" where
  "decode_plan io b =
     map_sum (\<lambda>e. ''plan decode: '' @ e) id (from_fb_bytes (rg_root (sv_registry io)) b)"

definition load_plan_self_heal ::
  "server_io \<Rightarrow> graph_definition \<Rightarrow> app_state \<Rightarrow> app_state \<times> (string + compiled_plan)" where
  "load_plan_self_heal io g st =
     (case load_plan (gd_id g) (as_db st) of
        Inr b \<Rightarrow> (st, decode_plan io b)
      | Inl (PlanMissing _) \<Rightarrow>
          (case compile_blob (sv_registry io) (gd_code g) of
             Inl e \<Rightarrow> (st, Inl (''recompile: '' @ e))
           | Inr b \<Rightarrow>
               (case save_plan (rg_now (sv_registry io)) (gd_id g) (gd_version g) b (as_db st) of
                  (d, Inl e) \<Rightarrow> (set_db d st, Inl (show_storage_error e))
                | (d, Inr _) \<Rightarrow> (set_db d st, decode_plan io b)))
      | Inl e \<Rightarrow> (st, Inl (show_storage_error e)))"

section \<open>Environment, inputs and worlds\<close>

definition build_env :: "server_io \<Rightarrow> (string \<times> string) list \<Rightarrow> env" where
  "build_env io overrides =
     env_new [static_provider (rg_upper (sv_registry io)) overrides, os_provider (sv_os io)]"

definition ctx_from_inputs :: "json \<Rightarrow> tp_context" where
  "ctx_from_inputs inputs =
     (case inputs of
        JObject kvs \<Rightarrow> fold (\<lambda>(k, v). ctx_set k (json_to_tp v)) kvs context_new
      | _ \<Rightarrow> context_new)"

definition apply_timeout :: "compiled_plan \<Rightarrow> nat option \<Rightarrow> compiled_plan" where
  "apply_timeout p t =
     (case t of
        None \<Rightarrow> p
      | Some ms \<Rightarrow> if ms = 0 then p
          else p\<lparr>cp_metadata := (cp_metadata p)\<lparr>cm_max_execution_time_ms := ms\<rparr>\<rparr>)"

definition server_world :: "server_io \<Rightarrow> db \<times> plan_cache \<Rightarrow> env \<Rightarrow> world" where
  "server_world io s e =
     registry_world (run_subgraph (sv_depth io) (sv_registry io) (sv_world io) (sv_tools io) s)
       (sv_world io) (sv_tools io) e"

definition node_limit :: "u32 option \<Rightarrow> pause_policy" where
  "node_limit n = \<lparr>pp_max_nodes = n, pp_node_ids = None\<rparr>"

section \<open>Answers\<close>

fun tp_to_json :: "tp_value \<Rightarrow> json" where
  "tp_to_json VNull = JNull"
| "tp_to_json (VBool b) = JBool b"
| "tp_to_json (VInt i) = JNumber (Some i) (Some (f64_of_int i))"
| "tp_to_json (VFloat f) = (case f of FFin _ _ _ \<Rightarrow> JNumber None (Some f) | _ \<Rightarrow> JNull)"
| "tp_to_json (VString s) = JString s"
| "tp_to_json (VArray xs) = JArray (map tp_to_json xs)"
| "tp_to_json (VObject kvs) = JObject (map (\<lambda>(k, v). (k, tp_to_json v)) kvs)"

definition json_of_nat :: "nat \<Rightarrow> json" where
  "json_of_nat n = JNumber (if in_i64 (int n) then Some (int n) else None) (Some (f64_of_int (int n)))"

definition completed_answer :: "server_io \<Rightarrow> string \<Rightarrow> execution_result \<Rightarrow> json" where
  "completed_answer io xid r =
     JObject [(''execution_id'', JString xid), (''status'', JString ''completed''),
       (''duration_us'', json_of_nat (sv_duration io r)), (''nodes_executed'', json_of_nat (er_node_count r)),
       (''output'', case er_output r of Some v \<Rightarrow> tp_to_json v | None \<Rightarrow> JNull)]"

definition failed_answer :: "string \<Rightarrow> exec_error \<Rightarrow> json" where
  "failed_answer xid e =
     JObject [(''execution_id'', JString xid), (''status'', JString ''failed''),
       (''error'', JString (show_exec_error e))]"

definition answer_status :: "json \<Rightarrow> string option" where
  "answer_status j =
     (case j of JObject kvs \<Rightarrow> (case map_of kvs ''status'' of Some (JString s) \<Rightarrow> Some s | _ \<Rightarrow> None) | _ \<Rightarrow> None)"

section \<open>Audit records\<close>

definition keep_execution ::
  "server_io \<Rightarrow> string \<Rightarrow> execution \<Rightarrow> app_state \<Rightarrow> app_state \<times> (string + unit)" where
  "keep_execution io what x st =
     (case save_execution (sv_codec io) x (as_db st) of
        (d, r) \<Rightarrow> (set_db d st, map_sum (\<lambda>e. what @ show_storage_error e) id r))"

definition keep_checkpoint ::
  "server_io \<Rightarrow> string \<Rightarrow> string \<Rightarrow> checkpoint \<Rightarrow> app_state \<Rightarrow> app_state \<times> (string + unit)" where
  "keep_checkpoint io what xid ck st =
     (case sv_save_checkpoint io ck of
        Inl e \<Rightarrow> (st, Inl e)
      | Inr b \<Rightarrow>
          (case save_checkpoint xid b (as_db st) of
             (d, r) \<Rightarrow> (set_db d st, map_sum (\<lambda>e. what @ show_storage_error e) id r)))"

text \<open>A step record per executed node, one after the other from the time \<open>cursor\<close> on.\<close>

fun step_records ::
  "server_io \<Rightarrow> string \<Rightarrow> compiled_plan \<Rightarrow> nat \<Rightarrow> nat \<Rightarrow> (string \<times> nat) list \<Rightarrow> execution_step list" where
  "step_records io xid p k cursor [] = []"
| "step_records io xid p k cursor ((nid, us) # ds) =
     \<lparr>st_id = sv_uid io k, st_execution = xid, st_node = nid,
      st_op = (case map_of (rev (map (\<lambda>n. (cn_id n, cn_op n)) (cp_nodes p))) nid of
                 Some op \<Rightarrow> opcode_debug op | None \<Rightarrow> ''unknown''),
      st_status = ''completed'', st_error = None, st_started_at = show_nat cursor,
      st_completed_at = Some (show_nat (cursor + us)), st_duration_us = Some us,
      st_before = None, st_after = None, st_parent = None\<rparr>
     # step_records io xid p (Suc k) (cursor + us) ds"

definition record_steps :: "server_io \<Rightarrow> string \<Rightarrow> compiled_plan \<Rightarrow> execution_result \<Rightarrow> db \<Rightarrow> db" where
  "record_steps io xid p r d =
     fold (\<lambda>s d. fst (save_step (sv_codec io) s d))
       (step_records io xid p 1 (sv_now io 2) (sv_node_durations io r)) d"

definition completed_execution :: "server_io \<Rightarrow> execution \<Rightarrow> execution_result \<Rightarrow> execution" where
  "completed_execution io x r =
     x\<lparr>ex_status := CompletedStatus, ex_output := er_output r, ex_duration_us := Some (sv_duration io r),
       ex_completed_at := Some (now_micros io 1), ex_context := Some (er_context r)\<rparr>"

definition keep_completed ::
  "server_io \<Rightarrow> string \<Rightarrow> execution \<Rightarrow> compiled_plan \<Rightarrow> execution_result \<Rightarrow> app_state \<Rightarrow> app_state \<times> (string + unit)" where
  "keep_completed io what x p r st =
     and_then (keep_execution io what (completed_execution io x r) st)
       (\<lambda>st1 _. (set_db (record_steps io (ex_id x) p r (as_db st1)) st1, Inr ()))"

section \<open>Executions\<close>

definition env_report_line :: "env_report \<Rightarrow> string" where
  "env_report_line r = rp_path r @ '': '' @ join '', '' (rp_missing r)"

text \<open>The fuel of \<open>validate_env\<close> always suffices, see \<open>validate_env_total\<close>.\<close>

definition env_check ::
  "server_io \<Rightarrow> graph_definition option \<Rightarrow> bool \<Rightarrow> env \<Rightarrow> app_state \<Rightarrow> app_state \<times> (string + unit)" where
  "env_check io graph skip e st =
     (case graph of
        None \<Rightarrow> (st, Inr ())
      | Some g \<Rightarrow>
          if skip then (st, Inr ())
          else (case validate_env (sv_registry io) (gd_name g) e (as_store st) of
                  None \<Rightarrow> (st, Inl ''out of fuel'')
                | Some (s, Inl err) \<Rightarrow> (st\<lparr>as_store := s\<rparr>, Inl (show_dispatch_error err))
                | Some (s, Inr reports) \<Rightarrow>
                    (st\<lparr>as_store := s\<rparr>,
                     if reports = [] then Inr ()
                     else Inl (''missing environment variables:'' @ [newline] @
                       join [newline] (map env_report_line reports)))))"

definition started_execution :: "server_io \<Rightarrow> graph_definition option \<Rightarrow> tp_context \<Rightarrow> execution" where
  "started_execution io graph inputs =
     \<lparr>ex_id = sv_uid io 0, ex_graph = (case graph of Some g \<Rightarrow> gd_id g | None \<Rightarrow> ''dynamic''),
      ex_version = (case graph of Some g \<Rightarrow> gd_version g | None \<Rightarrow> 0), ex_input = inputs,
      ex_output = None, ex_status = Running, ex_error = None, ex_started_at = now_micros io 0,
      ex_completed_at = None, ex_duration_us = None, ex_context = None\<rparr>"

definition paused_message :: "string \<Rightarrow> checkpoint \<Rightarrow> string" where
  "paused_message xid ck =
     ''paused at '' @ show_nat (ck_node_count ck) @ '' nodes '' @ [CHR 0xE2, CHR 0x80, CHR 0x94] @
     '' POST /api/executions/'' @ xid @ ''/resume''"

definition audited :: "bool \<Rightarrow> (app_state \<Rightarrow> app_state \<times> (string + unit)) \<Rightarrow> app_state \<Rightarrow> app_state \<times> (string + unit)" where
  "audited audit f st = (if audit then f st else (st, Inr ()))"

definition finish_run ::
  "server_io \<Rightarrow> bool \<Rightarrow> execution \<Rightarrow> compiled_plan \<Rightarrow> exec_error + execution_outcome \<Rightarrow> app_state \<Rightarrow> app_state \<times> (string + json)" where
  "finish_run io audit x p out st =
     (case out of
        Inr (Completed r) \<Rightarrow>
          and_then (audited audit (keep_completed io ''save execution: '' x p r) st)
            (\<lambda>st _. (st, Inr (completed_answer io (ex_id x) r)))
      | Inr (Paused ck) \<Rightarrow>
          and_then
            (audited audit (\<lambda>st.
               and_then (keep_execution io ''save execution: ''
                   (x\<lparr>ex_status := PausedStatus, ex_completed_at := Some (now_micros io 1),
                      ex_context := Some (ck_context ck)\<rparr>) st)
                 (\<lambda>st _. keep_checkpoint io ''save checkpoint: '' (ex_id x) ck st)) st)
            (\<lambda>st _. (st, Inr (JObject [(''execution_id'', JString (ex_id x)), (''status'', JString ''paused''),
               (''message'', JString (paused_message (ex_id x) ck))])))
      | Inl e \<Rightarrow>
          and_then
            (audited audit (keep_execution io ''save execution: ''
               (x\<lparr>ex_status := Failed, ex_error := Some (show_exec_error e),
                  ex_completed_at := Some (now_micros io 1), ex_context := Some (ex_input x)\<rparr>)) st)
            (\<lambda>st _. (st, Inr (failed_answer (ex_id x) e))))"

definition run_execution ::
  "server_io \<Rightarrow> graph_definition option \<Rightarrow> compiled_plan \<Rightarrow> json \<Rightarrow> (string \<times> string) list \<Rightarrow> u32 option \<Rightarrow>
     bool \<Rightarrow> nat option \<Rightarrow> bool \<Rightarrow> app_state \<Rightarrow> app_state \<times> (string + json)" where
  "run_execution io graph plan inputs env_over pause_after no_env_check timeout audit st =
     (let p = apply_timeout plan timeout;
          e = build_env io env_over;
          ctx = ctx_from_inputs inputs;
          x = started_execution io graph ctx
      in and_then (env_check io graph no_env_check e st)
        (\<lambda>st _. and_then (audited audit (keep_execution io ''save execution: '' x) st)
          (\<lambda>st _. finish_run io audit x p
             (execute_with p (server_world io (as_store st) e) ctx (node_limit pause_after)) st)))"

definition stored_checkpoint :: "server_io \<Rightarrow> db \<Rightarrow> string \<Rightarrow> string + checkpoint" where
  "stored_checkpoint io d xid =
     bind_res (map_sum show_storage_error id (load_checkpoint xid d))
       (\<lambda>b. map_sum (\<lambda>e. ''checkpoint decode: '' @ e) id (sv_load_checkpoint io b))"

definition stored_plan :: "server_io \<Rightarrow> db \<Rightarrow> string \<Rightarrow> nat \<Rightarrow> string + compiled_plan" where
  "stored_plan io d i v =
     bind_res (map_sum show_storage_error id (load_plan_version i v d)) (decode_plan io)"

definition finish_resume ::
  "server_io \<Rightarrow> execution \<Rightarrow> compiled_plan \<Rightarrow> exec_error + execution_outcome \<Rightarrow> app_state \<Rightarrow> app_state \<times> (string + json)" where
  "finish_resume io x p out st =
     (case out of
        Inr (Completed r) \<Rightarrow>
          and_then (audited (as_audit st) (keep_completed io [] x p r) st)
            (\<lambda>st _. (st, Inr (completed_answer io (ex_id x) r)))
      | Inr (Paused ck) \<Rightarrow>
          and_then
            (audited (as_audit st) (\<lambda>st.
               and_then (keep_execution io [] (x\<lparr>ex_status := PausedStatus, ex_context := Some (ck_context ck)\<rparr>) st)
                 (\<lambda>st _. keep_checkpoint io [] (ex_id x) ck st)) st)
            (\<lambda>st _. (st, Inr (JObject [(''execution_id'', JString (ex_id x)), (''status'', JString ''paused''),
               (''node_count'', json_of_nat (ck_node_count ck))])))
      | Inl e \<Rightarrow>
          and_then
            (audited (as_audit st) (keep_execution io []
               (x\<lparr>ex_status := Failed, ex_error := Some (show_exec_error e),
                  ex_completed_at := Some (now_micros io 1)\<rparr>)) st)
            (\<lambda>st _. (st, Inr (failed_answer (ex_id x) e))))"

definition resume_execution ::
  "server_io \<Rightarrow> string \<Rightarrow> u32 option \<Rightarrow> (string \<times> string) list \<Rightarrow> app_state \<Rightarrow> app_state \<times> (string + json)" where
  "resume_execution io xid max_nodes env_over st =
     (let named = (\<lambda>m. ''execution '' @ [squote] @ xid @ [squote] @ m) in
      case load_execution (sv_codec io) xid (as_db st) of
        Inl e \<Rightarrow> (st, Inl (named ('': '' @ show_storage_error e)))
      | Inr x \<Rightarrow>
          if ex_status x \<noteq> PausedStatus then (st, Inl (named '' is not paused''))
          else (case stored_checkpoint io (as_db st) xid of
                  Inl e \<Rightarrow> (st, Inl e)
                | Inr ck \<Rightarrow>
                    (case stored_plan io (as_db st) (ex_graph x) (ex_version x) of
                       Inl e \<Rightarrow> (st, Inl e)
                     | Inr p \<Rightarrow>
                         finish_resume io x p
                           (resume p (server_world io (as_store st) (build_env io env_over)) ck (node_limit max_nodes)) st)))"

section \<open>The scheduler end point\<close>

record scheduler_summary =
  ss_processed :: nat
  ss_completed :: nat
  ss_still_paused :: nat
  ss_failed :: nat

definition summary_zero :: scheduler_summary where
  "summary_zero = \<lparr>ss_processed = 0, ss_completed = 0, ss_still_paused = 0, ss_failed = 0\<rparr>"

definition count_answer :: "string + json \<Rightarrow> scheduler_summary \<Rightarrow> scheduler_summary" where
  "count_answer r s =
     (case r of
        Inl _ \<Rightarrow> s\<lparr>ss_failed := ss_failed s + 1\<rparr>
      | Inr j \<Rightarrow>
          if answer_status j = Some ''completed'' then s\<lparr>ss_completed := ss_completed s + 1\<rparr>
          else if answer_status j = Some ''paused'' then s\<lparr>ss_still_paused := ss_still_paused s + 1\<rparr>
          else s\<lparr>ss_failed := ss_failed s + 1\<rparr>)"

text \<open>Each execution is resumed in an outside world of its own, \<open>ios\<close> of its id.\<close>

definition scheduler_step ::
  "(string \<Rightarrow> server_io) \<Rightarrow> u32 option \<Rightarrow> execution \<Rightarrow> app_state \<times> scheduler_summary \<Rightarrow> app_state \<times> scheduler_summary" where
  "scheduler_step ios max_nodes x acc =
     (case resume_execution (ios (ex_id x)) (ex_id x) max_nodes [] (fst acc) of
        (st, r) \<Rightarrow> (st, count_answer r ((snd acc)\<lparr>ss_processed := ss_processed (snd acc) + 1\<rparr>)))"

definition run_scheduler ::
  "codec \<Rightarrow> (string \<Rightarrow> server_io) \<Rightarrow> u32 option \<Rightarrow> app_state \<Rightarrow> app_state \<times> scheduler_summary" where
  "run_scheduler jc ios max_nodes st =
     fold (scheduler_step ios max_nodes) (list_paused_executions jc (as_db st)) (st, summary_zero)"

section \<open>Reloading plans and routes\<close>

definition duplicate_route :: "route_config \<Rightarrow> route_config \<Rightarrow> string \<Rightarrow> string" where
  "duplicate_route rc existing name =
     ''duplicate http_route '' @ [squote] @ ''/'' @ rc_path rc @ [squote] @ '' ('' @ method_text (rc_method rc) @
     ''): graphs '' @ quoted (rc_graph existing) @ '' and '' @ quoted name"

definition config_key :: "route_config \<Rightarrow> string" where
  "config_key rc = route_key (rc_path rc) (rc_method rc)"

fun refresh_loop ::
  "server_io \<Rightarrow> graph_definition list \<Rightarrow> compiled_plan smap \<Rightarrow> route_config smap \<Rightarrow> app_state \<Rightarrow>
     app_state \<times> (string + compiled_plan smap \<times> route_config smap)" where
  "refresh_loop io [] plans routes st = (st, Inr (plans, routes))"
| "refresh_loop io (g # gs) plans routes st =
     and_then (load_plan_self_heal io g st) (\<lambda>st p.
       case parse_route_config (sv_meta io) (cm_meta_json (cp_metadata p)) (gd_name g) of
         Inl e \<Rightarrow> (st, Inl e)
       | Inr None \<Rightarrow> refresh_loop io gs (upd (gd_id g) p plans) routes st
       | Inr (Some rc0) \<Rightarrow>
           (let rc = rc0\<lparr>rc_graph := gd_id g\<rparr> in
            case map_of routes (config_key rc) of
              Some ex \<Rightarrow> (st, Inl (duplicate_route rc ex (gd_name g)))
            | None \<Rightarrow> refresh_loop io gs (upd (gd_id g) p plans) (upd (config_key rc) rc routes) st))"

definition refresh_all :: "server_io \<Rightarrow> app_state \<Rightarrow> app_state \<times> (string + nat \<times> nat)" where
  "refresh_all io st =
     and_then (refresh_loop io (list_all_graphs (as_db st)) [] [] st)
       (\<lambda>st (plans, routes).
          (st\<lparr>as_plans := plans, as_routes := routes, as_resp_cache := []\<rparr>, Inr (length plans, length routes)))"

section \<open>What operations leave alone\<close>

text \<open>Runs and records change the store only, never the tables of plans, routes and answers.\<close>

definition same_tables :: "app_state \<Rightarrow> app_state \<Rightarrow> bool" where
  "same_tables st st' \<longleftrightarrow> st'\<lparr>as_store := as_store st\<rparr> = st"

lemma same_tables_refl [simp]: "same_tables st st"
  by (simp add: same_tables_def)

lemma same_tables_trans: "same_tables st st' \<Longrightarrow> same_tables st' st'' \<Longrightarrow> same_tables st st''"
  by (cases st; cases st'; cases st'') (auto simp: same_tables_def)

lemma same_tables_store [simp]: "same_tables st (st\<lparr>as_store := s\<rparr>)" "same_tables st (set_db d st)"
  by (simp_all add: same_tables_def set_db_def)

lemma same_tables_fields:
  assumes "same_tables st st'"
  shows "as_plans st' = as_plans st" "as_routes st' = as_routes st" "as_resp_cache st' = as_resp_cache st"
    "as_dynamic st' = as_dynamic st" "as_token st' = as_token st" "as_audit st' = as_audit st"
  using assms by (cases st; cases st'; simp add: same_tables_def)+

lemma same_tables_and_then:
  assumes "same_tables st (fst r)" "\<And>s a. r = (s, Inr a) \<Longrightarrow> same_tables s (fst (f s a))"
  shows "same_tables st (fst (and_then r f))"
  using assms same_tables_trans by (cases r; cases "snd r") (auto simp: and_then_def split: sum.splits)

lemma audited_tables: "(\<And>s. same_tables s (fst (f s))) \<Longrightarrow> same_tables st (fst (audited b f st))"
  by (simp add: audited_def)

lemma keep_tables:
  "same_tables st (fst (keep_execution io what x st))" "same_tables st (fst (keep_checkpoint io what xid ck st))"
  "same_tables st (fst (env_check io graph skip e st))"
  by (auto simp: keep_execution_def keep_checkpoint_def env_check_def split: sum.splits prod.splits option.splits)

lemma keep_completed_tables: "same_tables st (fst (keep_completed io what x p r st))"
  by (simp add: keep_completed_def same_tables_and_then keep_tables)

lemmas tables_intros = same_tables_and_then audited_tables keep_tables keep_completed_tables

lemma finish_tables:
  "same_tables st (fst (finish_run io audit x p out st))" "same_tables st (fst (finish_resume io x p out st))"
  by (auto simp: finish_run_def finish_resume_def intro!: tables_intros split: sum.splits execution_outcome.splits)

lemma run_execution_tables:
  "same_tables st (fst (run_execution io graph p inputs env_over pause skip timeout audit st))"
  by (auto simp: run_execution_def Let_def intro!: tables_intros finish_tables)

lemma resume_execution_tables: "same_tables st (fst (resume_execution io xid m env_over st))"
  by (simp add: resume_execution_def Let_def finish_tables split: sum.split)

lemma load_plan_self_heal_tables: "same_tables st (fst (load_plan_self_heal io g st))"
  by (auto simp: load_plan_self_heal_def split: sum.splits storage_error.splits prod.splits)

section \<open>The loaded routes\<close>

definition route_of_plan :: "server_io \<Rightarrow> graph_definition \<Rightarrow> compiled_plan \<Rightarrow> route_config option" where
  "route_of_plan io g p =
     (case parse_route_config (sv_meta io) (cm_meta_json (cp_metadata p)) (gd_name g) of
        Inr (Some rc) \<Rightarrow> Some (rc\<lparr>rc_graph := gd_id g\<rparr>)
      | _ \<Rightarrow> None)"

lemma route_of_plan_ok: "route_of_plan io g p = Some rc \<Longrightarrow> route_ok rc \<and> rc_graph rc = gd_id g"
  using parsed_route_ok by (auto simp: route_of_plan_def route_ok_def split: sum.splits option.splits)

text \<open>The tables built from the graphs read so far.\<close>

definition tables_match ::
  "server_io \<Rightarrow> graph_definition list \<Rightarrow> compiled_plan smap \<Rightarrow> route_config smap \<Rightarrow> bool" where
  "tables_match io gs plans routes \<longleftrightarrow>
     dom (map_of plans) = gd_id ` set gs \<and>
     (\<forall>k rc. map_of routes k = Some rc \<longleftrightarrow>
       k = config_key rc \<and> (\<exists>g \<in> set gs. \<exists>p. map_of plans (gd_id g) = Some p \<and> route_of_plan io g p = Some rc))"

lemma tables_match_add:
  assumes "tables_match io gs plans routes" "gd_id g \<notin> gd_id ` set gs"
    and "case route_of_plan io g p of None \<Rightarrow> routes' = routes
      | Some rc \<Rightarrow> map_of routes (config_key rc) = None \<and> routes' = upd (config_key rc) rc routes"
  shows "tables_match io (gs @ [g]) (upd (gd_id g) p plans) routes'"
proof -
  have old: "map_of (upd (gd_id g) p plans) (gd_id h) = map_of plans (gd_id h)" if "h \<in> set gs" for h
    using assms(2) that by (metis fun_upd_other imageI map_of_upd)
  have new: "map_of (upd (gd_id g) p plans) (gd_id g) = Some p" by simp
  have "dom (map_of (upd (gd_id g) p plans)) = gd_id ` set (gs @ [g])"
    using assms(1) by (auto simp: tables_match_def)
  moreover have "map_of routes' k = Some rc \<longleftrightarrow>
      k = config_key rc \<and> (\<exists>h \<in> set (gs @ [g]). \<exists>q. map_of (upd (gd_id g) p plans) (gd_id h) = Some q \<and>
        route_of_plan io h q = Some rc)" (is "_ \<longleftrightarrow> ?R") for k rc
  proof -
    have "?R \<longleftrightarrow> k = config_key rc \<and> ((\<exists>h \<in> set gs. \<exists>q. map_of plans (gd_id h) = Some q \<and>
        route_of_plan io h q = Some rc) \<or> route_of_plan io g p = Some rc)"
      using old new by auto
    also have "\<dots> \<longleftrightarrow> map_of routes k = Some rc \<or> k = config_key rc \<and> route_of_plan io g p = Some rc"
      using assms(1) by (auto simp: tables_match_def)
    also have "\<dots> \<longleftrightarrow> map_of routes' k = Some rc"
      using assms(3) by (cases "route_of_plan io g p") auto
    finally show ?thesis by blast
  qed
  ultimately show ?thesis unfolding tables_match_def by blast
qed

lemma refresh_loop_match:
  "refresh_loop io gs plans routes st = (st', Inr (plans', routes')) \<Longrightarrow> tables_match io seen plans routes \<Longrightarrow>
     distinct (map gd_id (seen @ gs)) \<Longrightarrow> tables_match io (seen @ gs) plans' routes'"
proof (induction gs arbitrary: plans routes st seen)
  case (Cons g gs)
  from Cons.prems(1) obtain s p where load: "load_plan_self_heal io g st = (s, Inr p)"
    and rest: "(case parse_route_config (sv_meta io) (cm_meta_json (cp_metadata p)) (gd_name g) of
         Inl e \<Rightarrow> (s, Inl e)
       | Inr None \<Rightarrow> refresh_loop io gs (upd (gd_id g) p plans) routes s
       | Inr (Some rc0) \<Rightarrow>
           (let rc = rc0\<lparr>rc_graph := gd_id g\<rparr> in
            case map_of routes (config_key rc) of
              Some ex \<Rightarrow> (s, Inl (duplicate_route rc ex (gd_name g)))
            | None \<Rightarrow> refresh_loop io gs (upd (gd_id g) p plans) (upd (config_key rc) rc routes) s)) =
       (st', Inr (plans', routes'))"
    by (auto simp: and_then_Inr)
  have fresh: "gd_id g \<notin> gd_id ` set seen" using Cons.prems(3) by auto
  have d: "distinct (map gd_id ((seen @ [g]) @ gs))" using Cons.prems(3) by simp
  from rest obtain r1 where r1: "refresh_loop io gs (upd (gd_id g) p plans) r1 s = (st', Inr (plans', routes'))"
    "case route_of_plan io g p of None \<Rightarrow> r1 = routes
      | Some rc \<Rightarrow> map_of routes (config_key rc) = None \<and> r1 = upd (config_key rc) rc routes"
    by (auto simp: route_of_plan_def Let_def split: sum.splits option.splits)
  from Cons.IH [OF r1(1) tables_match_add [OF Cons.prems(2) fresh r1(2)] d] show ?case by simp
qed simp

lemma tables_match_keys: "tables_match io gs plans routes \<Longrightarrow> map_of routes k = Some rc \<Longrightarrow> k = config_key rc"
  unfolding tables_match_def by blast

lemma tables_match_empty: "tables_match io [] [] []"
  by (simp add: tables_match_def)

section \<open>Marks of deployment\<close>

text \<open>A database without the columns that deploying writes.\<close>

definition unmark_row :: "graph_row \<Rightarrow> graph_row" where
  "unmark_row g = g\<lparr>gr_status := [], gr_active := None, gr_last_event := None\<rparr>"

definition unmark :: "db \<Rightarrow> db" where
  "unmark d = d\<lparr>db_graphs := map unmark_row (db_graphs d)\<rparr>"

definition unmark_state :: "app_state \<Rightarrow> app_state" where
  "unmark_state st = set_db (unmark (as_db st)) st"

lemma unmark_row_simps [simp]:
  "gr_id (unmark_row g) = gr_id g" "gr_plan (unmark_row g) = gr_plan g" "gr_name (unmark_row g) = gr_name g"
  "gr_version (unmark_row g) = gr_version g" "gr_code (unmark_row g) = gr_code g"
  "gr_created_at (unmark_row g) = gr_created_at g"
  by (simp_all add: unmark_row_def)

lemma insort_key_map: "(\<And>x. f (h x) = f x) \<Longrightarrow> insort_key f (h x) (map h xs) = map h (insort_key f x xs)"
  by (induction xs) auto

lemma sort_key_map: "(\<And>x. f (h x) = f x) \<Longrightarrow> sort_key f (map h xs) = map h (sort_key f xs)"
  by (induction xs) (auto simp: insort_key_map)

lemma load_plan_unmark: "load_plan i (unmark d) = load_plan i d"
  by (simp add: load_plan_def find_graph_def unmark_def find_map_keyed option.case_eq_if option.map_sel)

lemma save_plan_unmark: "save_plan now i v b (unmark d) = map_prod unmark id (save_plan now i v b d)"
  by (simp add: save_plan_def unmark_def update_graphs_def unmark_row_def)

lemma as_db_unmark [simp]: "as_db (unmark_state st) = unmark (as_db st)" "as_db (set_db d st) = d"
  "unmark_state (set_db d st) = set_db (unmark d) (unmark_state st)"
  by (simp_all add: unmark_state_def as_db_def set_db_def)

definition unmark_def_of :: "graph_definition \<Rightarrow> graph_definition" where
  "unmark_def_of g = g\<lparr>gd_status := [], gd_active := False, gd_active_version := None, gd_last_event := None\<rparr>"

lemma unmark_def_simps [simp]:
  "gd_id (unmark_def_of g) = gd_id g" "gd_name (unmark_def_of g) = gd_name g" "gd_code (unmark_def_of g) = gd_code g"
  "gd_version (unmark_def_of g) = gd_version g"
  by (simp_all add: unmark_def_of_def)

lemma self_heal_unmark:
  "load_plan_self_heal io (unmark_def_of g) (unmark_state st) = map_prod unmark_state id (load_plan_self_heal io g st)"
  by (auto simp: load_plan_self_heal_def load_plan_unmark save_plan_unmark split: sum.splits storage_error.splits prod.splits)

lemma and_then_map:
  assumes "r' = map_prod h id r" "\<And>s a. f' (h s) a = map_prod h id (f s a)"
  shows "and_then r' f' = map_prod h id (and_then r f)"
  using assms by (cases r; cases "snd r") (auto simp: and_then_def split: sum.splits)

lemma refresh_loop_unmark:
  "refresh_loop io (map unmark_def_of gs) plans routes (unmark_state st) =
     map_prod unmark_state id (refresh_loop io gs plans routes st)"
proof (induction gs arbitrary: plans routes st)
  case (Cons g gs)
  show ?case
    unfolding list.map refresh_loop.simps
    by (rule and_then_map [OF self_heal_unmark])
      (auto simp: Cons.IH [unfolded id_def] id_def Let_def split: sum.splits option.splits)
qed simp

lemma list_unmark: "list_all_graphs (unmark d) = map unmark_def_of (list_all_graphs d)"
proof -
  have "row_to_graph (unmark_row g) = unmark_def_of (row_to_graph g)" for g
    by (simp add: row_to_graph_def unmark_row_def unmark_def_of_def)
  moreover have "sort_key gr_created_at (map unmark_row gs) = map unmark_row (sort_key gr_created_at gs)" for gs
    by (rule sort_key_map) simp
  ultimately show ?thesis
    by (simp add: list_all_graphs_def order_desc_def unmark_def rev_map)
qed

end
