(* ===== verification/Publish.thy ===== *)
theory Publish
  imports Server
begin

text \<open>
  The handler of published routes (\<open>tinypipe-server/src/routes.rs\<close>): method and path select a
  route, the inputs come from the query or the body, answers of routes with a time to live are
  cached.  A request is handled as a whole: the interleaving of handlers at their await points is
  not modelled.  The parameters of \<open>publish_io\<close> are the JSON parser and printer of \<open>serde_json\<close>.
  Headers are those the handler sets itself.
\<close>

section \<open>Inputs\<close>

definition hex_digit :: "char \<Rightarrow> nat option" where
  "hex_digit c =
     (let n = (of_char c :: nat) in
      if 48 \<le> n \<and> n \<le> 57 then Some (n - 48)
      else if 97 \<le> n \<and> n \<le> 102 then Some (n - 97 + 10)
      else if 65 \<le> n \<and> n \<le> 70 then Some (n - 65 + 10) else None)"

definition plus_as_space :: "char \<Rightarrow> char" where
  "plus_as_space c = (if c = CHR ''+'' then CHR '' '' else c)"

fun percent_bytes :: "string \<Rightarrow> string" where
  "percent_bytes (c # h # l # rest) =
     (if c = CHR ''%'' \<and> hex_digit h \<noteq> None \<and> hex_digit l \<noteq> None
      then char_of (the (hex_digit h) * 16 + the (hex_digit l)) # percent_bytes rest
      else plus_as_space c # percent_bytes (h # l # rest))"
| "percent_bytes cs = map plus_as_space cs"

definition percent_decode :: "string \<Rightarrow> string" where
  "percent_decode s = utf8_lossy (percent_bytes s)"

definition json_of_f64 :: "f64 \<Rightarrow> json" where
  "json_of_f64 f = (case f of FFin _ _ _ \<Rightarrow> JNumber None (Some f) | _ \<Rightarrow> JNull)"

definition parse_scalar :: "string \<Rightarrow> json" where
  "parse_scalar s =
     (if s = ''true'' then JBool True
      else if s = ''false'' then JBool False
      else if s = ''null'' then JNull
      else case parse_i64 s of
          Some n \<Rightarrow> JNumber (Some n) (Some (f64_of_int n))
        | None \<Rightarrow> (case f64_parse s of Some f \<Rightarrow> json_of_f64 f | None \<Rightarrow> JString s))"

definition query_pair :: "string \<Rightarrow> json smap \<Rightarrow> json smap" where
  "query_pair pair m =
     (if pair = [] then m
      else
        let (k, v) = (case split_once pair ''='' of
              Some (k, v) \<Rightarrow> (percent_decode k, percent_decode v)
            | None \<Rightarrow> (percent_decode pair, []))
        in if k = [] then m else upd k (parse_scalar v) m)"

definition parse_query :: "string \<Rightarrow> json" where
  "parse_query raw = JObject (fold query_pair (split_on CHR ''&'' raw) [])"

section \<open>Requests and responses\<close>

record request =
  rq_method :: string
  rq_path :: string
  rq_query :: "string option"
  rq_body :: "string + string"

text \<open>The body is a JSON answer or the bytes of one.\<close>

record response =
  rs_status :: nat
  rs_headers :: "(string \<times> string) list"
  rs_body :: "json + string"

record publish_io =
  pb_parse :: "string \<Rightarrow> json option"
  pb_bytes :: "json \<Rightarrow> string + string"

definition json_response :: "nat \<Rightarrow> json \<Rightarrow> response" where
  "json_response status j = \<lparr>rs_status = status, rs_headers = [], rs_body = Inl j\<rparr>"

definition error_response :: "nat \<Rightarrow> string \<Rightarrow> response" where
  "error_response status m = json_response status (JObject [(''error'', JString m)])"

definition cache_response :: "nat \<Rightarrow> string \<Rightarrow> bool \<Rightarrow> response" where
  "cache_response status body hit =
     \<lparr>rs_status = status,
      rs_headers = [(''content-type'', ''application/json''),
        (''cache-control'', if hit then ''max-age=300'' else ''no-store''),
        (''x-tinypipe-cache'', if hit then ''HIT'' else ''MISS'')],
      rs_body = Inr body\<rparr>"

definition req_method :: "string \<Rightarrow> route_method option" where
  "req_method m =
     (if m = ''GET'' then Some Get else if m = ''POST'' then Some Post else if m = ''PUT'' then Some Put
      else if m = ''PATCH'' then Some Patch else if m = ''DELETE'' then Some Delete
      else if m = ''HEAD'' then Some Head else None)"

section \<open>Paths without a route\<close>

definition published_methods :: "route_config smap \<Rightarrow> string \<Rightarrow> route_method list" where
  "published_methods routes path = filter (\<lambda>m. map_of routes (route_key path m) \<noteq> None) all_methods"

definition key_path :: "string \<Rightarrow> string" where
  "key_path k = takeWhile (\<lambda>c. c \<noteq> CHR 0x01) k"

definition route_missing :: "route_config smap \<Rightarrow> string \<Rightarrow> response" where
  "route_missing routes path =
     json_response 404 (JObject
       [(''error'', JString (''no published route for '' @ quoted path)),
        (''published'', JArray (map JString (remdups_adj (sort (map (key_path \<circ> fst) routes)))))])"

definition allow_text :: "route_config smap \<Rightarrow> string \<Rightarrow> string" where
  "allow_text routes path = join '', '' (map method_text (published_methods routes path))"

definition method_miss :: "route_config smap \<Rightarrow> string \<Rightarrow> string \<Rightarrow> response" where
  "method_miss routes path m =
     (if published_methods routes path = [] then route_missing routes path
      else (error_response 405 (''route '' @ quoted (''/'' @ path) @ '' does not accept '' @ m @ ''; allowed: '' @
             allow_text routes path))\<lparr>rs_headers := [(''allow'', allow_text routes path)]\<rparr>)"

definition options_preflight :: "route_config smap \<Rightarrow> string \<Rightarrow> response" where
  "options_preflight routes path =
     (if published_methods routes path = [] then route_missing routes path
      else \<lparr>rs_status = 204,
             rs_headers = [(''allow'', allow_text routes path), (''access-control-allow-origin'', ''*''),
               (''access-control-allow-methods'', allow_text routes path),
               (''access-control-allow-headers'', ''Content-Type''), (''access-control-max-age'', ''86400'')],
             rs_body = Inr []\<rparr>)"

section \<open>The handler\<close>

definition request_path :: "request \<Rightarrow> string" where
  "request_path rq = (case strip_prefix (rq_path rq) ''/'' of Some p \<Rightarrow> p | None \<Rightarrow> rq_path rq)"

definition request_inputs :: "publish_io \<Rightarrow> request \<Rightarrow> response + json" where
  "request_inputs pio rq =
     (if rq_method rq \<in> {''GET'', ''HEAD'', ''DELETE''}
      then Inr (parse_query (case rq_query rq of Some q \<Rightarrow> q | None \<Rightarrow> []))
      else case rq_body rq of
          Inl e \<Rightarrow> Inl (error_response 400 (''body read failed: '' @ e))
        | Inr b \<Rightarrow>
            if b = [] then Inr (JObject [])
            else (case pb_parse pio b of
                    Some j \<Rightarrow> Inr j
                  | None \<Rightarrow> Inl (error_response 400 ''POST/PUT/PATCH body must be a JSON object'')))"

definition cache_key :: "publish_io \<Rightarrow> route_config \<Rightarrow> string \<Rightarrow> json \<Rightarrow> nat option" where
  "cache_key pio rc path inputs =
     (if 0 < rc_cache_ttl rc
      then Some (fnv1a (path @ [CHR 0x00] @ (case pb_bytes pio inputs of Inr b \<Rightarrow> b | Inl _ \<Rightarrow> [])))
      else None)"

definition cached_answer :: "nat \<Rightarrow> nat option \<Rightarrow> app_state \<Rightarrow> string option" where
  "cached_answer now key st =
     (case key of
        None \<Rightarrow> None
      | Some k \<Rightarrow>
          (case map_of (as_resp_cache st) k of
             Some (expires, body) \<Rightarrow> if now < expires then Some body else None
           | None \<Rightarrow> None))"

definition failure_status :: "string \<Rightarrow> nat" where
  "failure_status e =
     (if contains e ''not found'' then 404
      else if starts_with e ''missing environment variables'' then 400 else 500)"

definition outcome_status :: "json \<Rightarrow> nat" where
  "outcome_status j =
     (case answer_status j of
        Some s \<Rightarrow> if s = ''completed'' then 200 else if s = ''paused'' then 202 else 422
      | None \<Rightarrow> 422)"

definition store_answer :: "nat \<Rightarrow> nat option \<Rightarrow> route_config \<Rightarrow> nat \<Rightarrow> string \<Rightarrow> app_state \<Rightarrow> app_state" where
  "store_answer now key rc status body st =
     (case key of
        Some k \<Rightarrow>
          if status = 200 \<and> 0 < rc_cache_ttl rc
          then st\<lparr>as_resp_cache := upd k (now + rc_cache_ttl rc * 1000000, body) (as_resp_cache st)\<rparr> else st
      | None \<Rightarrow> st)"

definition run_route ::
  "server_io \<Rightarrow> publish_io \<Rightarrow> nat \<Rightarrow> route_config \<Rightarrow> nat option \<Rightarrow> bool \<Rightarrow> json \<Rightarrow> app_state \<Rightarrow> app_state \<times> response" where
  "run_route io pio now rc key is_head inputs st =
     (case map_of (as_plans st) (rc_graph rc) of
        None \<Rightarrow> (st, error_response 404 ''plan not loaded for published graph'')
      | Some p \<Rightarrow>
          (case run_execution io None p inputs [] None True
                  (if 0 < rc_timeout_ms rc then Some (rc_timeout_ms rc) else None) (as_audit st) st of
             (st1, Inl e) \<Rightarrow> (st1, error_response (failure_status e) e)
           | (st1, Inr j) \<Rightarrow>
               (case pb_bytes pio j of
                  Inl e \<Rightarrow> (st1, error_response 500 (''serialize: '' @ e))
                | Inr body \<Rightarrow>
                    let r = cache_response (outcome_status j) body False in
                    (store_answer now key rc (outcome_status j) body st1,
                     if is_head then r\<lparr>rs_body := Inr []\<rparr> else r))))"

definition publish :: "server_io \<Rightarrow> publish_io \<Rightarrow> nat \<Rightarrow> request \<Rightarrow> app_state \<Rightarrow> app_state \<times> response" where
  "publish io pio now rq st =
     (let path = request_path rq in
      if rq_method rq = ''OPTIONS'' then (st, options_preflight (as_routes st) path)
      else case Option.bind (req_method (rq_method rq)) (\<lambda>m. map_of (as_routes st) (route_key path m)) of
          None \<Rightarrow> (st, method_miss (as_routes st) path (rq_method rq))
        | Some rc \<Rightarrow>
            (case request_inputs pio rq of
               Inl r \<Rightarrow> (st, r)
             | Inr inputs \<Rightarrow>
                 let key = cache_key pio rc path inputs in
                 (case cached_answer now key st of
                    Some body \<Rightarrow> (st, cache_response 200 body True)
                  | None \<Rightarrow> run_route io pio now rc key (rq_method rq = ''HEAD'') inputs st)))"

end
