(* ===== verification/Insight.thy ===== *)
theory Insight
  imports PlanView Storage EnvDeps
begin

text \<open>
  The figures of the reports and the profiles (\<open>tinypipe-insight/src/metrics.rs\<close>, \<open>profile.rs\<close>).
  The parameters of \<open>insight_io\<close> are the decoder of JSON string literals, the FlatBuffers decoder
  and \<open>str::to_uppercase\<close> outside ASCII.  The texts of the reports are not modelled.
\<close>

section \<open>Profiles\<close>

definition builtin_entry :: "string \<Rightarrow> string \<Rightarrow> string \<Rightarrow> string \<Rightarrow> string list \<Rightarrow> string \<Rightarrow> profile" where
  "builtin_entry name label view dir focus description =
     \<lparr>pf_name = name, pf_label = label, pf_description = description, pf_view = view, pf_direction = dir,
      pf_focus = focus, pf_config = JObject [], pf_builtin = True\<rparr>"

text \<open>The descriptions are the argument: a text per name.\<close>

definition builtin_profiles :: "(string \<Rightarrow> string) \<Rightarrow> profile list" where
  "builtin_profiles describe =
     [builtin_entry ''pm'' ''PM'' ''full'' ''td'' [''executions'', ''tools'', ''structure'', ''churn''] (describe ''pm''),
      builtin_entry ''ba'' ''BA'' ''summary'' ''td'' [''duration'', ''structure'', ''endpoints'', ''churn''] (describe ''ba''),
      builtin_entry ''ceo'' ''CEO'' ''summary'' ''lr'' [''portfolio'', ''executions'', ''reliability''] (describe ''ceo''),
      builtin_entry ''architect'' ''Architect'' ''layers'' ''td'' [''structure'', ''subgraphs'', ''endpoints'', ''tools'']
        (describe ''architect''),
      builtin_entry ''senior'' ''Senior Engineer'' ''full'' ''td'' [''structure'', ''tools'', ''churn'', ''reliability'']
        (describe ''senior''),
      builtin_entry ''devops'' ''DevOps'' ''full'' ''td'' [''reliability'', ''endpoints'', ''env'', ''duration'']
        (describe ''devops'')]"

definition builtin_profile :: "(string \<Rightarrow> string) \<Rightarrow> string \<Rightarrow> profile option" where
  "builtin_profile describe name = find (\<lambda>p. pf_name p = name) (builtin_profiles describe)"

definition resolve_profile :: "codec \<Rightarrow> (string \<Rightarrow> string) \<Rightarrow> string \<Rightarrow> db \<Rightarrow> profile option" where
  "resolve_profile jc describe name d =
     (case load_profile jc name d of Inr p \<Rightarrow> Some p | Inl _ \<Rightarrow> builtin_profile describe name)"

fun save_profiles :: "codec \<Rightarrow> profile list \<Rightarrow> db \<Rightarrow> unit outcome_of" where
  "save_profiles jc [] d = (d, Inr ())"
| "save_profiles jc (p # ps) d = then_do (save_profile jc p d) (\<lambda>d _. save_profiles jc ps d)"

definition seed_builtin_profiles :: "codec \<Rightarrow> (string \<Rightarrow> string) \<Rightarrow> db \<Rightarrow> unit outcome_of" where
  "seed_builtin_profiles jc describe d =
     (let names = map pf_name (list_profiles jc d)
      in save_profiles jc (filter (\<lambda>p. pf_name p \<notin> set names) (builtin_profiles describe)) d)"

definition render_options_of :: "profile \<Rightarrow> render_options" where
  "render_options_of p =
     \<lparr>ro_view = (case parse_view (pf_view p) of Some v \<Rightarrow> v | None \<Rightarrow> Full),
      ro_direction = (case parse_direction (pf_direction p) of Some d \<Rightarrow> d | None \<Rightarrow> Td), ro_numbered = True\<rparr>"

section \<open>Figures of a graph\<close>

record insight_io =
  in_codec :: codec
  in_literal :: "string \<Rightarrow> string option"
  in_root :: "blob \<Rightarrow> string + fb_plan"
  in_upper :: "string \<Rightarrow> string"

record graph_stats =
  gs_id :: string
  gs_name :: string
  gs_version :: nat
  gs_status :: string
  gs_last_event :: "string option"
  gs_version_count :: nat
  gs_executions :: nat
  gs_failed :: nat
  gs_avg_duration_us :: "nat option"
  gs_p95_duration_us :: "nat option"
  gs_node_count :: "u32 option"
  gs_edge_count :: "u32 option"
  gs_tool_calls :: "(string \<times> nat) list"
  gs_subgraph_deps :: "string list"
  gs_env_deps :: "(string \<times> bool) list"
  gs_missing_env :: "string list"
  gs_http_endpoints :: "string list"

text \<open>\<open>(n as f64 * 0.95).ceil() as usize\<close>.\<close>

fun f64_ceil_usize :: "f64 \<Rightarrow> nat" where
  "f64_ceil_usize (FFin s m e) =
     (if s then 0 else if 0 \<le> e then m * 2 ^ nat e else (m + 2 ^ nat (- e) - 1) div 2 ^ nat (- e))"
| "f64_ceil_usize (FInf s) = (if s then 0 else 2 ^ 64 - 1)"
| "f64_ceil_usize FNaN = 0"

definition f64_095 :: f64 where
  "f64_095 = FFin False 8556839292003942 (- 53)"

definition p95_index :: "nat \<Rightarrow> nat" where
  "p95_index n = min (f64_ceil_usize (f64_mul (f64_of_int (int n)) f64_095) - 1) (n - 1)"

text \<open>The sum of the \<open>u64\<close> durations wraps around.\<close>

definition average :: "nat list \<Rightarrow> nat option" where
  "average ds = (if ds = [] then None else Some (sum_list ds mod 2 ^ 64 div length ds))"

definition percentile95 :: "nat list \<Rightarrow> nat option" where
  "percentile95 ds = (if ds = [] then None else Some (sort ds ! p95_index (length ds)))"

definition call_targets :: "(string \<Rightarrow> string option) \<Rightarrow> compiled_plan \<Rightarrow> (string \<times> compiled_node) list" where
  "call_targets lit p =
     filter (\<lambda>tn. fst tn \<noteq> [])
       (map (\<lambda>n. (or_default (node_literal lit n ''target''), n)) (filter (\<lambda>n. cn_op n = Call) (cp_nodes p)))"

definition count_call :: "string \<Rightarrow> nat smap \<Rightarrow> nat smap" where
  "count_call t m = upd t (1 + (case map_of m t of Some k \<Rightarrow> k | None \<Rightarrow> 0)) m"

definition tool_histogram :: "string list \<Rightarrow> (string \<times> nat) list" where
  "tool_histogram ts = order_desc snd (order_asc fst (fold count_call ts []))"

definition endpoint_of :: "(string \<Rightarrow> string option) \<Rightarrow> string \<times> compiled_node \<Rightarrow> string option" where
  "endpoint_of lit tn =
     (if fst tn = ''http_request'' then url_host (or_default (node_literal lit (snd tn) ''url'')) else None)"

definition endpoints_of :: "(string \<Rightarrow> string option) \<Rightarrow> compiled_plan \<Rightarrow> string list" where
  "endpoints_of lit p =
     fold (\<lambda>h acc. if h \<in> set acc then acc else acc @ [h]) (List.map_filter (endpoint_of lit) (call_targets lit p)) []"

definition analyze_plan :: "(string \<Rightarrow> string option) \<Rightarrow> compiled_plan \<Rightarrow> graph_stats \<Rightarrow> graph_stats" where
  "analyze_plan lit p s =
     s\<lparr>gs_node_count := Some (length (cp_nodes p) mod u32_modulus),
       gs_edge_count := Some (length (cp_edges p) mod u32_modulus),
       gs_tool_calls := tool_histogram (map fst (call_targets lit p)),
       gs_http_endpoints := endpoints_of lit p, gs_subgraph_deps := subgraph_targets lit p,
       gs_env_deps := map (\<lambda>d. (ed_key d, ed_optional d)) (scan_plan_env_deps lit p)\<rparr>"

definition empty_stats :: "graph_definition \<Rightarrow> graph_stats" where
  "empty_stats g =
     \<lparr>gs_id = gd_id g, gs_name = gd_name g, gs_version = gd_version g, gs_status = gd_status g,
      gs_last_event = gd_last_event g, gs_version_count = 0, gs_executions = 0, gs_failed = 0,
      gs_avg_duration_us = None, gs_p95_duration_us = None, gs_node_count = None, gs_edge_count = None,
      gs_tool_calls = [], gs_subgraph_deps = [], gs_env_deps = [], gs_missing_env = [], gs_http_endpoints = []\<rparr>"

definition plan_stats :: "insight_io \<Rightarrow> db \<Rightarrow> graph_stats \<Rightarrow> graph_stats" where
  "plan_stats io d s =
     (case load_plan (gs_id s) d of
        Inl _ \<Rightarrow> s
      | Inr b \<Rightarrow> (case from_fb_bytes (in_root io) b of Inl _ \<Rightarrow> s | Inr p \<Rightarrow> analyze_plan (in_literal io) p s))"

definition collect_graph :: "insight_io \<Rightarrow> env option \<Rightarrow> db \<Rightarrow> graph_definition \<Rightarrow> graph_stats" where
  "collect_graph io e d g =
     (let xs = list_executions (in_codec io) (gd_id g) (Some 500) d;
          ds = List.map_filter ex_duration_us xs;
          s = plan_stats io d
            ((empty_stats g)\<lparr>gs_executions := length xs, gs_failed := length (filter (\<lambda>x. ex_status x = Failed) xs),
               gs_avg_duration_us := average ds, gs_p95_duration_us := percentile95 ds,
               gs_version_count := length (list_versions (gd_id g) d)\<rparr>)
      in case e of
           None \<Rightarrow> s
         | Some e \<Rightarrow>
             s\<lparr>gs_missing_env := map fst (filter (\<lambda>(k, opt). \<not> opt \<and> env_get (in_upper io) e k = None) (gs_env_deps s))\<rparr>)"

section \<open>Figures of the portfolio\<close>

record portfolio_metrics =
  pm_graphs :: "graph_stats list"
  pm_total_executions :: nat
  pm_total_failed :: nat
  pm_rollback_count :: nat
  pm_deployed_count :: nat
  pm_env_risk_graphs :: nat

definition add_graph :: "graph_definition \<times> graph_stats \<Rightarrow> portfolio_metrics \<Rightarrow> portfolio_metrics" where
  "add_graph gs pm =
     (case gs of (g, s) \<Rightarrow>
        \<lparr>pm_graphs = pm_graphs pm @ [s],
         pm_total_executions = pm_total_executions pm + gs_executions s,
         pm_total_failed = pm_total_failed pm + gs_failed s,
         pm_rollback_count = pm_rollback_count pm +
           (if starts_with (or_default (gs_last_event s)) ''rollback:'' then 1 else 0),
         pm_deployed_count = pm_deployed_count pm +
           (if gs_status s = ''deployed'' \<or> (1 < gs_version s \<and> gd_active g) then 1 else 0),
         pm_env_risk_graphs = pm_env_risk_graphs pm + (if gs_missing_env s \<noteq> [] then 1 else 0)\<rparr>)"

definition collect_metrics :: "insight_io \<Rightarrow> env option \<Rightarrow> db \<Rightarrow> portfolio_metrics" where
  "collect_metrics io e d =
     fold add_graph (map (\<lambda>g. (g, collect_graph io e d g)) (list_all_graphs d))
       \<lparr>pm_graphs = [], pm_total_executions = 0, pm_total_failed = 0, pm_rollback_count = 0,
        pm_deployed_count = 0, pm_env_risk_graphs = 0\<rparr>"

section \<open>Facts\<close>

text \<open>The index of the percentile stays inside the list, whatever the rounding of the product.\<close>

lemma percentile95_in_list: "percentile95 ds = Some d \<Longrightarrow> d \<in> set ds"
proof -
  assume p: "percentile95 ds = Some d"
  then have "ds \<noteq> []" "d = sort ds ! p95_index (length ds)" by (auto simp: percentile95_def split: if_splits)
  moreover have "p95_index (length ds) < length (sort ds)"
    using \<open>ds \<noteq> []\<close> by (cases ds) (auto simp: p95_index_def min_def)
  ultimately have "d \<in> set (sort ds)" by (metis nth_mem)
  then show ?thesis by simp
qed

text \<open>The number of executions of a graph is counted over its newest 500 rows.\<close>

lemma executions_capped: "gs_executions (collect_graph io e d g) \<le> 500"
proof -
  have "as_i64 500 = 500" by (simp add: as_i64_def wrap_i64_def)
  then have "length (list_executions jc i (Some 500) d) \<le> 500" for jc i
    by (simp add: list_executions_def sql_limit_def)
  then show ?thesis
    by (simp add: collect_graph_def Let_def plan_stats_def analyze_plan_def split: option.split sum.split)
qed

end
