(* ===== verification/Api.thy ===== *)
theory Api
  imports Publish Insight
begin

text \<open>
  The end points below \<open>/api\<close> (\<open>tinypipe-server/src/api.rs\<close>), each a function of the application
  state.  A handler returns the new state with its answer or an error; the status codes of the
  errors are in \<open>api_status\<close>.  \<open>describe\<close> gives the descriptions of the built-in profiles, \<open>upc\<close> and
  \<open>dbg\<close> are the parameters of the renderings.  Left out are the end points of reports and daemons, the
  health check and the JSON forms of lists.
\<close>

section \<open>Errors and the token\<close>

datatype api_error =
    BadRequest string
  | NotFound string
  | Conflict string
  | Unauthorized string
  | Internal string

fun api_status :: "api_error \<Rightarrow> nat" where
  "api_status (BadRequest _) = 400"
| "api_status (NotFound _) = 404"
| "api_status (Conflict _) = 409"
| "api_status (Unauthorized _) = 401"
| "api_status (Internal _) = 500"

definition err_from :: "string \<Rightarrow> api_error" where
  "err_from s =
     (if contains s ''not found'' \<or> contains s ''not exist'' then NotFound s
      else if starts_with s ''missing environment variables'' \<or> contains s ''compile failed'' \<or> contains s ''parse error''
      then BadRequest s
      else Internal s)"

type_synonym 'a api_result = "app_state \<times> (api_error + 'a)"

text \<open>The value of the \<open>Authorization\<close> header, when it is there and printable.\<close>

definition require_token :: "app_state \<Rightarrow> string option \<Rightarrow> api_error + unit" where
  "require_token st authorization =
     (case as_token st of
        None \<Rightarrow> Inl (Unauthorized ''server token not configured (set TINYPIPE_SERVER_TOKEN)'')
      | Some expected \<Rightarrow>
          if Option.bind authorization (\<lambda>v. strip_prefix v ''Bearer '') = Some expected then Inr ()
          else Inl (Unauthorized ''invalid or missing bearer token''))"

definition guarded :: "string option \<Rightarrow> (app_state \<Rightarrow> 'a api_result) \<Rightarrow> app_state \<Rightarrow> 'a api_result" where
  "guarded auth f st = (case require_token st auth of Inl e \<Rightarrow> (st, Inl e) | Inr _ \<Rightarrow> f st)"

definition map_error :: "('e \<Rightarrow> 'f) \<Rightarrow> 's \<times> ('e + 'a) \<Rightarrow> 's \<times> ('f + 'a)" where
  "map_error f r = (fst r, map_sum f id (snd r))"

definition lift_result :: "'s \<Rightarrow> 'e + 'a \<Rightarrow> 's \<times> ('e + 'a)" where
  "lift_result s r = (s, r)"

definition found_graph :: "string \<Rightarrow> app_state \<Rightarrow> graph_definition api_result" where
  "found_graph i st = lift_result st (map_sum err_from id (server_resolve_graph (as_db st) i))"

section \<open>Executions\<close>

text \<open>The answer of a run with its status.\<close>

definition classify_execution :: "json \<Rightarrow> nat \<times> json" where
  "classify_execution j = (outcome_status j, j)"

record execute_req =
  eq_inputs :: "json option"
  eq_env :: "(string \<times> string) list option"
  eq_pause_after :: "u32 option"
  eq_no_env_check :: "bool option"
  eq_timeout_ms :: "nat option"

definition or_empty_object :: "json option \<Rightarrow> json" where
  "or_empty_object j = (case j of Some j \<Rightarrow> j | None \<Rightarrow> JObject [])"

definition or_no_env :: "(string \<times> string) list option \<Rightarrow> (string \<times> string) list" where
  "or_no_env e = (case e of Some e \<Rightarrow> e | None \<Rightarrow> [])"

definition execute_graph :: "server_io \<Rightarrow> string \<Rightarrow> execute_req \<Rightarrow> app_state \<Rightarrow> (nat \<times> json) api_result" where
  "execute_graph io i req st =
     map_error err_from
       (case server_resolve_graph (as_db st) i of
          Inl e \<Rightarrow> (st, Inl e)
        | Inr g \<Rightarrow>
            and_then (load_plan_self_heal io g st) (\<lambda>st p.
            and_then (run_execution io (Some g) p (or_empty_object (eq_inputs req)) (or_no_env (eq_env req))
                (eq_pause_after req) (eq_no_env_check req = Some True) (eq_timeout_ms req) (as_audit st) st)
              (\<lambda>st j. (st, Inr (classify_execution j)))))"

definition api_resume ::
  "server_io \<Rightarrow> string option \<Rightarrow> string \<Rightarrow> u32 option \<Rightarrow> (string \<times> string) list option \<Rightarrow> app_state \<Rightarrow> (nat \<times> json) api_result" where
  "api_resume io auth i max_nodes env_over =
     guarded auth (\<lambda>st. map_error err_from
       (and_then (resume_execution io i max_nodes (or_no_env env_over) st) (\<lambda>st j. (st, Inr (classify_execution j)))))"

definition scheduler_run ::
  "codec \<Rightarrow> (string \<Rightarrow> server_io) \<Rightarrow> string option \<Rightarrow> u32 option \<Rightarrow> app_state \<Rightarrow> scheduler_summary api_result" where
  "scheduler_run jc ios auth max_nodes =
     guarded auth (\<lambda>st. case run_scheduler jc ios max_nodes st of (st', s) \<Rightarrow> (st', Inr s))"

text \<open>Programs sent with the request: their plans are cached under the hash of the program, the
  program is compared before the plan is used.\<close>

definition compile_plan :: "server_io \<Rightarrow> string \<Rightarrow> string + compiled_plan" where
  "compile_plan io code =
     map_sum (\<lambda>e. ''compile failed: '' @ e) co_compiled
       (compile (rg_frontend (sv_registry io)) (rg_codegen (sv_registry io)) (rg_encode (sv_registry io)) length code)"

definition compile_and_cache :: "server_io \<Rightarrow> nat \<Rightarrow> string \<Rightarrow> app_state \<Rightarrow> app_state \<times> (string + compiled_plan)" where
  "compile_and_cache io now code st =
     (case compile_plan io code of
        Inl e \<Rightarrow> (st, Inl e)
      | Inr p \<Rightarrow> (cache_dynamic_plan now (fnv1a code) code p st, Inr p))"

definition dynamic_plan :: "server_io \<Rightarrow> nat \<Rightarrow> string \<Rightarrow> app_state \<Rightarrow> app_state \<times> (string + compiled_plan)" where
  "dynamic_plan io now code st =
     (case map_of (as_dynamic st) (fnv1a code) of
        Some (ts, cached_code, p) \<Rightarrow>
          if cached_code = code then (st, Inr p) else compile_and_cache io now code st
      | None \<Rightarrow> compile_and_cache io now code st)"

definition run_dynamic ::
  "server_io \<Rightarrow> nat \<Rightarrow> string option \<Rightarrow> string \<Rightarrow> json option \<Rightarrow> (string \<times> string) list option \<Rightarrow> u32 option \<Rightarrow>
     app_state \<Rightarrow> (nat \<times> json) api_result" where
  "run_dynamic io now auth code inputs env_over pause_after =
     guarded auth (\<lambda>st. map_error err_from
       (and_then (dynamic_plan io now code st) (\<lambda>st p.
        and_then (run_execution io None p (or_empty_object inputs) (or_no_env env_over) pause_after True None False st)
          (\<lambda>st j. (st, Inr (classify_execution j))))))"

section \<open>Routes and their conflicts\<close>

definition check_route_conflict :: "server_io \<Rightarrow> app_state \<Rightarrow> string \<Rightarrow> string \<Rightarrow> api_error + unit" where
  "check_route_conflict io st i meta =
     (case parse_route_config (sv_meta io) meta [] of
        Inl e \<Rightarrow> Inl (BadRequest e)
      | Inr None \<Rightarrow> Inr ()
      | Inr (Some rc) \<Rightarrow>
          (case map_of (as_routes st) (config_key rc) of
             None \<Rightarrow> Inr ()
           | Some ex \<Rightarrow>
               if rc_graph ex \<noteq> i
               then Inl (Conflict (''route '' @ quoted (''/'' @ rc_path rc) @ '' ('' @ method_text (rc_method rc) @
                 '') is already published by graph '' @ quoted (rc_graph ex)))
               else Inr ()))"

definition validate_route_conflict :: "server_io \<Rightarrow> app_state \<Rightarrow> string \<Rightarrow> string \<Rightarrow> api_error + unit" where
  "validate_route_conflict io st i code =
     (case compile (rg_frontend (sv_registry io)) (rg_codegen (sv_registry io)) (rg_encode (sv_registry io)) length code of
        Inl e \<Rightarrow> Inl (BadRequest e)
      | Inr out \<Rightarrow> check_route_conflict io st i (cm_meta_json (cp_metadata (co_compiled out))))"

definition validate_route_conflict_for_plan :: "server_io \<Rightarrow> app_state \<Rightarrow> string \<Rightarrow> blob \<Rightarrow> api_error + unit" where
  "validate_route_conflict_for_plan io st i b =
     (case from_fb_bytes (rg_root (sv_registry io)) b of
        Inl e \<Rightarrow> Inl (BadRequest (''plan decode: '' @ e))
      | Inr p \<Rightarrow> check_route_conflict io st i (cm_meta_json (cp_metadata p)))"

definition refreshed :: "server_io \<Rightarrow> string \<Rightarrow> app_state \<Rightarrow> (nat \<times> nat) api_result" where
  "refreshed io what st = map_error (\<lambda>e. BadRequest (what @ '' but route registration failed: '' @ e)) (refresh_all io st)"

section \<open>Graphs\<close>

definition run_storage :: "(db \<Rightarrow> 'a outcome_of) \<Rightarrow> (storage_error \<Rightarrow> 'e) \<Rightarrow> app_state \<Rightarrow> app_state \<times> ('e + 'a)" where
  "run_storage f err st = (case f (as_db st) of (d, r) \<Rightarrow> (set_db d st, map_sum err id r))"

definition told :: "string \<Rightarrow> storage_error \<Rightarrow> string" where
  "told what e = what @ show_storage_error e"

text \<open>The answer is the id of the graph with the numbers of routes and cached plans.\<close>

definition api_create_graph ::
  "server_io \<Rightarrow> string option \<Rightarrow> string \<Rightarrow> string \<Rightarrow> app_state \<Rightarrow> (string \<times> nat \<times> nat) api_result" where
  "api_create_graph io auth name code =
     guarded auth (\<lambda>st.
       and_then (lift_result st (validate_route_conflict io st [] code)) (\<lambda>st _.
       and_then (map_error err_from
           (case map_sum (\<lambda>e. ''compile failed: '' @ e) id (compile_blob (sv_registry io) code) of
              Inl e \<Rightarrow> (st, Inl e)
            | Inr b \<Rightarrow>
                and_then (run_storage (create_graph (sv_uid io 0) (rg_now (sv_registry io)) name code) (told ''create: '') st)
                  (\<lambda>st i. and_then (run_storage (save_plan (rg_now (sv_registry io)) i 1 b) (told ''save plan: '') st)
                    (\<lambda>st _. (st, Inr i))))) (\<lambda>st i.
       and_then (refreshed io ''graph created'' st) (\<lambda>st (plans, routes). (st, Inr (i, routes, plans))))))"

definition api_update_graph ::
  "server_io \<Rightarrow> string option \<Rightarrow> string \<Rightarrow> string \<Rightarrow> app_state \<Rightarrow> (string \<times> nat) api_result" where
  "api_update_graph io auth i code =
     guarded auth (\<lambda>st.
       and_then (found_graph i st) (\<lambda>st g.
       and_then (lift_result st (validate_route_conflict io st (gd_id g) code)) (\<lambda>st _.
       and_then (map_error err_from
           (case map_sum (\<lambda>e. ''compile failed: '' @ e) id (compile_blob (sv_registry io) code) of
              Inl e \<Rightarrow> (st, Inl e)
            | Inr b \<Rightarrow>
                and_then (run_storage (update_graph (rg_now (sv_registry io)) (gd_id g) code) (told ''update: '') st)
                  (\<lambda>st v. and_then (run_storage (save_plan (rg_now (sv_registry io)) (gd_id g) v b) (told ''save plan: '') st)
                    (\<lambda>st _. (st, Inr v))))) (\<lambda>st v.
       and_then (refreshed io ''updated'' st) (\<lambda>st _. (st, Inr (gd_id g, v)))))))"

definition deploy_target :: "app_state \<Rightarrow> string \<Rightarrow> nat option \<Rightarrow> api_error + nat" where
  "deploy_target st i v =
     (case v of
        Some v \<Rightarrow> Inr v
      | None \<Rightarrow>
          (case list_versions i (as_db st) of
             [] \<Rightarrow> Inl (NotFound ''no versions to deploy'')
           | vs \<Rightarrow> Inr (fst (last vs))))"

definition target_plan :: "app_state \<Rightarrow> string \<Rightarrow> nat \<Rightarrow> api_error + blob" where
  "target_plan st i v = map_sum (err_from \<circ> show_storage_error) id (load_plan_version i v (as_db st))"

definition api_deploy_graph ::
  "server_io \<Rightarrow> string option \<Rightarrow> string \<Rightarrow> nat option \<Rightarrow> app_state \<Rightarrow> (string \<times> nat) api_result" where
  "api_deploy_graph io auth i version =
     guarded auth (\<lambda>st.
       and_then (found_graph i st) (\<lambda>st g.
       and_then (lift_result st (deploy_target st (gd_id g) version)) (\<lambda>st v.
       and_then (lift_result st (target_plan st (gd_id g) v)) (\<lambda>st b.
       and_then (lift_result st (validate_route_conflict_for_plan io st (gd_id g) b)) (\<lambda>st _.
       and_then (run_storage (deploy (gd_id g) v) (BadRequest \<circ> show_storage_error) st) (\<lambda>st _.
       and_then (refreshed io ''deployed'' st) (\<lambda>st _. (st, Inr (gd_id g, v)))))))))"

definition api_rollback_graph ::
  "server_io \<Rightarrow> string option \<Rightarrow> string \<Rightarrow> nat \<Rightarrow> app_state \<Rightarrow> (string \<times> nat) api_result" where
  "api_rollback_graph io auth i v =
     guarded auth (\<lambda>st.
       and_then (found_graph i st) (\<lambda>st g.
       and_then (lift_result st (target_plan st (gd_id g) v)) (\<lambda>st b.
       and_then (lift_result st (validate_route_conflict_for_plan io st (gd_id g) b)) (\<lambda>st _.
       and_then (run_storage (rollback (rg_now (sv_registry io)) (gd_id g) v) (BadRequest \<circ> show_storage_error) st) (\<lambda>st _.
       and_then (refreshed io ''rolled back'' st) (\<lambda>st _. (st, Inr (gd_id g, v))))))))"

definition api_list_versions :: "string \<Rightarrow> app_state \<Rightarrow> (nat \<times> string \<times> string) list api_result" where
  "api_list_versions i st = and_then (found_graph i st) (\<lambda>st g. (st, Inr (list_versions (gd_id g) (as_db st))))"

definition api_list_executions ::
  "codec \<Rightarrow> string option \<Rightarrow> string option \<Rightarrow> app_state \<Rightarrow> execution list api_result" where
  "api_list_executions jc auth graph =
     guarded auth (\<lambda>st.
       case graph of
         None \<Rightarrow> (st, Inl (BadRequest (''query param '' @ quoted ''graph_id'' @ '' is required'')))
       | Some i \<Rightarrow> and_then (found_graph i st) (\<lambda>st g. (st, Inr (list_executions jc (gd_id g) None (as_db st)))))"

definition show_execution ::
  "codec \<Rightarrow> string option \<Rightarrow> string \<Rightarrow> app_state \<Rightarrow> (execution \<times> execution_step list) api_result" where
  "show_execution jc auth i =
     guarded auth (\<lambda>st.
       case load_execution jc i (as_db st) of
         Inl e \<Rightarrow> (st, Inl (NotFound (''execution '' @ quoted i @ '': '' @ show_storage_error e)))
       | Inr x \<Rightarrow> (st, Inr (x, list_steps jc i (as_db st))))"

section \<open>Profiles\<close>

record profile_req =
  pq_label :: "string option"
  pq_description :: "string option"
  pq_view :: "string option"
  pq_direction :: "string option"
  pq_focus :: "string list option"
  pq_config :: "json option"

definition requested_profile :: "string \<Rightarrow> profile_req \<Rightarrow> profile" where
  "requested_profile name req =
     \<lparr>pf_name = name, pf_label = (case pq_label req of Some l \<Rightarrow> l | None \<Rightarrow> name),
      pf_description = or_default (pq_description req),
      pf_view = (case pq_view req of Some v \<Rightarrow> v | None \<Rightarrow> ''full''),
      pf_direction = (case pq_direction req of Some d \<Rightarrow> d | None \<Rightarrow> ''td''),
      pf_focus = (case pq_focus req of Some f \<Rightarrow> f | None \<Rightarrow> []),
      pf_config = or_empty_object (pq_config req), pf_builtin = False\<rparr>"

definition known_option :: "string \<Rightarrow> ('a \<Rightarrow> 'b option) \<Rightarrow> ('a \<Rightarrow> string) \<Rightarrow> 'a option \<Rightarrow> api_error + unit" where
  "known_option what parse quote_of v =
     (case v of
        None \<Rightarrow> Inr ()
      | Some v \<Rightarrow> if parse v = None then Inl (BadRequest (''invalid '' @ what @ '' '' @ quoted (quote_of v))) else Inr ())"

definition not_builtin :: "codec \<Rightarrow> app_state \<Rightarrow> string \<Rightarrow> api_error + unit" where
  "not_builtin jc st name =
     (case load_profile jc name (as_db st) of
        Inr p \<Rightarrow> if pf_builtin p then Inl (Conflict (''profile '' @ quoted name @ '' is built-in'')) else Inr ()
      | Inl _ \<Rightarrow> Inr ())"

definition profiles_create ::
  "codec \<Rightarrow> string option \<Rightarrow> string \<Rightarrow> profile_req \<Rightarrow> app_state \<Rightarrow> string api_result" where
  "profiles_create jc auth name req =
     guarded auth (\<lambda>st.
       and_then (lift_result st (known_option ''view'' parse_view id (pq_view req))) (\<lambda>st _.
       and_then (lift_result st (known_option ''direction'' parse_direction id (pq_direction req))) (\<lambda>st _.
       and_then (lift_result st (not_builtin jc st name)) (\<lambda>st _.
       and_then (run_storage (save_profile jc (requested_profile name req)) (Internal \<circ> show_storage_error) st)
         (\<lambda>st _. (st, Inr name))))))"

definition profiles_list :: "codec \<Rightarrow> string option \<Rightarrow> app_state \<Rightarrow> profile list api_result" where
  "profiles_list jc auth = guarded auth (\<lambda>st. (st, Inr (list_profiles jc (as_db st))))"

definition profiles_show ::
  "codec \<Rightarrow> (string \<Rightarrow> string) \<Rightarrow> string option \<Rightarrow> string \<Rightarrow> app_state \<Rightarrow> profile api_result" where
  "profiles_show jc describe auth name =
     guarded auth (\<lambda>st.
       case resolve_profile jc describe name (as_db st) of
         Some p \<Rightarrow> (st, Inr p)
       | None \<Rightarrow> (st, Inl (NotFound (''profile '' @ quoted name @ '' not found''))))"

definition profiles_delete :: "string option \<Rightarrow> string \<Rightarrow> app_state \<Rightarrow> string api_result" where
  "profiles_delete auth name =
     guarded auth (\<lambda>st.
       and_then (run_storage (delete_profile name) (BadRequest \<circ> show_storage_error) st) (\<lambda>st _. (st, Inr name)))"

section \<open>Plans\<close>

record plan_query =
  pl_version :: "nat option"
  pl_format :: "string option"
  pl_view :: "string option"
  pl_direction :: "string option"
  pl_profile :: "string option"

definition query_options ::
  "codec \<Rightarrow> (string \<Rightarrow> string) \<Rightarrow> plan_query \<Rightarrow> db \<Rightarrow> string + render_options" where
  "query_options jc describe q d =
     (let base = \<lparr>ro_view = (case Option.bind (pl_view q) parse_view of Some v \<Rightarrow> v | None \<Rightarrow> Full),
            ro_direction = (case Option.bind (pl_direction q) parse_direction of Some x \<Rightarrow> x | None \<Rightarrow> Td),
            ro_numbered = True\<rparr>
      in case pl_profile q of
           None \<Rightarrow> Inr base
         | Some name \<Rightarrow>
             (case resolve_profile jc describe name d of
                None \<Rightarrow> Inl (''profile '' @ quoted name @ '' not found'')
              | Some p \<Rightarrow>
                  let po = render_options_of p in
                  Inr (base\<lparr>ro_view := (if pl_view q = None then ro_view po else ro_view base),
                    ro_direction := (if pl_direction q = None then ro_direction po else ro_direction base)\<rparr>)))"

text \<open>The text of a plan; the inner \<open>None\<close> is a rendering that does not return.\<close>

definition plan_dump ::
  "server_io \<Rightarrow> (string \<Rightarrow> string) \<Rightarrow> (string \<Rightarrow> string) \<Rightarrow> (string \<Rightarrow> string) \<Rightarrow> string option \<Rightarrow> string \<Rightarrow>
     plan_query \<Rightarrow> app_state \<Rightarrow> string option api_result" where
  "plan_dump io describe upc dbg auth i q =
     guarded auth (\<lambda>st.
       and_then (found_graph i st) (\<lambda>st g.
       map_error err_from (lift_result st
         (bind_res (map_sum show_storage_error id
              (case pl_version q of
                 Some v \<Rightarrow> load_plan_version (gd_id g) v (as_db st)
               | None \<Rightarrow> load_plan (gd_id g) (as_db st))) (\<lambda>b.
          bind_res (decode_plan io b) (\<lambda>p.
          let fmt = (case pl_format q of Some f \<Rightarrow> f | None \<Rightarrow> ''text'') in
          case parse_format fmt of
            None \<Rightarrow> Inl (''invalid format '' @ quoted fmt)
          | Some f \<Rightarrow>
              bind_res (query_options (sv_codec io) describe q (as_db st)) (\<lambda>ro.
                Inr (render_plan upc dbg f p
                  \<lparr>dh_name = gd_name g, dh_version = (case pl_version q of Some v \<Rightarrow> v | None \<Rightarrow> gd_version g),
                   dh_bytes = length b\<rparr> ro))))))))"

section \<open>Tools\<close>

definition object_entries :: "json \<Rightarrow> (string \<times> json) list option" where
  "object_entries j = (case j of JObject kvs \<Rightarrow> Some kvs | _ \<Rightarrow> None)"

text \<open>A call of a tool of the table; \<open>None\<close> is a tool that is not in the table, which goes to the daemon.\<close>

definition tools_test ::
  "server_io \<Rightarrow> string option \<Rightarrow> string \<Rightarrow> json list option \<Rightarrow> json option \<Rightarrow> (string \<times> string) list option \<Rightarrow>
     app_state \<Rightarrow> json option api_result" where
  "tools_test io auth name args kwargs env_over =
     guarded auth (\<lambda>st.
       (st, Inr
         (case map_option object_entries kwargs of
            Some None \<Rightarrow> Some (JObject [(''success'', JBool False), (''error'', JString ''kwargs must be a JSON object'')])
          | kw \<Rightarrow>
              let call = \<lparr>ct_name = name, ct_args = (case args of Some js \<Rightarrow> map json_to_tp js | None \<Rightarrow> []),
                    ct_kwargs = (case kw of Some (Some kvs) \<Rightarrow> fold (\<lambda>(k, v). upd k (json_to_tp v)) kvs [] | _ \<Rightarrow> [])\<rparr>
              in case mock_resolve (sv_tools io) name of
                   Inl _ \<Rightarrow> None
                 | Inr spec \<Rightarrow>
                     Some (case mock_dispatch (sv_tools io) call (build_env io (or_no_env env_over)) of
                             Inr v \<Rightarrow> JObject [(''success'', JBool True), (''tool'', JString name),
                               (''version'', JString (ts_version spec)), (''output'', tp_to_json v)]
                           | Inl e \<Rightarrow> JObject [(''success'', JBool False), (''error'', JString (show_dispatch_error e))]))))"

end
