(* ===== verification/Scheduler.thy ===== *)
theory Scheduler
  imports Server
begin

text \<open>
  The scheduler of paused executions (\<open>tinypipe-scheduler/src/lib.rs\<close>).  Each execution is resumed
  with a registry of its own, so the plan cache starts empty; the tools of daemons, when there are
  any, are part of \<open>sv_tools\<close>.  \<open>ios\<close> gives the outside world in which an execution is resumed.
\<close>

datatype scheduler_error =
    SchedulerStorage string
  | CheckpointDecode string
  | PlanDecode string
  | SchedulerExecution string

datatype resume_outcome = ResumeCompleted | StillPaused

definition show_scheduler_error :: "scheduler_error \<Rightarrow> string" where
  "show_scheduler_error e =
     (case e of
        SchedulerStorage m \<Rightarrow> ''storage error: '' @ m
      | CheckpointDecode m \<Rightarrow> ''checkpoint decode failed: '' @ m
      | PlanDecode m \<Rightarrow> ''plan decode failed: '' @ m
      | SchedulerExecution m \<Rightarrow> ''execution failed: '' @ m)"

definition read_checkpoint :: "server_io \<Rightarrow> db \<Rightarrow> string \<Rightarrow> scheduler_error + checkpoint" where
  "read_checkpoint io d xid =
     (case load_checkpoint xid d of
        Inl e \<Rightarrow> Inl (SchedulerStorage (show_storage_error e))
      | Inr b \<Rightarrow>
          if b = [] then Inl (CheckpointDecode ''no checkpoint stored for paused execution'')
          else map_sum CheckpointDecode id (sv_load_checkpoint io b))"

definition read_plan :: "server_io \<Rightarrow> db \<Rightarrow> string \<Rightarrow> nat \<Rightarrow> scheduler_error + compiled_plan" where
  "read_plan io d i v =
     (case load_plan_version i v d of
        Inl e \<Rightarrow> Inl (SchedulerStorage (show_storage_error e))
      | Inr b \<Rightarrow> map_sum PlanDecode id (from_fb_bytes (rg_root (sv_registry io)) b))"

definition missing_details :: "env_report list \<Rightarrow> string list" where
  "missing_details rs = concat (map (\<lambda>r. map (\<lambda>k. rp_path r @ ''.'' @ k) (rp_missing r)) rs)"

definition check_environment ::
  "server_io \<Rightarrow> env \<Rightarrow> string \<Rightarrow> db \<Rightarrow> (db \<times> plan_cache) \<times> (scheduler_error + unit)" where
  "check_environment io e i d =
     (case validate_env (sv_registry io) i e (d, []) of
        None \<Rightarrow> ((d, []), Inl (SchedulerExecution ''out of fuel''))
      | Some (s, Inl err) \<Rightarrow> (s, Inl (SchedulerExecution (''env check failed: '' @ show_dispatch_error err)))
      | Some (s, Inr rs) \<Rightarrow>
          (s, if rs = [] then Inr ()
              else Inl (SchedulerExecution (''env check failed, missing: '' @ join '', '' (missing_details rs)))))"

definition finish_segment ::
  "server_io \<Rightarrow> execution \<Rightarrow> compiled_plan \<Rightarrow> exec_error + execution_outcome \<Rightarrow> db \<Rightarrow> db \<times> (scheduler_error + resume_outcome)" where
  "finish_segment io x p out d =
     (case out of
        Inl e \<Rightarrow> (d, Inl (SchedulerExecution (show_exec_error e)))
      | Inr (Completed r) \<Rightarrow>
          (case save_execution (sv_codec io) (completed_execution io x r) (record_steps io (ex_id x) p r d) of
             (d', Inl e) \<Rightarrow> (d', Inl (SchedulerStorage (show_storage_error e)))
           | (d', Inr _) \<Rightarrow> (d', Inr ResumeCompleted))
      | Inr (Paused ck) \<Rightarrow>
          (case sv_save_checkpoint io ck of
             Inl m \<Rightarrow> (d, Inl (CheckpointDecode m))
           | Inr b \<Rightarrow>
               (case save_checkpoint (ex_id x) b d of
                  (d', Inl e) \<Rightarrow> (d', Inl (SchedulerStorage (show_storage_error e)))
                | (d', Inr _) \<Rightarrow> (d', Inr StillPaused))))"

definition resume_one ::
  "server_io \<Rightarrow> env \<Rightarrow> execution \<Rightarrow> pause_policy \<Rightarrow> db \<Rightarrow> db \<times> (scheduler_error + resume_outcome)" where
  "resume_one io e x policy d =
     (case read_checkpoint io d (ex_id x) of
        Inl err \<Rightarrow> (d, Inl err)
      | Inr ck \<Rightarrow>
          (case read_plan io d (ex_graph x) (ex_version x) of
             Inl err \<Rightarrow> (d, Inl err)
           | Inr p \<Rightarrow>
               (case check_environment io e (ex_graph x) d of
                  (s, Inl err) \<Rightarrow> (fst s, Inl err)
                | (s, Inr _) \<Rightarrow> finish_segment io x p (resume p (server_world io s e) ck policy) (fst s))))"

definition count_outcome :: "scheduler_error + resume_outcome \<Rightarrow> scheduler_summary \<Rightarrow> scheduler_summary" where
  "count_outcome r s =
     (case r of
        Inl _ \<Rightarrow> s\<lparr>ss_failed := ss_failed s + 1\<rparr>
      | Inr ResumeCompleted \<Rightarrow> s\<lparr>ss_completed := ss_completed s + 1\<rparr>
      | Inr StillPaused \<Rightarrow> s\<lparr>ss_still_paused := ss_still_paused s + 1\<rparr>)"

definition round_step ::
  "(string \<Rightarrow> server_io) \<Rightarrow> env \<Rightarrow> pause_policy \<Rightarrow> execution \<Rightarrow> db \<times> scheduler_summary \<Rightarrow> db \<times> scheduler_summary" where
  "round_step ios e policy x acc =
     (case resume_one (ios (ex_id x)) e x policy (fst acc) of
        (d, r) \<Rightarrow> (d, count_outcome r (snd acc)))"

definition run_once ::
  "codec \<Rightarrow> (string \<Rightarrow> server_io) \<Rightarrow> env \<Rightarrow> u32 option \<Rightarrow> db \<Rightarrow> db \<times> scheduler_summary" where
  "run_once jc ios e max_nodes d =
     (let paused = list_paused_executions jc d in
      fold (round_step ios e (node_limit max_nodes)) paused
        (d, summary_zero\<lparr>ss_processed := length paused\<rparr>))"

definition add_summary :: "scheduler_summary \<Rightarrow> scheduler_summary \<Rightarrow> scheduler_summary" where
  "add_summary a b =
     \<lparr>ss_processed = ss_processed a + ss_processed b, ss_completed = ss_completed a + ss_completed b,
      ss_still_paused = ss_still_paused a + ss_still_paused b, ss_failed = ss_failed a + ss_failed b\<rparr>"

text \<open>The rounds that are left, and the outside world of each.\<close>

fun rounds ::
  "codec \<Rightarrow> (string \<Rightarrow> server_io) list \<Rightarrow> env \<Rightarrow> u32 option \<Rightarrow> scheduler_summary \<Rightarrow> db \<Rightarrow> db \<times> scheduler_summary" where
  "rounds jc [] e max_nodes acc d = (d, acc)"
| "rounds jc (ios # rest) e max_nodes acc d =
     (case run_once jc ios e max_nodes d of
        (d', r) \<Rightarrow>
          let acc' = add_summary acc r in
          if ss_completed r = 0 \<and> ss_still_paused r = 0 then (d', acc')
          else if ss_still_paused r = 0 then (d', acc')
          else rounds jc rest e max_nodes acc' d')"

definition run_loop_rounds ::
  "codec \<Rightarrow> (nat \<Rightarrow> string \<Rightarrow> server_io) \<Rightarrow> env \<Rightarrow> u32 option \<Rightarrow> nat \<Rightarrow> db \<Rightarrow> db \<times> scheduler_summary" where
  "run_loop_rounds jc ios e max_nodes max_rounds d =
     rounds jc (map ios [0..<max_rounds]) e max_nodes summary_zero d"

end
