(* ===== verification/History.thy ===== *)
theory History
  imports Storage
begin

text \<open>
  What the storage promises: the invariant of the graph and version tables, the step relation of
  all operations, reachable databases, the immutable history of versions, and the walks over forks.
\<close>

section \<open>The invariant\<close>

definition versions_of :: "version_row list \<Rightarrow> string \<Rightarrow> version_row list" where
  "versions_of vs i = filter (\<lambda>r. vr_graph r = i) vs"

definition active_ok :: "graph_row \<Rightarrow> bool" where
  "active_ok g \<longleftrightarrow>
     (gr_status g = ''deployed'' \<longleftrightarrow> gr_active g \<noteq> None) \<and>
     (\<forall>v. gr_active g = Some v \<longrightarrow> 1 \<le> v \<and> v \<le> gr_version g)"

definition row_ok :: "version_row list \<Rightarrow> graph_row \<Rightarrow> bool" where
  "row_ok vs g \<longleftrightarrow>
     1 \<le> gr_version g \<and> map vr_version (versions_of vs (gr_id g)) = [1..gr_version g] \<and>
     vr_code (last (versions_of vs (gr_id g))) = gr_code g \<and> active_ok g"

definition parents_before :: "graph_row list \<Rightarrow> bool" where
  "parents_before gs \<longleftrightarrow>
     (\<forall>k < length gs. \<forall>p. gr_parent (gs ! k) = Some p \<longrightarrow> p \<in> gr_id ` set (take k gs))"

definition db_wf :: "db \<Rightarrow> bool" where
  "db_wf d \<longleftrightarrow>
     distinct (map gr_id (db_graphs d)) \<and>
     (\<forall>g \<in> set (db_graphs d). row_ok (db_versions d) g) \<and>
     vr_graph ` set (db_versions d) \<subseteq> gr_id ` set (db_graphs d) \<and>
     parents_before (db_graphs d)"

section \<open>Steps\<close>

inductive db_step :: "db \<Rightarrow> db \<Rightarrow> bool" where
  create: "create_graph uid now name code d = (d', r) \<Longrightarrow> db_step d d'"
| fork: "fork_graph uid now i fork_node code label d = (d', r) \<Longrightarrow> db_step d d'"
| update: "update_graph now i code d = (d', r2) \<Longrightarrow> db_step d d'"
| deploy: "deploy i v d = (d', r3) \<Longrightarrow> db_step d d'"
| rollback: "rollback now i v d = (d', r3) \<Longrightarrow> db_step d d'"
| save_plan: "save_plan now i v plan d = (d', r3) \<Longrightarrow> db_step d d'"
| save_execution: "save_execution jc x d = (d', r3) \<Longrightarrow> db_step d d'"
| save_checkpoint: "save_checkpoint i b d = (d', r3) \<Longrightarrow> db_step d d'"
| save_step: "save_step jc s d = (d', r3) \<Longrightarrow> db_step d d'"
| save_profile: "save_profile jc p d = (d', r3) \<Longrightarrow> db_step d d'"
| delete_profile: "delete_profile name d = (d', r3) \<Longrightarrow> db_step d d'"

inductive reachable_db :: "db \<Rightarrow> bool" where
  start: "reachable_db db_empty"
| step: "reachable_db d \<Longrightarrow> db_step d d' \<Longrightarrow> reachable_db d'"

section \<open>Lookups\<close>

lemma find_graph_mem: "find_graph d i = Some g \<Longrightarrow> g \<in> set (db_graphs d) \<and> gr_id g = i"
  by (auto simp: find_graph_def find_Some_iff)

lemma find_graph_None: "find_graph d i = None \<longleftrightarrow> i \<notin> gr_id ` set (db_graphs d)"
  by (auto simp: find_graph_def find_None_iff)

lemma find_distinct_Some:
  "distinct (map f xs) \<Longrightarrow> x \<in> set xs \<Longrightarrow> find (\<lambda>y. f y = f x) xs = Some x"
  by (induction xs) auto

lemma find_graph_Some:
  "distinct (map gr_id (db_graphs d)) \<Longrightarrow> g \<in> set (db_graphs d) \<Longrightarrow> find_graph d (gr_id g) = Some g"
  by (simp add: find_graph_def find_distinct_Some)

lemma find_version_None:
  "find_version d i v = None \<longleftrightarrow> v \<notin> vr_version ` set (versions_of (db_versions d) i)"
  by (auto simp: find_version_def find_None_iff versions_of_def)

lemma find_version_mem:
  "find_version d i v = Some r \<Longrightarrow> r \<in> set (versions_of (db_versions d) i) \<and> vr_version r = v"
  by (auto simp: find_version_def find_Some_iff versions_of_def)

lemma versions_of_append: "versions_of (vs @ ws) i = versions_of vs i @ versions_of ws i"
  by (simp add: versions_of_def)

lemma known_versions:
  assumes "db_wf d" "g \<in> set (db_graphs d)"
  shows "vr_version ` set (versions_of (db_versions d) (gr_id g)) = {1..gr_version g}"
proof -
  have "set (map vr_version (versions_of (db_versions d) (gr_id g))) = {1..gr_version g}"
    using assms by (simp only: db_wf_def row_ok_def set_upto)
  then show ?thesis by simp
qed

lemma unknown_versions: "db_wf d \<Longrightarrow> find_graph d i = None \<Longrightarrow> versions_of (db_versions d) i = []"
  by (auto simp: db_wf_def find_graph_None versions_of_def filter_empty_conv)

lemma fold_max_upto: "i \<le> n \<Longrightarrow> fold max [i..n] m = max m n" for m :: int
proof (induction i n arbitrary: m rule: upto.induct)
  case (1 i n)
  show ?case
  proof (cases "i = n")
    case False
    with 1 show ?thesis by (simp add: upto_rec1 max.assoc)
  qed simp
qed

lemma max_version_wf:
  assumes "db_wf d" "g \<in> set (db_graphs d)"
  shows "max_version d (gr_id g) = gr_version g"
proof -
  have "map vr_version (filter (\<lambda>r. vr_graph r = gr_id g) (db_versions d)) = [1..gr_version g]"
    and n: "1 \<le> gr_version g"
    using assms by (simp_all add: db_wf_def row_ok_def versions_of_def)
  moreover from n have "[1..gr_version g] = 1 # [2..gr_version g]" by (simp add: upto_rec1)
  moreover have "fold max [2..gr_version g] 1 = gr_version g"
    using n fold_max_upto [of 2 "gr_version g" 1] by (cases "2 \<le> gr_version g") auto
  ultimately show ?thesis by (simp add: max_version_def)
qed

section \<open>Updates keep the invariant\<close>

lemma parents_before_map:
  assumes "\<And>g. gr_id (f g) = gr_id g \<and> gr_parent (f g) = gr_parent g"
  shows "parents_before (map f gs) = parents_before gs"
proof -
  have "gr_id ` set (take k (map f gs)) = gr_id ` set (take k gs)" for k
    by (simp add: take_map image_image assms)
  then show ?thesis by (simp add: parents_before_def assms)
qed

lemma ids_update:
  assumes "\<And>g. gr_id (f g) = gr_id g"
  shows "map gr_id (db_graphs (update_graphs i f d)) = map gr_id (db_graphs d)"
  by (simp add: update_graphs_def assms)

lemma wf_update:
  assumes "db_wf d" "\<And>g. gr_id (f g) = gr_id g \<and> gr_parent (f g) = gr_parent g"
    "\<And>g. g \<in> set (db_graphs d) \<Longrightarrow> gr_id g = i \<Longrightarrow> row_ok (db_versions d) g \<Longrightarrow> row_ok (db_versions d) (f g)"
  shows "db_wf (update_graphs i f d)"
proof -
  have ids: "map gr_id (db_graphs (update_graphs i f d)) = map gr_id (db_graphs d)"
    using assms(2) by (intro ids_update) simp
  from arg_cong [OF this, of set] have "gr_id ` set (db_graphs (update_graphs i f d)) = gr_id ` set (db_graphs d)"
    by simp
  moreover have "parents_before (db_graphs (update_graphs i f d))"
    using assms(1,2) by (simp add: update_graphs_def parents_before_map db_wf_def)
  moreover have "\<forall>g \<in> set (db_graphs (update_graphs i f d)). row_ok (db_versions d) g"
    using assms(1,3) by (auto simp: update_graphs_def db_wf_def)
  moreover have "db_versions (update_graphs i f d) = db_versions d" by (simp add: update_graphs_def)
  ultimately show ?thesis using assms(1) ids unfolding db_wf_def by simp
qed

text \<open>A new version of a graph.\<close>

lemma wf_new_version:
  assumes "db_wf d" "find_graph d i = Some g"
    and r: "vr_graph r = i" "vr_version r = gr_version g + 1"
    and f: "\<And>g. gr_id (f g) = gr_id g \<and> gr_parent (f g) = gr_parent g" "gr_version (f g) = gr_version g + 1"
      "gr_code (f g) = vr_code r" "gr_status (f g) = gr_status g" "gr_active (f g) = gr_active g"
  shows "db_wf ((update_graphs i f d)\<lparr>db_versions := db_versions d @ [r]\<rparr>)" (is "db_wf ?d")
    and "find_version (update_graphs i f d) i (gr_version g + 1) = None"
proof -
  from find_graph_mem [OF assms(2)] have g: "g \<in> set (db_graphs d)" "gr_id g = i" by auto
  have only: "h = g" if "h \<in> set (db_graphs d)" "gr_id h = i" for h
    using assms(1) that g by (auto simp: db_wf_def inj_on_def distinct_map)
  have ok: "row_ok (db_versions d) h" if "h \<in> set (db_graphs d)" for h
    using assms(1) that by (simp add: db_wf_def)
  have "row_ok (db_versions d @ [r]) (f g)"
    using ok [OF g(1)] f(1) [of g] f(2-) r g(2)
    by (auto simp: row_ok_def versions_of_append versions_of_def active_ok_def upto_rec2)
  moreover have "row_ok (db_versions d @ [r]) h" if "h \<in> set (db_graphs d)" "gr_id h \<noteq> i" for h
    using ok [OF that(1)] that r by (auto simp: row_ok_def versions_of_append versions_of_def)
  ultimately have rows: "\<forall>h \<in> set (db_graphs ?d). row_ok (db_versions d @ [r]) h"
    using only by (auto simp: update_graphs_def)
  have ids: "map gr_id (db_graphs ?d) = map gr_id (db_graphs d)"
    using f(1) ids_update [of f i d] by simp
  from arg_cong [OF this, of set] have "gr_id ` set (db_graphs ?d) = gr_id ` set (db_graphs d)" by simp
  moreover have "parents_before (db_graphs ?d)"
    using assms(1) f(1) by (simp add: update_graphs_def parents_before_map db_wf_def)
  ultimately show "db_wf ?d"
    using assms(1) ids rows r(1) imageI [OF g(1), of gr_id] g(2) unfolding db_wf_def by auto
  show "find_version (update_graphs i f d) i (gr_version g + 1) = None"
    using known_versions [OF assms(1) g(1)] g(2) by (simp add: find_version_None update_graphs_def)
qed

lemma wf_new_graph:
  assumes "db_wf d" "find_graph d (gr_id g) = None" "gr_version g = 1" "gr_status g = ''draft''" "gr_active g = None"
    "vr_graph r = gr_id g" "vr_version r = 1" "vr_code r = gr_code g"
    "\<And>p. gr_parent g = Some p \<Longrightarrow> p \<in> gr_id ` set (db_graphs d)"
  shows "db_wf (d\<lparr>db_graphs := db_graphs d @ [g], db_versions := db_versions d @ [r]\<rparr>)"
    and "find_version d (gr_id g) 1 = None"
proof -
  have none: "versions_of (db_versions d) (gr_id g) = []" by (rule unknown_versions [OF assms(1,2)])
  then show "find_version d (gr_id g) 1 = None" by (simp add: find_version_None)
  have "row_ok (db_versions d @ [r]) g"
    using none assms by (simp add: row_ok_def versions_of_append active_ok_def versions_of_def)
  moreover have "row_ok (db_versions d @ [r]) h" if "h \<in> set (db_graphs d)" for h
  proof -
    from that assms(2) have "gr_id h \<noteq> gr_id g" by (metis find_graph_None imageI)
    then show ?thesis using assms(1,6) that
      by (auto simp: db_wf_def row_ok_def versions_of_append versions_of_def)
  qed
  moreover have "parents_before (db_graphs d @ [g])"
    using assms(1,9) by (auto simp: db_wf_def parents_before_def nth_append less_Suc_eq)
  ultimately show "db_wf (d\<lparr>db_graphs := db_graphs d @ [g], db_versions := db_versions d @ [r]\<rparr>)"
    using assms(1,2,6) by (auto simp: db_wf_def find_graph_None simp flip: find_graph_None)
qed

section \<open>Operations keep the invariant\<close>

lemma version_bound:
  assumes "db_wf d" "g \<in> set (db_graphs d)"
  shows "nat (gr_version g) \<le> length (db_versions d)" "1 \<le> gr_version g"
proof -
  from assms have "length (map vr_version (versions_of (db_versions d) (gr_id g))) = nat (gr_version g)"
    by (simp only: db_wf_def row_ok_def length_upto)
  then show "nat (gr_version g) \<le> length (db_versions d)"
    unfolding versions_of_def by (metis length_filter_le length_map)
  show "1 \<le> gr_version g" using assms by (simp add: db_wf_def row_ok_def)
qed

lemma next_version:
  assumes "db_wf d" "g \<in> set (db_graphs d)" "length (db_versions d) < 2 ^ 63 - 1"
  shows "wrap_i64 (gr_version g + 1) = gr_version g + 1"
  using version_bound [OF assms(1,2)] assms(3) by (intro wrap_i64_id) (simp add: in_i64_def i64_min_def i64_max_def)

lemma then_do_simps [simp]:
  "then_do (d, Inl e) f = (d, Inl e)" "then_do (d, Inr a) f = f d a"
  by (simp_all add: then_do_def)

lemma insert_graph_cases:
  "insert_graph what g d =
     (if find_graph d (gr_id g) \<noteq> None then (d, Inl (unique_failed what ''graphs.id''))
      else (d\<lparr>db_graphs := db_graphs d @ [g]\<rparr>, Inr ()))"
  by (rule insert_graph_def)

lemma find_version_graphs: "find_version (d\<lparr>db_graphs := gs\<rparr>) i v = find_version d i v"
  by (simp add: find_version_def)

lemma create_wf:
  assumes "db_wf d"
  shows "db_wf (fst (create_graph uid now name code d))"
proof (cases "find_graph d uid")
  case None
  let ?g = "new_graph_row uid now name code" and ?r = "first_version uid now code"
  note sel = new_graph_row_def first_version_def
  have "find_graph d (gr_id ?g) = None" using None by (simp add: sel)
  from wf_new_graph [OF assms this, of ?r] None show ?thesis
    by (simp add: create_graph_def insert_graph_def insert_version_def find_version_graphs sel)
next
  case (Some h)
  then show ?thesis using assms by (simp add: create_graph_def insert_graph_def new_graph_row_def)
qed

lemma create_fork_wf:
  assumes "db_wf d" "parent \<in> gr_id ` set (db_graphs d)"
  shows "db_wf (fst (create_fork_graph uid now name code parent fork_node label d))"
proof (cases "find_graph d uid")
  case None
  let ?g = "(new_graph_row uid now name code)\<lparr>gr_parent := Some parent, gr_fork_node := Some fork_node,
      gr_fork_label := label\<rparr>" and ?r = "first_version uid now code"
  note sel = new_graph_row_def first_version_def
  have "find_graph d (gr_id ?g) = None" using None by (simp add: sel)
  from wf_new_graph [OF assms(1) this, of ?r] None assms(2) show ?thesis
    by (simp add: create_fork_graph_def insert_graph_def insert_version_def find_version_graphs sel)
next
  case (Some h)
  then show ?thesis using assms by (simp add: create_fork_graph_def insert_graph_def new_graph_row_def)
qed

lemma fork_wf:
  assumes "db_wf d"
  shows "db_wf (fst (fork_graph uid now i fork_node code label d))"
proof (cases "find_graph d i")
  case (Some g)
  from find_graph_mem [OF this] have "i \<in> gr_id ` set (db_graphs d)" by auto
  with Some show ?thesis using create_fork_wf [OF assms] by (simp add: fork_graph_def load_graph_def)
qed (use assms in \<open>simp add: fork_graph_def load_graph_def\<close>)

lemma update_wf:
  assumes "db_wf d" "length (db_versions d) < 2 ^ 63 - 1"
  shows "db_wf (fst (update_graph now i code d))"
proof (cases "find_graph d i")
  case (Some g)
  from find_graph_mem [OF Some] have g: "g \<in> set (db_graphs d)" by simp
  note n = next_version [OF assms(1) g assms(2)]
  let ?f = "\<lambda>h. h\<lparr>gr_code := code, gr_version := gr_version g + 1, gr_updated_at := now\<rparr>"
  let ?r = "\<lparr>vr_graph = i, vr_version = gr_version g + 1, vr_code = code, vr_plan = None, vr_created_at = now\<rparr>"
  from wf_new_version [OF assms(1) Some, of ?r ?f]
  show ?thesis by (simp add: update_graph_def Some n insert_version_def Let_def) (simp add: update_graphs_def)
qed (use assms in \<open>simp add: update_graph_def\<close>)

lemma deploy_wf:
  assumes "db_wf d"
  shows "db_wf (fst (deploy i v d))"
proof (cases "find_version d i (as_i64 v)")
  case (Some r)
  have "row_ok (db_versions d) (g\<lparr>gr_active := Some (as_i64 v), gr_status := ''deployed'', gr_last_event := e\<rparr>)"
    if "g \<in> set (db_graphs d)" "gr_id g = i" "row_ok (db_versions d) g" for g e
  proof -
    from find_version_mem [OF Some] that(2)
    have "as_i64 v \<in> vr_version ` set (versions_of (db_versions d) (gr_id g))" by force
    then have "1 \<le> as_i64 v \<and> as_i64 v \<le> gr_version g"
      unfolding known_versions [OF assms that(1)] by simp
    with that(3) show ?thesis by (simp add: row_ok_def active_ok_def)
  qed
  then show ?thesis by (simp add: deploy_def Some wf_update [OF assms])
qed (use assms in \<open>simp add: deploy_def\<close>)

lemma row_ok_same:
  "row_ok vs g \<Longrightarrow> gr_id h = gr_id g \<Longrightarrow> gr_version h = gr_version g \<Longrightarrow> gr_code h = gr_code g \<Longrightarrow>
     gr_status h = gr_status g \<Longrightarrow> gr_active h = gr_active g \<Longrightarrow> row_ok vs h"
  by (simp add: row_ok_def active_ok_def)

lemma wf_touch:
  assumes "db_wf d"
    and "\<And>g. gr_id (f g) = gr_id g \<and> gr_parent (f g) = gr_parent g \<and> gr_version (f g) = gr_version g \<and>
      gr_code (f g) = gr_code g \<and> gr_status (f g) = gr_status g \<and> gr_active (f g) = gr_active g"
  shows "db_wf (update_graphs i f d)"
  using assms(2) by (intro wf_update [OF assms(1)]) (auto intro: row_ok_same)

lemma restore_plan_wf: "db_wf d \<Longrightarrow> db_wf (restore_plan i p d)"
  by (cases p) (simp_all add: restore_plan_def wf_touch)

lemma move_active_wf:
  assumes "db_wf d" "find_graph d i = Some g" "v = gr_version g"
  shows "db_wf (move_active i v d)"
proof -
  from find_graph_mem [OF assms(2)] have g: "g \<in> set (db_graphs d)" "gr_id g = i" by auto
  have only: "h = g" if "h \<in> set (db_graphs d)" "gr_id h = i" for h
    using assms(1) that g by (auto simp: db_wf_def inj_on_def distinct_map)
  show ?thesis
  proof (cases "gr_status g = ''deployed''")
    case True
    have "db_wf (update_graphs i (\<lambda>g. g\<lparr>gr_active := Some v\<rparr>) d)"
      using True only assms(3) by (intro wf_update [OF assms(1)]) (auto simp: row_ok_def active_ok_def)
    with assms(1) show ?thesis by (simp add: move_active_def)
  next
    case False
    then have "\<not> list_ex (\<lambda>g. gr_id g = i \<and> gr_status g = ''deployed'') (db_graphs d)"
      using only by (auto simp: list_ex_iff)
    then show ?thesis using assms(1) by (simp add: move_active_def)
  qed
qed

lemma find_graph_update:
  assumes "\<And>g. gr_id (f g) = gr_id g"
  shows "find_graph (update_graphs i f d) j = (if i = j then map_option f (find_graph d j) else find_graph d j)"
proof -
  have "find (\<lambda>g. gr_id g = j) (map (\<lambda>g. if gr_id g = i then f g else g) gs) =
      (if i = j then map_option f (find (\<lambda>g. gr_id g = j) gs) else find (\<lambda>g. gr_id g = j) gs)" for gs
    by (induction gs) (auto simp: assms)
  then show ?thesis by (simp add: find_graph_def update_graphs_def)
qed

lemma find_graph_versions [simp]: "find_graph (d\<lparr>db_versions := vs\<rparr>) i = find_graph d i"
  by (simp add: find_graph_def)

lemma find_graph_restore:
  "find_graph (restore_plan i p d) i = map_option (\<lambda>g. case p of None \<Rightarrow> g | Some b \<Rightarrow> g\<lparr>gr_plan := Some b\<rparr>) (find_graph d i)"
  by (cases p) (simp_all add: restore_plan_def find_graph_update option.map_ident)

lemma rollback_graph:
  assumes "db_wf d" "find_version d i v = Some old"
  obtains g where "find_graph d i = Some g" "g \<in> set (db_graphs d)" "gr_id g = i"
proof -
  from find_version_mem [OF assms(2)] have "old \<in> set (versions_of (db_versions d) i)" by simp
  with unknown_versions [OF assms(1), of i] obtain g where "find_graph d i = Some g" by fastforce
  with find_graph_mem [OF this] show thesis using that by blast
qed

text \<open>The database after a successful rollback.\<close>

definition rolled_back :: "string \<Rightarrow> string \<Rightarrow> nat \<Rightarrow> graph_row \<Rightarrow> version_row \<Rightarrow> db \<Rightarrow> db" where
  "rolled_back now i v g old d =
     update_graphs i (\<lambda>h. h\<lparr>gr_last_event := Some (''rollback: '' @ version_tag v)\<rparr>)
       (move_active i (gr_version g + 1)
         (restore_plan i (vr_plan old)
           ((update_graphs i (\<lambda>h. h\<lparr>gr_code := vr_code old, gr_version := gr_version g + 1, gr_updated_at := now\<rparr>) d)
              \<lparr>db_versions := db_versions d @
                 [\<lparr>vr_graph = i, vr_version = gr_version g + 1, vr_code = vr_code old, vr_plan = vr_plan old,
                    vr_created_at = now\<rparr>]\<rparr>)))"

lemma rollback_result:
  assumes "db_wf d" "length (db_versions d) < 2 ^ 63 - 1" "find_version d i (as_i64 v) = Some old"
    "find_graph d i = Some g"
  shows "rollback now i v d = (rolled_back now i v g old d, Inr ())"
    and "db_wf (rolled_back now i v g old d)"
proof -
  from find_graph_mem [OF assms(4)] have g: "g \<in> set (db_graphs d)" "gr_id g = i" by auto
  have n: "wrap_i64 (max_version d i + 1) = gr_version g + 1"
    using max_version_wf [OF assms(1) g(1)] next_version [OF assms(1) g(1) assms(2)] g(2) by simp
  let ?f = "\<lambda>h. h\<lparr>gr_code := vr_code old, gr_version := gr_version g + 1, gr_updated_at := now\<rparr>"
  let ?r = "\<lparr>vr_graph = i, vr_version = gr_version g + 1, vr_code = vr_code old, vr_plan = vr_plan old,
    vr_created_at = now\<rparr>"
  let ?d2 = "(update_graphs i ?f d)\<lparr>db_versions := db_versions d @ [?r]\<rparr>"
  have d2: "db_wf ?d2" "find_version (update_graphs i ?f d) i (gr_version g + 1) = None"
    using wf_new_version [OF assms(1,4), of ?r ?f] by simp_all
  then show "rollback now i v d = (rolled_back now i v g old d, Inr ())"
    by (simp add: rollback_def assms(3) n insert_version_def Let_def rolled_back_def) (simp add: update_graphs_def)
  have "find_graph (restore_plan i (vr_plan old) ?d2) i =
      Some (case vr_plan old of None \<Rightarrow> ?f g | Some b \<Rightarrow> (?f g)\<lparr>gr_plan := Some b\<rparr>)"
    using assms(4) by (simp add: find_graph_restore find_graph_update)
  from move_active_wf [OF restore_plan_wf [OF d2(1)] this, of "gr_version g + 1"]
  show "db_wf (rolled_back now i v g old d)"
    unfolding rolled_back_def by (intro wf_touch) (auto split: option.splits)
qed

lemma rollback_wf:
  assumes "db_wf d" "length (db_versions d) < 2 ^ 63 - 1"
  shows "db_wf (fst (rollback now i v d))"
proof (cases "find_version d i (as_i64 v)")
  case (Some old)
  from rollback_graph [OF assms(1) Some] obtain g where "find_graph d i = Some g" by blast
  from rollback_result [OF assms Some this] show ?thesis by simp
qed (use assms in \<open>simp add: rollback_def\<close>)

lemma wf_same_tables:
  "db_wf d \<Longrightarrow> db_graphs d' = db_graphs d \<Longrightarrow> db_versions d' = db_versions d \<Longrightarrow> db_wf d'"
  by (simp add: db_wf_def)

lemma versions_of_map_plan:
  assumes "\<And>r. vr_graph (f r) = vr_graph r \<and> vr_version (f r) = vr_version r \<and> vr_code (f r) = vr_code r"
  shows "map vr_version (versions_of (map f vs) i) = map vr_version (versions_of vs i)"
    "versions_of vs i \<noteq> [] \<Longrightarrow> vr_code (last (versions_of (map f vs) i)) = vr_code (last (versions_of vs i))"
proof -
  have "versions_of (map f vs) i = map f (versions_of vs i)"
    unfolding versions_of_def by (induction vs) (auto simp: assms)
  then show "map vr_version (versions_of (map f vs) i) = map vr_version (versions_of vs i)"
    "versions_of vs i \<noteq> [] \<Longrightarrow> vr_code (last (versions_of (map f vs) i)) = vr_code (last (versions_of vs i))"
    by (simp_all add: last_map assms)
qed

lemma wf_replan:
  assumes "db_wf d"
    and f: "\<And>r. vr_graph (f r) = vr_graph r \<and> vr_version (f r) = vr_version r \<and> vr_code (f r) = vr_code r"
  shows "db_wf (d\<lparr>db_versions := map f (db_versions d)\<rparr>)"
proof -
  have "row_ok (map f (db_versions d)) g" if "g \<in> set (db_graphs d)" for g
  proof -
    from assms(1) that have ok: "row_ok (db_versions d) g" by (simp add: db_wf_def)
    then have "versions_of (db_versions d) (gr_id g) \<noteq> []" by (auto simp: row_ok_def)
    with ok versions_of_map_plan [of f, OF f] show ?thesis by (simp only: row_ok_def simp_thms)
  qed
  moreover have "vr_graph ` set (map f vs) = vr_graph ` set vs" for vs by (simp add: image_image f)
  ultimately show ?thesis using assms(1) unfolding db_wf_def by simp
qed

lemma save_plan_wf: "db_wf d \<Longrightarrow> db_wf (fst (save_plan now i v plan d))"
  unfolding save_plan_def Let_def fst_conv by (intro wf_replan wf_touch) auto

lemma step_versions_grow: "db_step d d' \<Longrightarrow> length (db_versions d) \<le> length (db_versions d')"
proof (induction rule: db_step.induct)
  case rollback
  then show ?case
    by (auto simp: rollback_def Let_def insert_version_def update_graphs_def move_active_def restore_plan_def
        split: option.splits if_splits)
qed (auto simp: create_graph_def fork_graph_def create_fork_graph_def update_graph_def deploy_def save_plan_def
      save_execution_def save_checkpoint_def save_step_def save_profile_def delete_profile_def
      insert_graph_def insert_version_def then_do_def update_graphs_def Let_def
      split: option.splits if_splits sum.splits bool.splits)

lemma step_wf:
  assumes "db_step d d'" "db_wf d" "length (db_versions d) < 2 ^ 63 - 1"
  shows "db_wf d'"
  using assms
proof (induction rule: db_step.induct)
  case (create uid now name code d d' r)
  then show ?case using create_wf [of d uid now name code] by simp
next
  case (fork uid now i fork_node code label d d' r)
  then show ?case using fork_wf [of d uid now i fork_node code label] by simp
next
  case (update now i code d d' r2)
  then show ?case using update_wf [of d now i code] by simp
next
  case (deploy i v d d' r3)
  then show ?case using deploy_wf [of d i v] by simp
next
  case (rollback now i v d d' r3)
  then show ?case using rollback_wf [of d now i v] by simp
next
  case (save_plan now i v plan d d' r3)
  then show ?case using save_plan_wf [of d now i v plan] by simp
qed (auto simp: save_execution_def save_checkpoint_def save_step_def save_profile_def delete_profile_def
      intro: wf_same_tables split: option.splits if_splits bool.splits)

lemma reachable_wf: "reachable_db d \<Longrightarrow> length (db_versions d) < 2 ^ 63 - 1 \<Longrightarrow> db_wf d"
proof (induction rule: reachable_db.induct)
  case start
  show ?case by (simp add: db_empty_def db_wf_def parents_before_def)
next
  case (step d d')
  with step_versions_grow [OF step.hyps(2)] show ?case using step_wf by simp
qed

section \<open>The history of versions\<close>

definition history :: "db \<Rightarrow> (string \<times> i64 \<times> string \<times> string) list" where
  "history d = map (\<lambda>r. (vr_graph r, vr_version r, vr_code r, vr_created_at r)) (db_versions d)"

lemma history_update [simp]: "history (update_graphs i f d) = history d"
  by (simp add: history_def update_graphs_def)

lemma history_graphs [simp]: "history (d\<lparr>db_graphs := gs\<rparr>) = history d"
  by (simp add: history_def)

lemma history_move [simp]: "history (move_active i v d) = history d" "history (restore_plan i p d) = history d"
  by (auto simp: move_active_def restore_plan_def split: option.splits)

lemma history_insert: "insert_version what r d = (d', x) \<Longrightarrow> prefix (history d) (history d')"
  by (auto simp: insert_version_def history_def split: if_splits)

lemma insert_graph_history: "insert_graph what g d = (d', x) \<Longrightarrow> history d' = history d"
  by (auto simp: insert_graph_def split: if_splits)

lemma then_do_history:
  assumes "history (fst r) = h" "\<And>d a. history d = h \<Longrightarrow> prefix h (history (fst (f d a)))"
  shows "prefix h (history (fst (then_do r f)))"
  using assms by (cases r; cases "snd r") (auto simp: then_do_def split: sum.splits)

lemma then_do_insert:
  assumes "history d = h" "\<And>d2. history (fst (f d2 ())) = history d2"
  shows "prefix h (history (fst (then_do (insert_version what r d) f)))"
  using assms history_insert [of what r d]
  by (cases "insert_version what r d"; cases "snd (insert_version what r d)") (auto simp: then_do_def split: sum.splits)

lemma step_history: "db_step d d' \<Longrightarrow> prefix (history d) (history d')"
proof (induction rule: db_step.induct)
  case (create uid now name code d d' r)
  have "prefix (history d) (history (fst (create_graph uid now name code d)))"
    unfolding create_graph_def
    by (intro then_do_history then_do_insert) (auto simp: insert_graph_def)
  with create show ?case by simp
next
  case (fork uid now i fork_node code label d d' r)
  have "prefix (history d) (history (fst (create_fork_graph uid now name code p fork_node label d)))" for p name
    unfolding create_fork_graph_def
    by (intro then_do_history then_do_insert) (auto simp: insert_graph_def)
  from this [of _] fork show ?case by (auto simp: fork_graph_def split: sum.splits) (metis fst_conv)
next
  case (update now i code d d' r2)
  have "prefix (history d) (history (fst (update_graph now i code d)))"
    unfolding update_graph_def Let_def by (auto split: option.splits intro!: then_do_insert)
  with update show ?case by simp
next
  case (rollback now i v d d' r3)
  have "prefix (history d) (history (fst (rollback now i v d)))"
    unfolding rollback_def Let_def by (auto split: option.splits intro!: then_do_insert)
  with rollback show ?case by simp
next
  case (save_plan now i v plan d d' r3)
  have "map (\<lambda>r. (vr_graph r, vr_version r, vr_code r, vr_created_at r))
      (map (\<lambda>r. if vr_graph r = i \<and> vr_version r = as_i64 v then r\<lparr>vr_plan := Some plan\<rparr> else r) vs) =
      map (\<lambda>r. (vr_graph r, vr_version r, vr_code r, vr_created_at r)) vs" for vs
    by (induction vs) auto
  then have "history (fst (save_plan now i v plan d)) = history d"
    by (simp add: save_plan_def history_def Let_def update_graphs_def)
  with save_plan show ?case by simp
qed (auto simp: deploy_def save_execution_def save_checkpoint_def save_step_def save_profile_def
      delete_profile_def history_def update_graphs_def split: option.splits if_splits bool.splits)

lemma u64_i64: "0 \<le> v \<Longrightarrow> v < 2 ^ 63 \<Longrightarrow> i64_as_u64 v = nat v"
  by (simp add: i64_as_u64_def mod_pos_pos_trivial)

lemma listed_versions:
  assumes "db_wf d" "length (db_versions d) < 2 ^ 63" "load_graph i d = Inr g"
  shows "map fst (list_versions i d) = [1..<gd_version g + 1]"
    and "fst (snd (last (list_versions i d))) = gd_code g"
proof -
  from assms(3) obtain r where r: "find_graph d i = Some r" "g = row_to_graph r"
    by (auto simp: load_graph_def split: option.splits)
  from find_graph_mem [OF r(1)] have m: "r \<in> set (db_graphs d)" "gr_id r = i" by auto
  let ?vs = "versions_of (db_versions d) i"
  from assms(1) m(1) have "row_ok (db_versions d) r" by (simp add: db_wf_def)
  then have v: "map vr_version ?vs = [1..gr_version r]" "vr_code (last ?vs) = gr_code r"
    unfolding row_ok_def m(2) by blast+
  have b: "1 \<le> gr_version r" "gr_version r < 2 ^ 63"
    using version_bound [OF assms(1) m(1)] assms(2) by auto
  have "sorted (map vr_version ?vs)" by (simp add: v)
  then have l: "list_versions i d = map (\<lambda>r. (i64_as_u64 (vr_version r), vr_code r, vr_created_at r)) ?vs"
    by (simp add: list_versions_def order_asc_def versions_of_def sorted_sort_id sort_key_id_if_sorted)
  have "map fst (list_versions i d) = map i64_as_u64 (map vr_version ?vs)" by (simp add: l comp_def)
  also have "\<dots> = map nat [1..gr_version r]"
    using b by (auto simp: v u64_i64 simp del: One_nat_def)
  also have "\<dots> = [1..<nat (gr_version r) + 1]"
    using b by (intro nth_equalityI) (auto simp del: upt_Suc)
  finally show "map fst (list_versions i d) = [1..<gd_version g + 1]"
    using b by (simp add: r row_to_graph_def u64_i64 del: upt_Suc)
  have "?vs \<noteq> []" using v(1) b(1) by auto
  with v(2) show "fst (snd (last (list_versions i d))) = gd_code g"
    by (simp add: l r row_to_graph_def last_map)
qed

section \<open>A small database\<close>

text \<open>A graph with two versions, a plan for the second one, and a fork of it.\<close>

definition demo_ops :: "db list" where
  "demo_ops =
     (let d1 = fst (create_graph ''a'' ''1'' ''n'' ''c1'' db_empty);
          d2 = fst (update_graph ''2'' ''a'' ''c2'' d1);
          d3 = fst (save_plan ''3'' ''a'' 2 ''p2'' d2);
          d4 = fst (fork_graph ''b'' ''4'' ''a'' ''n0'' ''c3'' None d3) in [d1, d2, d3, d4])"

definition demo_db :: db where
  "demo_db = demo_ops ! 3"

lemma demo_reachable: "reachable_db demo_db"
proof -
  have "reachable_db (fst (create_graph uid now name code d))" "reachable_db (fst (update_graph now i code d))"
    "reachable_db (fst (save_plan now i v plan d))" "reachable_db (fst (fork_graph uid now i n code l d))"
    if "reachable_db d" for uid now name code i v plan n l d
    using that by (blast intro: reachable_db.step db_step.intros surjective_pairing)+
  then show ?thesis by (simp add: demo_db_def demo_ops_def Let_def reachable_db.start)
qed

lemma demo_size: "length (db_versions demo_db) = 3"
  by code_simp

lemma demo_graph: "case load_graph ''a'' demo_db of Inr g \<Rightarrow> gd_code g = ''c2'' \<and> gd_version g = 2 \<and> \<not> gd_active g | Inl _ \<Rightarrow> False"
  by code_simp

lemma demo_history: "map fst (list_versions ''a'' demo_db) = [1, 2]"
  by code_simp

lemma demo_plans: "load_plan ''a'' demo_db = Inr ''p2''" "load_plan_version ''a'' 1 demo_db = Inl (PlanVersionMissing 1 ''a'')"
  by code_simp+

section \<open>What the interface promises\<close>

text \<open>C13: in every database the operations can produce, the versions of a graph are numbered from one
  without a gap up to its current version, whose code is the current code, and no operation ever
  changes or removes the code or the date of a recorded version: the history only grows.\<close>

theorem history_immutable:
  assumes "reachable_db d" "length (db_versions d) < 2 ^ 63 - 1" "load_graph i d = Inr g"
  shows "map fst (list_versions i d) = [1..<gd_version g + 1] \<and>
    fst (snd (last (list_versions i d))) = gd_code g \<and>
    (\<forall>d'. db_step d d' \<longrightarrow> prefix (history d) (history d'))"
  using listed_versions [OF reachable_wf [OF assms(1,2)] _ assms(3)] assms(2) step_history by auto

lemma listed_version:
  assumes "db_wf d" "length (db_versions d) < 2 ^ 63" "load_graph i d = Inr g" "v \<in> fst ` set (list_versions i d)"
  obtains old where "find_version d i (as_i64 v) = Some old" "\<exists>t. (v, vr_code old, t) \<in> set (list_versions i d)"
proof -
  let ?vs = "versions_of (db_versions d) i"
  have set: "set (list_versions i d) = (\<lambda>r. (i64_as_u64 (vr_version r), vr_code r, vr_created_at r)) ` set ?vs"
    by (simp add: list_versions_def order_asc_def versions_of_def)
  from assms(3) obtain h where h: "find_graph d i = Some h" "h \<in> set (db_graphs d)" "gr_id h = i"
    using find_graph_mem by (auto simp: load_graph_def split: option.splits)
  have b: "1 \<le> vr_version r" "vr_version r < 2 ^ 63" if "r \<in> set ?vs" for r
    using known_versions [OF assms(1) h(2)] version_bound [OF assms(1) h(2)] assms(2) that h(3) by force+
  from assms(4) obtain r where r: "r \<in> set ?vs" "v = i64_as_u64 (vr_version r)" by (auto simp: set)
  have v: "as_i64 v = vr_version r"
    using b [OF r(1)] r(2) by (simp add: as_i64_def u64_i64 wrap_i64_id in_i64_def i64_min_def i64_max_def)
  with r(1) have "find_version d i (as_i64 v) \<noteq> None" by (auto simp: find_version_None)
  then obtain old where old: "find_version d i (as_i64 v) = Some old" by blast
  from find_version_mem [OF old] b v r(2) have "(v, vr_code old, vr_created_at old) \<in> set (list_versions i d)"
    unfolding set by (auto intro!: image_eqI [of _ _ old])
  with old show thesis using that by blast
qed

lemma find_graph_move:
  assumes "distinct (map gr_id (db_graphs d))" "find_graph d i = Some g"
  shows "find_graph (move_active i v d) i =
    Some (if gr_status g = ''deployed'' then g\<lparr>gr_active := Some v\<rparr> else g)"
proof -
  from find_graph_mem [OF assms(2)] have g: "g \<in> set (db_graphs d)" "gr_id g = i" by auto
  have "list_ex (\<lambda>g. gr_id g = i \<and> gr_status g = ''deployed'') (db_graphs d) \<longleftrightarrow> gr_status g = ''deployed''"
    using assms(1) g by (auto simp: list_ex_iff inj_on_def distinct_map)
  then show ?thesis using assms(2) by (simp add: move_active_def find_graph_update)
qed

lemma move_active_ids: "map gr_id (db_graphs (restore_plan i p d)) = map gr_id (db_graphs d)"
  by (cases p) (simp_all add: restore_plan_def ids_update)

lemma rolled_back_row:
  assumes "distinct (map gr_id (db_graphs d))" "find_graph d i = Some g"
  obtains h where "find_graph (rolled_back now i v g old d) i = Some h" "gr_id h = i" "gr_code h = vr_code old"
    "gr_version h = gr_version g + 1" "gr_status h = gr_status g"
    "gr_active h = (if gr_status g = ''deployed'' then Some (gr_version g + 1) else gr_active g)"
    "gr_plan h = (case vr_plan old of Some p \<Rightarrow> Some p | None \<Rightarrow> gr_plan g)"
proof -
  let ?f = "\<lambda>h. h\<lparr>gr_code := vr_code old, gr_version := gr_version g + 1, gr_updated_at := now\<rparr>"
  let ?d2 = "(update_graphs i ?f d)\<lparr>db_versions := db_versions d @
    [\<lparr>vr_graph = i, vr_version = gr_version g + 1, vr_code = vr_code old, vr_plan = vr_plan old, vr_created_at = now\<rparr>]\<rparr>"
  let ?h = "case vr_plan old of None \<Rightarrow> ?f g | Some b \<Rightarrow> (?f g)\<lparr>gr_plan := Some b\<rparr>"
  have "find_graph (restore_plan i (vr_plan old) ?d2) i = Some ?h"
    using assms(2) by (simp add: find_graph_restore find_graph_update)
  moreover have "distinct (map gr_id (db_graphs (restore_plan i (vr_plan old) ?d2)))"
    using assms(1) ids_update [of ?f i d] by (simp add: move_active_ids)
  ultimately have m: "find_graph (move_active i (gr_version g + 1) (restore_plan i (vr_plan old) ?d2)) i =
      Some (if gr_status ?h = ''deployed'' then ?h\<lparr>gr_active := Some (gr_version g + 1)\<rparr> else ?h)"
    by (rule find_graph_move [rotated])
  have "gr_id g = i" using find_graph_mem [OF assms(2)] by simp
  with m show thesis
    by (intro that [of "(if gr_status ?h = ''deployed'' then ?h\<lparr>gr_active := Some (gr_version g + 1)\<rparr> else ?h)
          \<lparr>gr_last_event := Some (''rollback: '' @ version_tag v)\<rparr>"])
      (auto simp: rolled_back_def find_graph_update split: option.splits)
qed

text \<open>C14: rolling a graph back to one of its versions succeeds and makes a new version with the code of
  the old one, moves the deployment to it when there is one, and restores the plan that was stored
  with the old version; when none was stored the plan of the code that is rolled back stays.\<close>

theorem rollback_restores:
  assumes "reachable_db d" "length (db_versions d) < 2 ^ 63 - 1" "load_graph i d = Inr g"
    and "v \<in> fst ` set (list_versions i d)"
  shows "\<exists>d' g' t. rollback now i v d = (d', Inr ()) \<and> load_graph i d' = Inr g' \<and>
    (v, gd_code g', t) \<in> set (list_versions i d) \<and> gd_version g' = gd_version g + 1 \<and>
    gd_active_version g' = (if gd_active g then Some (gd_version g + 1) else None) \<and>
    load_plan i d' = (case load_plan_version i v d of Inr p \<Rightarrow> Inr p | Inl _ \<Rightarrow> load_plan i d)"
proof -
  note wf = reachable_wf [OF assms(1,2)]
  from assms(2) have b: "length (db_versions d) < 2 ^ 63" by simp
  from listed_version [OF wf b assms(3,4)] obtain old t where
    old: "find_version d i (as_i64 v) = Some old" "(v, vr_code old, t) \<in> set (list_versions i d)" by blast
  from assms(3) obtain r where r: "find_graph d i = Some r" "g = row_to_graph r"
    by (auto simp: load_graph_def split: option.splits)
  from find_graph_mem [OF r(1)] have m: "r \<in> set (db_graphs d)" by simp
  from rolled_back_row [OF _ r(1), of now v old] wf obtain h where
    h: "find_graph (rolled_back now i v r old d) i = Some h" "gr_code h = vr_code old"
    "gr_version h = gr_version r + 1" "gr_active h = (if gr_status r = ''deployed'' then Some (gr_version r + 1) else gr_active r)"
    "gr_plan h = (case vr_plan old of Some p \<Rightarrow> Some p | None \<Rightarrow> gr_plan r)"
    unfolding db_wf_def by metis
  have bounds: "1 \<le> gr_version r" "gr_version r + 1 < 2 ^ 63"
    using version_bound [OF wf m] assms(2) by auto
  then have n: "i64_as_u64 (gr_version r + 1) = i64_as_u64 (gr_version r) + 1"
    by (simp add: u64_i64 nat_add_distrib)
  have "active_ok r" using wf m by (simp add: db_wf_def row_ok_def)
  then have "gd_active_version (row_to_graph h) = (if gd_active g then Some (gd_version g + 1) else None)"
    by (auto simp: row_to_graph_def h r(2) n active_ok_def)
  moreover have "load_plan i (rolled_back now i v r old d) =
      (case load_plan_version i v d of Inr p \<Rightarrow> Inr p | Inl _ \<Rightarrow> load_plan i d)"
    using old(1) r(1) by (auto simp: load_plan_def load_plan_version_def h split: option.splits)
  ultimately show ?thesis
    using rollback_result(1) [OF wf assms(2) old(1) r(1), of now] old(2) h n r(2)
    by (intro exI [of _ "rolled_back now i v r old d"] exI [of _ "row_to_graph h"] exI [of _ t])
      (simp add: load_graph_def row_to_graph_def)
qed

section \<open>Walks over forks\<close>

lemma parent_position:
  assumes "db_wf d" "k < length (db_graphs d)" "gr_parent (db_graphs d ! k) = Some p"
  obtains j where "j < k" "gr_id (db_graphs d ! j) = p"
proof -
  from assms have "p \<in> gr_id ` set (take k (db_graphs d))" by (simp add: db_wf_def parents_before_def)
  then obtain h where "h \<in> set (take k (db_graphs d))" "gr_id h = p" by blast
  then show thesis using that by (auto simp: in_set_conv_nth)
qed

lemma load_position:
  assumes "db_wf d" "k < length (db_graphs d)"
  shows "load_graph (gr_id (db_graphs d ! k)) d = Inr (row_to_graph (db_graphs d ! k))"
  using assms find_graph_Some [of d "db_graphs d ! k"] by (simp add: load_graph_def db_wf_def)

lemma same_position:
  "db_wf d \<Longrightarrow> j < length (db_graphs d) \<Longrightarrow> k < length (db_graphs d) \<Longrightarrow>
     gr_id (db_graphs d ! j) = gr_id (db_graphs d ! k) \<Longrightarrow> j = k"
  unfolding db_wf_def by (metis length_map nth_eq_iff_index_eq nth_map)

definition lineage_of :: "graph_definition list \<Rightarrow> graph_definition \<Rightarrow> bool" where
  "lineage_of gs g \<longleftrightarrow>
     gs \<noteq> [] \<and> last gs = g \<and> gd_parent (hd gs) = None \<and> distinct (map gd_id gs) \<and>
     (\<forall>k. Suc k < length gs \<longrightarrow> gd_parent (gs ! Suc k) = Some (gd_id (gs ! k)))"

lemma lineage_snoc:
  assumes "lineage_of gs p" "gd_parent g = Some (gd_id p)" "gd_id g \<notin> gd_id ` set gs"
  shows "lineage_of (gs @ [g]) g"
  using assms by (auto simp: lineage_of_def nth_append last_conv_nth less_Suc_eq)
    (metis One_nat_def diff_Suc_1)

lemma walk_up_position:
  assumes "db_wf d" "k < length (db_graphs d)"
  shows "\<exists>gs. (\<forall>acc. walk_up d acc (gr_id (db_graphs d ! k)) = Some (Inr (gs @ acc))) \<and>
    lineage_of gs (row_to_graph (db_graphs d ! k)) \<and> gd_id ` set gs \<subseteq> gr_id ` set (take (Suc k) (db_graphs d))"
  using assms(2)
proof (induction k rule: less_induct)
  case (less k)
  let ?g = "row_to_graph (db_graphs d ! k)"
  have sel: "gd_parent ?g = gr_parent (db_graphs d ! k)" "gd_id ?g = gr_id (db_graphs d ! k)"
    by (simp_all add: row_to_graph_def)
  have self: "gr_id (db_graphs d ! k) \<in> gr_id ` set (take (Suc k) (db_graphs d))"
    using less.prems by (simp add: take_Suc_conv_app_nth)
  have walk: "walk_up d acc (gr_id (db_graphs d ! k)) =
      (case gr_parent (db_graphs d ! k) of None \<Rightarrow> Some (Inr (?g # acc)) | Some p \<Rightarrow> walk_up d (?g # acc) p)" for acc
    by (subst walk_up.simps) (simp add: load_position [OF assms(1) less.prems] sel cong: option.case_cong)
  show ?case
  proof (cases "gr_parent (db_graphs d ! k)")
    case None
    with self show ?thesis by (intro exI [of _ "[?g]"]) (simp add: lineage_of_def walk sel)
  next
    case (Some p)
    from parent_position [OF assms(1) less.prems Some] obtain j where j: "j < k" "gr_id (db_graphs d ! j) = p" .
    with less.prems have "j < length (db_graphs d)" by simp
    from less.IH [OF j(1) this] obtain gs where gs: "\<And>acc. walk_up d acc p = Some (Inr (gs @ acc))"
      "lineage_of gs (row_to_graph (db_graphs d ! j))" "gd_id ` set gs \<subseteq> gr_id ` set (take (Suc j) (db_graphs d))"
      unfolding j(2) by blast
    have "gr_id (db_graphs d ! k) \<noteq> gr_id h" if "h \<in> set (take (Suc j) (db_graphs d))" for h
    proof -
      from that obtain l where "l < Suc j" "l < length (db_graphs d)" "h = db_graphs d ! l"
        by (auto simp: in_set_conv_nth)
      with same_position [OF assms(1) less.prems, of l] j(1) show ?thesis by auto
    qed
    with gs(3) have fresh: "gd_id ?g \<notin> gd_id ` set gs" unfolding sel by blast
    have "gd_parent ?g = Some (gd_id (row_to_graph (db_graphs d ! j)))"
      unfolding sel(1) Some by (simp add: row_to_graph_def j(2))
    note lineage_snoc [OF gs(2) this fresh]
    moreover have "set (take (Suc j) (db_graphs d)) \<subseteq> set (take (Suc k) (db_graphs d))"
      using j(1) by (intro set_take_subset_set_take) simp
    with gs(3) self have "gd_id ` set (gs @ [?g]) \<subseteq> gr_id ` set (take (Suc k) (db_graphs d))"
      unfolding set_append image_Un using sel(2) by auto
    moreover have "walk_up d acc (gr_id (db_graphs d ! k)) = Some (Inr ((gs @ [?g]) @ acc))" for acc
      by (simp add: walk Some gs(1))
    ultimately show ?thesis by blast
  qed
qed

lemma all_trees_total:
  "\<forall>t \<in> set ts. \<exists>x. t = Some (Inr x) \<Longrightarrow> \<exists>xs. all_trees ts = Some (Inr xs) \<and> ts = map (\<lambda>x. Some (Inr x)) xs"
proof (induction ts)
  case (Cons t ts)
  then obtain x xs where "t = Some (Inr x)" "all_trees ts = Some (Inr xs)" "ts = map (\<lambda>x. Some (Inr x)) xs" by auto
  then show ?case by (intro exI [of _ "x # xs"]) simp
qed simp

lemma child_position:
  assumes "db_wf d" "k < length (db_graphs d)" "c \<in> set (list_children (gr_id (db_graphs d ! k)) d)"
  obtains j where "k < j" "j < length (db_graphs d)" "c = row_to_graph (db_graphs d ! j)"
proof -
  from assms(3) obtain j where j: "j < length (db_graphs d)" "c = row_to_graph (db_graphs d ! j)"
    "gr_parent (db_graphs d ! j) = Some (gr_id (db_graphs d ! k))"
    by (auto simp: list_children_def order_asc_def in_set_conv_nth)
  from parent_position [OF assms(1) j(1,3)] obtain l where "l < j" "gr_id (db_graphs d ! l) = gr_id (db_graphs d ! k)" .
  with same_position [OF assms(1) _ assms(2), of l] j(1) have "k < j" by auto
  with j that show thesis by blast
qed

lemma graph_tree_position:
  assumes "db_wf d" "k < length (db_graphs d)" "length (db_graphs d) - k \<le> m"
  shows "\<exists>ts. graph_tree m (gr_id (db_graphs d ! k)) d = Some (Inr (Tree (row_to_graph (db_graphs d ! k)) ts))"
  using assms(2,3)
proof (induction m arbitrary: k)
  case (Suc m)
  let ?cs = "list_children (gr_id (db_graphs d ! k)) d"
  have "\<forall>t \<in> set (map (\<lambda>c. graph_tree m (gd_id c) d) ?cs). \<exists>x. t = Some (Inr x)"
  proof
    fix t assume "t \<in> set (map (\<lambda>c. graph_tree m (gd_id c) d) ?cs)"
    then obtain c where c: "c \<in> set ?cs" "t = graph_tree m (gd_id c) d" by auto
    from child_position [OF assms(1) Suc.prems(1) c(1)] obtain j where
      j: "k < j" "j < length (db_graphs d)" "c = row_to_graph (db_graphs d ! j)" .
    with Suc.prems(2) have "length (db_graphs d) - j \<le> m" by simp
    from Suc.IH [OF j(2) this] obtain ts where
      "graph_tree m (gr_id (db_graphs d ! j)) d = Some (Inr (Tree (row_to_graph (db_graphs d ! j)) ts))" by blast
    moreover have "gd_id c = gr_id (db_graphs d ! j)" by (simp add: j(3) row_to_graph_def)
    ultimately show "\<exists>x. t = Some (Inr x)" by (simp add: c(2))
  qed
  from all_trees_total [OF this] show ?case
    by (auto simp: load_position [OF assms(1) Suc.prems(1)])
qed simp

text \<open>C15: the walk from a graph to the root of its forks and the recursion over all its forks end in every
  database the operations can produce: the lineage leads from a graph without a parent, each the
  parent of the next, without repetition to the graph itself, and the tree exists with any fuel above
  the number of graphs.\<close>

theorem fork_walks_end:
  assumes "reachable_db d" "length (db_versions d) < 2 ^ 63 - 1" "load_graph i d = Inr g"
    and "length (db_graphs d) \<le> k"
  shows "(\<exists>gs. graph_lineage i d = Some (Inr gs) \<and> lineage_of gs g) \<and>
    (\<exists>ts. graph_tree k i d = Some (Inr (Tree g ts)))"
proof -
  note wf = reachable_wf [OF assms(1,2)]
  from assms(3) obtain r where r: "find_graph d i = Some r" "g = row_to_graph r"
    by (auto simp: load_graph_def split: option.splits)
  from find_graph_mem [OF r(1)] obtain j where j: "j < length (db_graphs d)" "db_graphs d ! j = r" "gr_id r = i"
    by (auto simp: in_set_conv_nth)
  from walk_up_position [OF wf j(1)] obtain gs where
    "walk_up d [] i = Some (Inr (gs @ []))" "lineage_of gs g"
    unfolding j(2,3) r(2) by blast
  moreover have "length (db_graphs d) - j \<le> k" using assms(4) by simp
  from graph_tree_position [OF wf j(1) this] have "\<exists>ts. graph_tree k i d = Some (Inr (Tree g ts))"
    by (simp add: j(2,3) r(2))
  ultimately show ?thesis by (auto simp: graph_lineage_def)
qed

theorem fork_walks_end_witness:
  "\<exists>gs g. graph_lineage ''b'' demo_db = Some (Inr gs) \<and> lineage_of gs g \<and> gd_parent g = Some ''a''"
proof -
  have "case load_graph ''b'' demo_db of Inr g \<Rightarrow> gd_parent g = Some ''a'' | Inl _ \<Rightarrow> False" by code_simp
  then obtain g where "load_graph ''b'' demo_db = Inr g" "gd_parent g = Some ''a''" by (auto split: sum.splits)
  with fork_walks_end [OF demo_reachable _ this(1) order_refl] demo_size show ?thesis by auto
qed

theorem history_immutable_witness:
  "\<exists>g. load_graph ''a'' demo_db = Inr g \<and> fst (snd (last (list_versions ''a'' demo_db))) = gd_code g \<and> gd_code g = ''c2''"
proof -
  from demo_graph obtain g where "load_graph ''a'' demo_db = Inr g" "gd_code g = ''c2''"
    by (auto split: sum.splits)
  with history_immutable [OF demo_reachable _ this(1)] demo_size show ?thesis by auto
qed

theorem rollback_restores_witness:
  "\<exists>d' g'. rollback ''5'' ''a'' 1 demo_db = (d', Inr ()) \<and> load_graph ''a'' d' = Inr g' \<and> gd_version g' = 3 \<and>
     load_plan ''a'' d' = Inr ''p2''"
proof -
  from demo_graph obtain g where g: "load_graph ''a'' demo_db = Inr g" "gd_version g = 2"
    by (auto split: sum.splits)
  have "1 \<in> set (map fst (list_versions ''a'' demo_db))" unfolding demo_history by simp
  then have "1 \<in> fst ` set (list_versions ''a'' demo_db)" by simp
  from rollback_restores [OF demo_reachable _ g(1) this, of "''5''"] demo_size g(2) demo_plans show ?thesis
    by auto
qed

section \<open>The store of executions\<close>

text \<open>What the engine and the scheduler rely on: an execution that was saved is found under its id with
  its key, a checkpoint that was put is read back, and neither touches other executions.\<close>

locale execution_store =
  fixes save :: "'x \<Rightarrow> 's \<Rightarrow> 's \<times> ('e + unit)"
    and put :: "string \<Rightarrow> 'b \<Rightarrow> 's \<Rightarrow> 's \<times> ('e + unit)"
    and key_of :: "string \<Rightarrow> 's \<Rightarrow> 'k option"
    and blob_of :: "string \<Rightarrow> 's \<Rightarrow> 'e + 'b"
    and ident :: "'x \<Rightarrow> string"
    and key :: "'x \<Rightarrow> 'k"
  assumes saved: "save x s = (s', Inr ()) \<Longrightarrow> key_of (ident x) s' = Some (key x)"
    and saved_other: "save x s = (s', r) \<Longrightarrow> i \<noteq> ident x \<Longrightarrow> key_of i s' = key_of i s \<and> blob_of i s' = blob_of i s"
    and put_key: "put i b s = (s', r) \<Longrightarrow> key_of j s' = key_of j s"
    and put_blob: "put i b s = (s', r) \<Longrightarrow> key_of i s \<noteq> None \<Longrightarrow> r = Inr () \<and> blob_of i s' = Inr b"
    and put_other: "put i b s = (s', r) \<Longrightarrow> j \<noteq> i \<Longrightarrow> blob_of j s' = blob_of j s"
begin

lemma parked:
  assumes "save x s = (s1, Inr ())" "put (ident x) b s1 = (s2, r)"
  shows "r = Inr ()" "key_of (ident x) s2 = Some (key x)" "blob_of (ident x) s2 = Inr b"
  using saved [OF assms(1)] put_key [OF assms(2), of "ident x"] put_blob [OF assms(2)] by simp_all

lemma parked_other:
  assumes "save x s = (s1, r1)" "put (ident x) b s1 = (s2, r2)" "j \<noteq> ident x"
  shows "key_of j s2 = key_of j s" "blob_of j s2 = blob_of j s"
  using saved_other [OF assms(1,3)] put_key [OF assms(2), of j] put_other [OF assms(2,3)] by simp_all

end

definition execution_key :: "codec \<Rightarrow> string \<Rightarrow> db \<Rightarrow> (string \<times> nat \<times> execution_status) option" where
  "execution_key jc i d =
     (case load_execution jc i d of
        Inr x \<Rightarrow> Some (ex_graph x, ex_version x, ex_status x) | Inl _ \<Rightarrow> None)"

definition stored_key :: "execution \<Rightarrow> string \<times> nat \<times> execution_status" where
  "stored_key x = (ex_graph x, i64_as_u64 (as_i64 (ex_version x)), ex_status x)"

lemma parse_status_text [simp]: "parse_status (status_text s) = s"
  by (cases s) (simp_all add: parse_status_def)

lemma execution_key_find:
  "execution_key jc i d =
     map_option (\<lambda>r. (xr_graph r, i64_as_u64 (xr_version r), parse_status (xr_status r))) (find_execution i d)"
  by (simp add: execution_key_def load_execution_def row_to_execution_def split: option.split)

lemma find_unfiltered: "i \<noteq> j \<Longrightarrow> find (\<lambda>r. f r = i) (filter (\<lambda>r. f r \<noteq> j) xs) = find (\<lambda>r. f r = i) xs"
  by (induction xs) auto

lemma find_snoc: "find P (xs @ [x]) = (case find P xs of Some y \<Rightarrow> Some y | None \<Rightarrow> if P x then Some x else None)"
  by (induction xs) auto

lemma find_filtered_none: "find (\<lambda>r. f r = i) (filter (\<lambda>r. f r \<noteq> i) xs) = None"
  by (simp add: find_None_iff)

lemma find_save_execution:
  assumes "save_execution jc x d = (d', Inr ())"
  obtains input where "find_execution (ex_id x) d' = Some (execution_to_row jc input x)"
    and "\<And>i. i \<noteq> ex_id x \<Longrightarrow> find_execution i d' = find_execution i d"
  using assms
  by (auto simp: save_execution_def find_execution_def find_snoc find_unfiltered find_filtered_none
      execution_to_row_def split: option.splits)

lemma find_save_checkpoint:
  "save_checkpoint i b d = (d', r) \<Longrightarrow>
     find_execution j d' = map_option (\<lambda>r. if xr_id r = i then r\<lparr>xr_checkpoint := Some b\<rparr> else r) (find_execution j d)"
  unfolding save_checkpoint_def find_execution_def
  by (auto simp: find_map_keyed)

lemma find_execution_id: "find_execution i d = Some r \<Longrightarrow> xr_id r = i"
  by (auto simp: find_execution_def find_Some_iff)

interpretation executions: execution_store "save_execution jc" save_checkpoint "execution_key jc" load_checkpoint
  ex_id stored_key for jc
proof unfold_locales
  fix x s s' assume "save_execution jc x s = (s', Inr ())"
  then show "execution_key jc (ex_id x) s' = Some (stored_key x)"
    by (rule find_save_execution) (simp add: execution_key_find execution_to_row_def stored_key_def)
next
  fix x s s' r i assume a: "save_execution jc x s = (s', r)" "i \<noteq> ex_id x"
  show "execution_key jc i s' = execution_key jc i s \<and> load_checkpoint i s' = load_checkpoint i s"
  proof (cases r)
    case (Inr u)
    with a(1) have "save_execution jc x s = (s', Inr ())" by simp
    from find_save_execution [OF this] a(2) have "find_execution i s' = find_execution i s" by metis
    then show ?thesis by (simp add: execution_key_find load_checkpoint_def)
  qed (use a in \<open>auto simp: save_execution_def split: option.splits\<close>)
next
  fix i b s s' r j assume "save_checkpoint i b s = (s', r)"
  from find_save_checkpoint [OF this, of j] show "execution_key jc j s' = execution_key jc j s"
    by (simp add: execution_key_find option.map_comp comp_def if_distrib cong: if_cong)
next
  fix i b s s' r assume a: "save_checkpoint i b s = (s', r)" "execution_key jc i s \<noteq> None"
  then obtain x where "find_execution i s = Some x" "xr_id x = i"
    using find_execution_id by (auto simp: execution_key_find)
  with find_save_checkpoint [OF a(1), of i] a(1) show "r = Inr () \<and> load_checkpoint i s' = Inr b"
    by (simp add: load_checkpoint_def save_checkpoint_def)
next
  fix i b s s' r j assume a: "save_checkpoint i b s = (s', r)" "j \<noteq> i"
  from find_save_checkpoint [OF a(1), of j] a(2) find_execution_id [of j s]
  show "load_checkpoint j s' = load_checkpoint j s"
    by (auto simp: load_checkpoint_def split: option.split)
qed

end
