(* ===== verification/Progress.thy ===== *)
theory Progress
  imports Examples
begin

text \<open>
  Progress of paused runs: a segment of a run that pauses again has spent node budget inside the
  loop it stopped in, or stands at a later position of the execution order.  So no sequence of
  resumed segments pauses more often than a bound that only depends on the plan.
\<close>

section \<open>The budget that is left\<close>

text \<open>The counter of nodes is a \<open>u32\<close> that wraps around; a counter above the budget passes the check
  only by wrapping, once.\<close>

definition count_left :: "nat \<Rightarrow> u32 \<Rightarrow> nat" where
  "count_left b c = (if c \<le> b then b - c else Suc b)"

definition budget_left :: "executor \<Rightarrow> xst \<Rightarrow> nat" where
  "budget_left ex st = count_left (node_budget (e_plan ex)) (x_count st)"

lemma count_left_bound: "count_left b c \<le> Suc b"
  by (auto simp: count_left_def)

definition no_wrap :: "executor \<Rightarrow> bool" where
  "no_wrap ex \<longleftrightarrow> node_budget (e_plan ex) < u32_max"

lemma budget_left_count: "x_count st' = x_count st \<Longrightarrow> budget_left ex st' = budget_left ex st"
  by (simp add: budget_left_def)

lemma charge_left: "no_wrap ex \<Longrightarrow> charge ex i st = Inr st' \<Longrightarrow> budget_left ex st' < budget_left ex st"
  by (auto simp: charge_def Let_def budget_left_def count_left_def no_wrap_def u32_add_def u32_max_def u32_modulus_def split: if_splits)

section \<open>Loop bodies\<close>

lemma calc_value_count: "calc_value ex n st = Inr st' \<Longrightarrow> x_count st' = x_count st"
  by (auto simp: calc_value_def bind_res_Inr Let_def set_out_def set_var_def split: option.splits if_splits)

lemma subgraph_call_count: "subgraph_call ex n name ps st = Inr st' \<Longrightarrow> x_count st' = x_count st"
  by (auto simp: subgraph_call_def Let_def set_out_def set_var_def set_var_opt_def
      split: if_splits sum.splits prod.splits option.splits)

lemma dispatch_call_count: "dispatch_call ex n t ps fb st = Inr st' \<Longrightarrow> x_count st' = x_count st"
  by (auto simp: dispatch_call_def set_out_def set_var_def set_var_opt_def split: sum.splits option.splits)

lemma body_node_count: "body_node ex n st = Inr (st', fl) \<Longrightarrow> x_count st' = x_count st"
  by (cases "cn_op n")
    (auto simp: body_node_def body_call_def body_decide_def body_act_def bind_res_Inr Let_def set_out_def
      split: option.splits if_splits intro: calc_value_count subgraph_call_count dispatch_call_count)

lemma run_body_left:
  assumes "no_wrap ex"
  shows "run_body ex pause li it xs st = Inr (st', e) \<Longrightarrow>
    budget_left ex st' \<le> budget_left ex st \<and>
    (\<forall>ls. e = BodyPaused ls \<longrightarrow> budget_left ex st' < budget_left ex st)"
proof (induction xs arbitrary: st)
  case (Cons x rest)
  obtain pos i where x: "x = (pos, i)" by (cases x)
  from Cons.prems obtain n where n: "get_node (e_plan ex) i = Some n" by (auto simp: x split: option.splits)
  show ?case
  proof (cases "branch_mismatch (e_plan ex) (x_outs st) (cn_op n) i")
    case True
    with Cons.prems n have "run_body ex pause li it rest st = Inr (st', e)" by (simp add: x)
    then show ?thesis by (rule Cons.IH)
  next
    case False
    with Cons.prems n obtain s1 s2 fl where s: "charge ex (cn_index n) st = Inr s1"
      "body_node ex n s1 = Inr (s2, fl)"
      "(case fl of
          FBreak \<Rightarrow> Inr (s2, BodyBreak)
        | FSkipRest \<Rightarrow> Inr (s2, BodyDone)
        | FNoPause \<Rightarrow> run_body ex pause li it rest s2
        | FNext \<Rightarrow> if pauses pause (x_count s2) (cn_id n) then
              Inr (s2, BodyPaused \<lparr>ls_loop = li, ls_iteration = it, ls_body_position = Suc pos\<rparr>)
            else run_body ex pause li it rest s2) = Inr (st', e)"
      by (auto simp: x bind_res_Inr)
    have less: "budget_left ex s2 < budget_left ex st"
      using charge_left [OF assms s(1)] budget_left_count [OF body_node_count [OF s(2)]] by simp
    show ?thesis
    proof (cases "run_body ex pause li it rest s2 = Inr (st', e)")
      case True
      from Cons.IH [OF this] less show ?thesis by auto
    next
      case False
      with s(3) have "st' = s2" by (auto split: body_flow.splits if_splits)
      with less show ?thesis by simp
    qed
  qed
qed simp

lemma run_iterations_left:
  assumes "no_wrap ex"
  shows "run_iterations ex pause li target body k it pos st = Inr (st', Some ls) \<Longrightarrow>
    budget_left ex st' < budget_left ex st"
proof (induction k arbitrary: it pos st)
  case (Suc k)
  let ?s = "set_var_opt target (VInt (int it)) st"
  have c: "budget_left ex ?s = budget_left ex st"
    by (rule budget_left_count) (simp add: set_var_opt_def set_var_def split: option.split)
  from Suc.prems obtain s e where b: "run_body ex pause li it (drop pos (enumerate 0 body)) ?s = Inr (s, e)"
    and r: "(case e of
          BodyDone \<Rightarrow> run_iterations ex pause li target body k (Suc it) 0 s
        | BodyBreak \<Rightarrow> Inr (s, None)
        | BodyPaused ls \<Rightarrow> Inr (s, Some ls)) = Inr (st', Some ls)"
    by (auto simp: bind_res_Inr)
  from run_body_left [OF assms b] r Suc.IH [of "Suc it" 0 s] show ?case
    by (auto simp: c split: body_end.splits intro: order.strict_trans2)
qed simp

lemma run_loop_left:
  assumes "no_wrap ex" "run_loop ex pause cursor n st = Inr (st', NodePaused ls)"
  shows "budget_left ex st' < budget_left ex st"
proof -
  let ?s = "st\<lparr>x_skipped := x_skipped st \<union> loop_body (e_plan ex) (cn_index n)\<rparr>"
  from assms(2) obtain k it pos where
    "run_iterations ex pause (cn_index n) (map_option trim_quotes (find_arg n ''target''))
       (body_order ex (cn_index n)) k it pos ?s = Inr (st', Some ls)"
    by (auto simp: run_loop_def Let_def bind_res_Inr split: if_splits option.splits prod.splits)
  from run_iterations_left [OF assms(1) this] budget_left_count [of ?s st ex] show ?thesis by simp
qed

section \<open>Segments\<close>

lemma run_node_left:
  assumes "no_wrap ex" "run_node k ex pause n st = Inr (st', NodePaused ls)"
  shows "budget_left ex st' < budget_left ex st"
proof (cases k)
  case (Suc m)
  with assms(2) obtain s1 s2 where s: "charge ex (cn_index n) st = Inr s1" "check_memory ex s1 = Inr s2"
    "run_arm (run_node m ex None) ex pause n (enter_node n s2) = Inr (st', NodePaused ls)"
    by (auto simp: run_node_step_def bind_res_Inr split: if_splits)
  have c: "x_count (enter_node n s2) = x_count s1"
    using s(2) by (auto simp: check_memory_def enter_node_def Let_def split: if_splits option.splits)
  have "budget_left ex (enter_node n s2) < budget_left ex st"
    using charge_left [OF assms(1) s(1)] by (simp add: budget_left_count [OF c])
  moreover have "run_loop ex pause None n (enter_node n s2) = Inr (st', NodePaused ls)"
    using s(3) by (cases "cn_op n") (auto simp: run_arm_def with_ok_def bind_res_Inr)
  note run_loop_left [OF assms(1) this]
  ultimately show ?thesis by simp
qed (use assms in simp)

lemma run_from_left:
  assumes "no_wrap ex"
  shows "run_from ex policy pos is st = Inr (Paused ck) \<Longrightarrow>
    ck_position ck < pos + length is \<and>
    (pos < ck_position ck \<or> ck_position ck = pos \<and> (\<exists>st'. ck_node_count ck = x_count st' \<and> budget_left ex st' < budget_left ex st))"
proof (induction "is" arbitrary: pos st)
  case (Cons i rest)
  from Cons.prems obtain n st' out where
    r: "run_node (node_fuel (e_plan ex)) ex (Some policy) n st = Inr (st', out)"
    "(case out of
        NodePaused ls \<Rightarrow> Inr (Paused (build_checkpoint st' pos (checkpoint_elapsed ex i st') (Some ls)))
      | NodeOk \<Rightarrow>
          if rest \<noteq> [] \<and> should_pause policy (x_count st') (cn_id n) then
            Inr (Paused (build_checkpoint st' (Suc pos) (checkpoint_elapsed ex i st') None))
          else run_from ex policy (Suc pos) rest st') = Inr (Paused ck)"
    by (auto simp: bind_res_Inr split: option.splits)
  show ?case
  proof (cases out)
    case (NodePaused ls)
    with r run_node_left [OF assms] show ?thesis by (auto simp: build_checkpoint_def)
  next
    case NodeOk
    with r(2) Cons.IH [of "Suc pos" st'] show ?thesis
      by (cases "rest \<noteq> [] \<and> should_pause policy (x_count st') (cn_id n)") (auto simp: build_checkpoint_def)
  qed
qed simp

text \<open>The measure of a checkpoint: positions that are left, then budget that is left.\<close>

definition checkpoint_rank :: "compiled_plan \<Rightarrow> checkpoint \<Rightarrow> nat" where
  "checkpoint_rank p ck =
     (length (cp_nodes p) - ck_position ck) * (node_budget p + 2) + count_left (node_budget p) (ck_node_count ck)"

definition pause_bound :: "compiled_plan \<Rightarrow> nat" where
  "pause_bound p = length (cp_nodes p) * (node_budget p + 2) + (node_budget p + 1)"

lemma checkpoint_rank_bound: "checkpoint_rank p ck \<le> pause_bound p"
  unfolding checkpoint_rank_def pause_bound_def
  by (intro add_le_mono mult_le_mono1) (use count_left_bound in auto)

lemma rank_later:
  assumes "ck_position ck < ck_position ck'" "ck_position ck' < length (cp_nodes p)"
  shows "checkpoint_rank p ck' < checkpoint_rank p ck"
proof -
  let ?b = "node_budget p + 2"
  have "Suc (length (cp_nodes p) - ck_position ck') \<le> length (cp_nodes p) - ck_position ck" using assms by simp
  then have "Suc (length (cp_nodes p) - ck_position ck') * ?b \<le> (length (cp_nodes p) - ck_position ck) * ?b"
    by (rule mult_le_mono1)
  moreover have "count_left (node_budget p) (ck_node_count ck') < ?b"
    using count_left_bound [of "node_budget p" "ck_node_count ck'"] by simp
  ultimately show ?thesis unfolding checkpoint_rank_def mult_Suc by linarith
qed

lemma order_length: "plan_order p = Inr ord \<Longrightarrow> length ord = length (cp_nodes p)"
  by (auto simp: plan_order_def topological_order_def Let_def split: option.splits if_splits)

lemma resume_rank:
  assumes "node_budget p < u32_max" "resume p w ck policy = Inr (Paused ck')"
  shows "checkpoint_rank p ck' < checkpoint_rank p ck"
proof -
  from assms(2) obtain ord where ord: "plan_order p = Inr ord" by (auto simp: resume_def bind_res_Inr)
  let ?ex = "make_executor p (resumed_world w ck) ord"
  let ?st = "restored_state p ck"
  have nw: "no_wrap ?ex" using assms(1) by (simp add: no_wrap_def make_executor_def)
  have same: "checkpoint_rank p ck' < checkpoint_rank p ck"
    if "ck_position ck' = ck_position ck" "ck_node_count ck' = x_count st'"
      "budget_left ?ex st' < budget_left ?ex ?st" for st'
    using that by (simp add: checkpoint_rank_def budget_left_def make_executor_def restored_state_def)
  note len = order_length [OF ord]
  show ?thesis
  proof (cases "ck_loop_state ck")
    case None
    with assms(2) ord have "run_from ?ex policy (ck_position ck) (drop (ck_position ck) ord) ?st = Inr (Paused ck')"
      by (auto simp: resume_def bind_res_Inr Let_def)
    from run_from_left [OF nw this] consider "ck_position ck < ck_position ck'" "ck_position ck' < length (cp_nodes p)"
      | st' where "ck_position ck' = ck_position ck" "ck_node_count ck' = x_count st'"
          "budget_left ?ex st' < budget_left ?ex ?st" using len by auto
    then show ?thesis using same rank_later by cases blast+
  next
    case (Some ls)
    with assms(2) ord obtain n s out where n: "run_loop ?ex (Some policy) (Some (ls_iteration ls, ls_body_position ls)) n ?st =
        Inr (s, out)"
      and r: "(case out of
                 NodePaused ls2 \<Rightarrow>
                   Inr (Paused (build_checkpoint s (ck_position ck) (checkpoint_elapsed ?ex (ls_loop ls) s) (Some ls2)))
               | NodeOk \<Rightarrow>
                   run_from ?ex policy (Suc (ck_position ck)) (drop (Suc (ck_position ck)) ord) s) = Inr (Paused ck')"
      by (auto simp: resume_def bind_res_Inr Let_def split: option.splits)
    show ?thesis
    proof (cases out)
      case (NodePaused ls2)
      with r have "ck_position ck' = ck_position ck" "ck_node_count ck' = x_count s" by (auto simp: build_checkpoint_def)
      from same [OF this] run_loop_left [OF nw] n NodePaused show ?thesis by simp
    next
      case NodeOk
      with r have f: "run_from ?ex policy (Suc (ck_position ck)) (drop (Suc (ck_position ck)) ord) s = Inr (Paused ck')"
        by simp
      have "ck_position ck < ck_position ck'" "ck_position ck' < length (cp_nodes p)"
        using run_from_left [OF nw f] len by auto
      then show ?thesis by (rule rank_later)
    qed
  qed
qed

text \<open>C4: a paused run that is resumed again and again, under any policies and in any outside worlds,
  ends: it completes or fails after at most \<open>pause_bound\<close> pauses, when the node budget of the plan
  leaves the \<open>u32\<close> counter room to count past it.\<close>

theorem resumed_runs_end:
  assumes "node_budget p < u32_max"
    and "\<And>i. i < n \<Longrightarrow> resume p (w i) (ck i) (policy i) = Inr (Paused (ck (Suc i)))"
  shows "n \<le> pause_bound p"
proof -
  have "checkpoint_rank p (ck n) + n \<le> checkpoint_rank p (ck 0)"
    using assms(2)
  proof (induction n)
    case (Suc n)
    with resume_rank [OF assms(1) Suc.prems [of n]] show ?case by fastforce
  qed simp
  with checkpoint_rank_bound [of p "ck 0"] show ?thesis by simp
qed

text \<open>The first two pauses of a run that pauses after every node.\<close>

definition demo_checkpoint :: checkpoint where
  "demo_checkpoint =
     \<lparr>ck_node_count = 2, ck_position = 1, ck_elapsed_us = 0, ck_loop_state = None,
      ck_context = context_new\<lparr>variables := [(''i'', VInt 0)]\<rparr>,
      ck_node_outputs = [(1, VInt 0), (0, VNull)], ck_enabled = {0, 2},
      ck_control_satisfied = [0, 0, 1], ck_loop_skipped = {1}, ck_execution_order = [''l''], ck_output = None\<rparr>"

lemma demo_first_pause:
  "execute_with loop_return_plan demo_world context_new (pause_after 1) = Inr (Paused demo_checkpoint)"
proof -
  have "insert 2 {i. (i = 0 \<or> Suc 0 = i \<or> i = 2) \<and> Suc 0 \<noteq> i \<and> i \<noteq> 2} = {0, 2 :: nat}" by auto
  then show ?thesis
    apply (simp add: demo_start pause_after_def demo_checkpoint_def cong: bind_res_block)
    apply (simp add: loop_return_plan_def demo_defs frame_eval)
    apply (simp add: run_eval cong: run_block del: first_some.simps)
    done
qed

lemma demo_second_pause:
  "\<exists>ck. resume loop_return_plan demo_world demo_checkpoint (pause_after 1) = Inr (Paused ck) \<and> ck_position ck = 2"
  apply (simp add: demo_start resume_def Let_def demo_checkpoint_def cong: bind_res_block)
  apply (simp add: loop_return_plan_def pause_after_def demo_defs frame_eval restored_state_def resumed_world_def)
  apply (simp add: run_eval cong: run_block del: first_some.simps)
  done

theorem resumed_runs_end_witness:
  "\<exists>ck. resume loop_return_plan demo_world demo_checkpoint (pause_after 1) = Inr (Paused ck) \<and>
     1 \<le> pause_bound loop_return_plan"
proof -
  obtain c1 where c1: "resume loop_return_plan demo_world demo_checkpoint (pause_after 1) = Inr (Paused c1)"
    using demo_second_pause by blast
  have "node_budget loop_return_plan < u32_max"
    by (simp add: loop_return_plan_def demo_plan_def node_budget_def u32_max_def u32_modulus_def)
  from resumed_runs_end [OF this, of 1 "\<lambda>_. demo_world" "\<lambda>i. if i = 0 then demo_checkpoint else c1" "\<lambda>_. pause_after 1"]
  have "1 \<le> pause_bound loop_return_plan" using c1 by simp
  with c1 show ?thesis by blast
qed

end
