(* ===== verification/Service.thy ===== *)
theory Service
  imports Api Scheduler History Progress Pipeline
begin

text \<open>
  What the server promises as a whole: the tables made by a reload, what deploying changes, paused
  executions that come back from the storage, and the caches of plans and answers.
\<close>

section \<open>Reloading the tables\<close>

lemma listed_distinct: "db_wf d \<Longrightarrow> distinct (map gd_id (list_all_graphs d))"
proof -
  assume "db_wf d"
  then have "distinct (map gr_id (db_graphs d))" by (simp add: db_wf_def)
  then have "distinct (map gr_id (rev (db_graphs d)))" by (simp add: rev_map [symmetric])
  then have "distinct (map gr_id (sort_key gr_created_at (rev (db_graphs d))))"
    by (simp add: distinct_map)
  then show ?thesis
    by (simp add: list_all_graphs_def order_desc_def row_to_graph_def comp_def rev_map [symmetric] del: map_map add: map_map)
qed

lemma refresh_loop_tables: "same_tables st (fst (refresh_loop io gs plans routes st))"
proof (induction gs arbitrary: plans routes st)
  case (Cons g gs)
  show ?case
    unfolding refresh_loop.simps
    by (intro same_tables_and_then load_plan_self_heal_tables)
      (auto simp: Cons.IH Let_def split: sum.splits option.splits)
qed simp

text \<open>C16: on a well-formed database, which every database made by the operations is, a successful reload
  leaves tables that match the storage: a plan for every graph, and under the
  key of its path and method every route that the plan of some graph publishes, each of them a valid
  route of an existing graph; no two graphs publish the same path and method.  The answers cached
  before are gone.  A reload that fails leaves plans, routes and answers as they were.\<close>

theorem refresh_sound:
  assumes "db_wf (as_db st)" "refresh_all io st = (st', r)"
  shows "case r of
      Inr _ \<Rightarrow> tables_match io (list_all_graphs (as_db st)) (as_plans st') (as_routes st') \<and> as_resp_cache st' = [] \<and>
        (\<forall>k rc. map_of (as_routes st') k = Some rc \<longrightarrow>
           route_ok rc \<and> k = config_key rc \<and> rc_graph rc \<in> gd_id ` set (list_all_graphs (as_db st)))
    | Inl _ \<Rightarrow> same_tables st st'"
proof (cases r)
  case (Inl e)
  have "same_tables st (fst (refresh_loop io (list_all_graphs (as_db st)) [] [] st))" by (rule refresh_loop_tables)
  with assms(2) Inl show ?thesis by (auto simp: refresh_all_def and_then_Inl)
next
  case (Inr n)
  with assms(2) obtain s plans routes where l: "refresh_loop io (list_all_graphs (as_db st)) [] [] st = (s, Inr (plans, routes))"
    and t: "as_plans st' = plans" "as_routes st' = routes" "as_resp_cache st' = []"
    by (auto simp: refresh_all_def and_then_Inr)
  have m: "tables_match io (list_all_graphs (as_db st)) plans routes"
    using refresh_loop_match [OF l tables_match_empty] listed_distinct [OF assms(1)] by simp
  have "route_ok rc \<and> k = config_key rc \<and> rc_graph rc \<in> gd_id ` set (list_all_graphs (as_db st))"
    if "map_of routes k = Some rc" for k rc
    using m that route_of_plan_ok by (fastforce simp: tables_match_def)
  with m t Inr show ?thesis by simp
qed

section \<open>Deployment\<close>

lemma unmark_deploy: "unmark (fst (deploy i v d)) = unmark d"
  by (simp add: deploy_def unmark_def update_graphs_def unmark_row_def)

lemma unmark_def_idem: "unmark_def_of (unmark_def_of g) = unmark_def_of g"
  by (simp add: unmark_def_of_def)

lemma self_heal_mark: "load_plan_self_heal io (unmark_def_of g) st = load_plan_self_heal io g st"
  by (simp add: load_plan_self_heal_def split: sum.split storage_error.split)

lemma refresh_all_unmark: "refresh_all io (unmark_state st) = map_prod unmark_state id (refresh_all io st)"
proof -
  have l: "refresh_loop io (list_all_graphs (as_db (unmark_state st))) [] [] (unmark_state st) =
      map_prod unmark_state id (refresh_loop io (list_all_graphs (as_db st)) [] [] st)"
    by (simp add: list_unmark refresh_loop_unmark)
  show ?thesis
    unfolding refresh_all_def
    by (rule and_then_map [OF l]) (auto simp: unmark_state_def set_db_def as_db_def)
qed

lemma unmark_state_fields [simp]:
  "as_plans (unmark_state st) = as_plans st" "as_routes (unmark_state st) = as_routes st"
  by (simp_all add: unmark_state_def set_db_def)

definition deployed :: "string \<Rightarrow> nat \<Rightarrow> app_state \<Rightarrow> app_state" where
  "deployed i v st = set_db (fst (deploy i v (as_db st))) st"

text \<open>C17: deploying a version changes nothing of what the server serves: whatever version is marked as
  deployed, a reload gives the same tables of plans and routes with the same answer, and a run loads
  the same plan.  The mark is read by no operation that runs a graph.\<close>

theorem deploy_changes_nothing_served:
  "snd (refresh_all io (deployed i v st)) = snd (refresh_all io st) \<and>
   as_plans (fst (refresh_all io (deployed i v st))) = as_plans (fst (refresh_all io st)) \<and>
   as_routes (fst (refresh_all io (deployed i v st))) = as_routes (fst (refresh_all io st)) \<and>
   snd (load_plan_self_heal io g (deployed i v st)) = snd (load_plan_self_heal io g st)"
proof -
  let ?st' = "deployed i v st"
  have u: "unmark_state ?st' = unmark_state st"
    by (simp add: deployed_def unmark_state_def unmark_deploy) (simp add: set_db_def)
  have r: "map_prod unmark_state id (refresh_all io ?st') = map_prod unmark_state id (refresh_all io st)"
    by (simp only: refresh_all_unmark [symmetric] u)
  have s: "map_prod unmark_state id (load_plan_self_heal io g ?st') = map_prod unmark_state id (load_plan_self_heal io g st)"
    by (simp only: self_heal_unmark [symmetric] u)
  have "unmark_state (fst (refresh_all io ?st')) = unmark_state (fst (refresh_all io st))"
    and a: "snd (refresh_all io ?st') = snd (refresh_all io st)"
    using r by (simp_all add: prod_eq_iff)
  then have "as_plans (fst (refresh_all io ?st')) = as_plans (fst (refresh_all io st))"
    "as_routes (fst (refresh_all io ?st')) = as_routes (fst (refresh_all io st))"
    by (metis unmark_state_fields)+
  with a s show ?thesis by (simp add: prod_eq_iff)
qed


section \<open>Plans of programs sent with a request\<close>

text \<open>The cached plans are those of their programs, addressed by the hash, at most 64 of them.\<close>

definition dynamic_ok :: "server_io \<Rightarrow> app_state \<Rightarrow> bool" where
  "dynamic_ok io st \<longleftrightarrow>
     distinct (map fst (as_dynamic st)) \<and> length (as_dynamic st) \<le> dynamic_plan_capacity \<and>
     (\<forall>(k, _, code, p) \<in> set (as_dynamic st). k = fnv1a code \<and> compile_plan io code = Inr p)"

lemma length_upd: "length (upd k v m) \<le> Suc (length m)"
  by (induction m) (auto simp: upd_def)

lemma set_upd: "set (upd k v m) \<subseteq> insert (k, v) (set m)"
  by (induction m) (auto simp: upd_def)

lemma oldest_entry_some: "es \<noteq> [] \<Longrightarrow> \<exists>k. oldest_entry es = Some k \<and> k \<in> fst ` set es"
proof -
  assume "es \<noteq> []"
  let ?ts = "\<lambda>e :: nat \<times> nat \<times> string \<times> compiled_plan. fst (snd e)"
  obtain e where e: "e \<in> set es" "\<forall>e' \<in> set es. ?ts e \<le> ?ts e'"
    using \<open>es \<noteq> []\<close> arg_min_if_finite [of "set es" ?ts] by (metis List.finite_set not_le set_empty)
  have "find (\<lambda>(_, ts, _). \<forall>(_, ts', _) \<in> set es. ts \<le> ts') es \<noteq> None"
    using e unfolding find_None_iff split_beta by blast
  then obtain e' where f: "find (\<lambda>(_, ts, _). \<forall>(_, ts', _) \<in> set es. ts \<le> ts') es = Some e'" by blast
  then have "e' \<in> set es" unfolding find_Some_iff by (metis nth_mem)
  with f show ?thesis by (simp add: oldest_entry_def)
qed

lemma evicted_room:
  assumes "length es \<le> dynamic_plan_capacity"
  shows "length (if dynamic_plan_capacity \<le> length es
      then case oldest_entry es of Some k \<Rightarrow> filter (\<lambda>e. fst e \<noteq> k) es | None \<Rightarrow> es else es) < dynamic_plan_capacity"
proof (cases "dynamic_plan_capacity \<le> length es")
  case True
  then have "es \<noteq> []" by (auto simp: dynamic_plan_capacity_def)
  from oldest_entry_some [OF this] obtain k e where k: "oldest_entry es = Some k" "e \<in> set es" "fst e = k" by auto
  then have "length (filter (\<lambda>e. fst e \<noteq> k) es) < length es"
    by (auto intro: length_filter_less)
  with True assms k show ?thesis by simp
qed simp

lemma cache_dynamic_ok:
  assumes "dynamic_ok io st" "compile_plan io code = Inr p"
  shows "dynamic_ok io (cache_dynamic_plan now (fnv1a code) code p st)"
proof -
  let ?es = "if dynamic_plan_capacity \<le> length (as_dynamic st)
      then case oldest_entry (as_dynamic st) of Some k \<Rightarrow> filter (\<lambda>e. fst e \<noteq> k) (as_dynamic st) | None \<Rightarrow> as_dynamic st
      else as_dynamic st"
  have l: "length (as_dynamic st) \<le> dynamic_plan_capacity" using assms(1) by (simp add: dynamic_ok_def)
  have sub: "set ?es \<subseteq> set (as_dynamic st)" by (auto split: option.splits)
  have d: "distinct (map fst ?es)"
    using assms(1) by (auto simp: dynamic_ok_def distinct_map_filter split: option.splits)
  have "length (upd (fnv1a code) (now, code, p) ?es) \<le> dynamic_plan_capacity"
    using length_upd [of "fnv1a code" "(now, code, p)" ?es] evicted_room [OF l] by simp
  moreover have "distinct (map fst (upd (fnv1a code) (now, code, p) ?es))"
    using d by (simp add: upd_def distinct_update)
  moreover have "\<forall>(k, _, code, p) \<in> set (upd (fnv1a code) (now, code, p) ?es). k = fnv1a code \<and> compile_plan io code = Inr p"
    using set_upd [of "fnv1a code" "(now, code, p)" ?es] sub assms by (fastforce simp: dynamic_ok_def)
  ultimately show ?thesis by (simp add: dynamic_ok_def cache_dynamic_plan_def Let_def)
qed

text \<open>C18: the cache of plans of programs sent with a request is never seen in the answer: the plan is the
  one the compiler makes of the program, also when two programs have the same hash; and the cache never
  holds more than 64 plans.\<close>

theorem dynamic_plan_transparent:
  assumes "dynamic_ok io st" "dynamic_plan io now code st = (st', r)"
  shows "r = compile_plan io code \<and> dynamic_ok io st' \<and> length (as_dynamic st') \<le> 64"
proof -
  have "r = compile_plan io code \<and> dynamic_ok io st'"
  proof (cases "\<exists>ts p. map_of (as_dynamic st) (fnv1a code) = Some (ts, code, p)")
    case True
    then obtain ts p where m: "map_of (as_dynamic st) (fnv1a code) = Some (ts, code, p)" by blast
    with assms(1) have "compile_plan io code = Inr p"
      using map_of_SomeD [OF m] by (auto simp: dynamic_ok_def)
    with assms m show ?thesis by (simp add: dynamic_plan_def)
  next
    case False
    then have "dynamic_plan io now code st = compile_and_cache io now code st"
      by (auto simp: dynamic_plan_def split: option.split)
    with assms show ?thesis
      by (cases "compile_plan io code") (auto simp: compile_and_cache_def cache_dynamic_ok)
  qed
  then show ?thesis by (simp add: dynamic_ok_def dynamic_plan_capacity_def)
qed

section \<open>The cache of answers\<close>

lemma run_execution_routes:
  "run_execution io graph p inputs env_over pause skip timeout audit st = (st', r) \<Longrightarrow> as_routes st' = as_routes st"
  using same_tables_fields(2) [OF run_execution_tables [of st io graph p inputs env_over pause skip timeout audit]] by simp

lemma answer_shapes [simp]:
  "json_response n j \<noteq> cache_response m b hit" "error_response n e \<noteq> cache_response m b hit"
  "cache_response n b hit = cache_response m b' hit' \<longleftrightarrow> n = m \<and> b = b' \<and> hit = hit'"
  by (auto simp: json_response_def error_response_def cache_response_def)

lemma run_route_stores:
  assumes "run_route io pio now rc (Some k) False inputs st = (st', cache_response 200 body False)" "0 < rc_cache_ttl rc"
  shows "as_routes st' = as_routes st"
    "map_of (as_resp_cache st') k = Some (now + rc_cache_ttl rc * 1000000, body)"
proof -
  from assms(1) obtain p s j b where run: "run_execution io None p inputs [] None True
      (if 0 < rc_timeout_ms rc then Some (rc_timeout_ms rc) else None) (as_audit st) st = (s, Inr j)"
    and st': "st' = store_answer now (Some k) rc (outcome_status j) b s" and c: "outcome_status j = 200" "b = body"
    by (auto simp: run_route_def Let_def split: option.splits prod.splits sum.splits)
  from run_execution_routes [OF run] st' c assms(2) show "as_routes st' = as_routes st"
    "map_of (as_resp_cache st') k = Some (now + rc_cache_ttl rc * 1000000, body)"
    by (simp_all add: store_answer_def)
qed

text \<open>C19: the cache of answers is addressed by path and inputs, not by the method: the answer of one method is
  served, as a hit, to a request of another method on the same path with the same inputs, although
  the route of that method may belong to another graph and its graph never runs.\<close>

theorem answer_cache_ignores_method:
  assumes "req_method (rq_method rq) = Some m" "map_of (as_routes st) (route_key (request_path rq) m) = Some rc"
    and "0 < rc_cache_ttl rc" "rq_method rq \<noteq> ''HEAD''"
    and "publish io pio now rq st = (st1, cache_response 200 body False)"
    and "request_path rq' = request_path rq" "request_inputs pio rq' = request_inputs pio rq"
    and "req_method (rq_method rq') = Some m'" "map_of (as_routes st) (route_key (request_path rq) m') = Some rc'"
    and "0 < rc_cache_ttl rc'" "now' < now + rc_cache_ttl rc * 1000000"
  shows "publish io' pio now' rq' st1 = (st1, cache_response 200 body True)"
proof -
  have no: "rq_method rq \<noteq> ''OPTIONS''" "rq_method rq' \<noteq> ''OPTIONS''"
    using assms(1,8) by (auto simp: req_method_def)
  from assms(5) obtain inputs where i: "request_inputs pio rq = Inr inputs"
    by (cases "request_inputs pio rq")
      (auto simp: publish_def Let_def no assms(1,2) request_inputs_def split: if_splits sum.splits option.splits)
  obtain k where k: "cache_key pio rc (request_path rq) inputs = Some k" "cache_key pio rc' (request_path rq) inputs = Some k"
    using assms(3,10) by (simp add: cache_key_def)
  from assms(5) have "run_route io pio now rc (Some k) False inputs st = (st1, cache_response 200 body False)"
    by (auto simp: publish_def Let_def no assms(1,2,4) i k split: option.splits)
  note stored = run_route_stores [OF this assms(3)]
  show ?thesis
    by (simp add: publish_def Let_def no assms(6-11) i k stored cached_answer_def)
qed

section \<open>Paused executions come back\<close>

lemma execution_key_Some:
  assumes "execution_key jc i d = Some (g, v, s)"
  obtains x where "load_execution jc' i d = Inr x" "ex_id x = i" "ex_graph x = g" "ex_version x = v" "ex_status x = s"
  using assms find_execution_id
  by (auto simp: execution_key_find load_execution_def row_to_execution_def)

lemma finish_run_paused:
  assumes "finish_run io True x p (Inr (Paused ck)) st = (st1, Inr j)"
  obtains b where "sv_save_checkpoint io ck = Inr b" "load_checkpoint (ex_id x) (as_db st1) = Inr b"
    "execution_key jc (ex_id x) (as_db st1) = Some (ex_graph x, i64_as_u64 (as_i64 (ex_version x)), PausedStatus)"
proof -
  let ?y = "x\<lparr>ex_status := PausedStatus, ex_completed_at := Some (now_micros io 1), ex_context := Some (ck_context ck)\<rparr>"
  from assms obtain d1 d2 b r where s: "save_execution (sv_codec io) ?y (as_db st) = (d1, Inr ())"
    "sv_save_checkpoint io ck = Inr b" "save_checkpoint (ex_id x) b d1 = (d2, r)" "as_db st1 = d2"
    by (auto simp: finish_run_def audited_def and_then_Inr keep_execution_def keep_checkpoint_def map_sum_def
        split: prod.splits sum.splits)
  have id: "ex_id ?y = ex_id x" by simp
  note parked = executions.parked [OF s(1), unfolded id, OF s(3)]
  have "execution_key jc (ex_id x) d2 = execution_key (sv_codec io) (ex_id x) d2" by (simp add: execution_key_find)
  with parked s(2,4) show ?thesis by (intro that) (simp_all add: stored_key_def)
qed



section \<open>A small server\<close>

definition served_plan :: compiled_plan where
  "served_plan = two_step_plan\<lparr>cp_metadata := (cp_metadata two_step_plan)\<lparr>cm_meta_json := ''m''\<rparr>\<rparr>"

definition demo_registry :: registry_io where
  "demo_registry =
     \<lparr>rg_literal = (\<lambda>_. None), rg_root = (\<lambda>_. Inr (plan_to_fb served_plan)), rg_encode = (\<lambda>_. []),
      rg_frontend = fixed_frontend calling, rg_codegen = fixed_io, rg_upper = id, rg_now = ''now''\<rparr>"

definition demo_codec :: codec where
  "demo_codec =
     \<lparr>enc_context = (\<lambda>_. Some []), dec_context = (\<lambda>_. Some context_new), enc_value = (\<lambda>_. Some []),
      dec_value = (\<lambda>_. None), enc_strings = (\<lambda>_. Some []), dec_strings = (\<lambda>_. None),
      enc_config = (\<lambda>_. Some []), dec_config = (\<lambda>_. None)\<rparr>"

definition demo_route_meta :: json where
  "demo_route_meta =
     JObject [(''http_route'', JString ''orders''), (''http_method'', JString ''GET''), (''http_public'', JBool True),
       (''http_timeout_ms'', JNumber (Some 0) None), (''http_cache_ttl'', JNumber (Some 5) None)]"

definition demo_server :: "(blob \<Rightarrow> string + checkpoint) \<Rightarrow> server_io" where
  "demo_server load =
     \<lparr>sv_registry = demo_registry,
      sv_meta = \<lparr>mi_parse = (\<lambda>_. Inr demo_route_meta), mi_as_u64 = (\<lambda>i _. map_option nat i), mi_lower = id, mi_upper = id\<rparr>,
      sv_world = demo_world, sv_tools = [], sv_depth = 0, sv_os = [], sv_codec = demo_codec,
      sv_save_checkpoint = (\<lambda>_. Inr []), sv_load_checkpoint = load, sv_now = (\<lambda>_. 0), sv_uid = show_nat,
      sv_node_durations = (\<lambda>_. []), sv_duration = (\<lambda>_. 0)\<rparr>"

definition demo_db :: db where
  "demo_db = fst (save_plan ''now'' ''g'' 1 [] (fst (create_graph ''g'' ''now'' ''orders'' [] db_empty)))"

definition demo_state :: app_state where
  "demo_state = app_state_new (demo_db, []) None True"

lemma demo_db_eq:
  "demo_db = db_empty\<lparr>
     db_graphs := [(new_graph_row ''g'' ''now'' ''orders'' [])\<lparr>gr_plan := Some []\<rparr>],
     db_versions := [(first_version ''g'' ''now'' [])\<lparr>vr_plan := Some []\<rparr>]\<rparr>"
  by (simp add: demo_db_def create_graph_def then_do_def insert_graph_def insert_version_def find_graph_def
      find_version_def db_empty_def save_plan_def Let_def update_graphs_def new_graph_row_def first_version_def
      as_i64_def wrap_i64_def)

lemma demo_db_wf: "db_wf demo_db"
  by (simp add: demo_db_eq new_graph_row_def first_version_def db_wf_def row_ok_def parents_before_def
      versions_of_def active_ok_def)

lemma demo_served: "from_fb_bytes (rg_root demo_registry) b = Inr served_plan"
proof -
  have "plan_representable served_plan"
    by (simp add: served_plan_def two_step_plan_def demo_plan_def demo_node_def demo_edge_def plan_representable_def
        node_representable_def edge_representable_def)
  then show ?thesis by (simp add: from_fb_bytes_def demo_registry_def plan_fb_iff)
qed

lemma served_order: "topological_order served_plan = Some [0, 1]"
  by (simp add: served_plan_def two_step_plan_def demo_defs order_eval)

lemma served_version: "checked_version served_plan = Inr ()"
  by (simp add: served_plan_def two_step_plan_def demo_defs version_eval)

lemma served_indexed: "plan_indexed served_plan" "plan_sized served_plan"
  using two_step_indexed by (simp_all add: served_plan_def plan_indexed_def plan_sized_def)

lemma demo_loads: "decode_plan (demo_server load) b = Inr served_plan"
  "load_plan ''g'' demo_db = Inr []" "stored_plan (demo_server load) demo_db ''g'' 1 = Inr served_plan"
  using demo_served [of b] demo_served [of "[]"]
  by (simp_all add: decode_plan_def demo_server_def load_plan_def find_graph_def demo_db_eq new_graph_row_def
      stored_plan_def load_plan_version_def find_version_def first_version_def as_i64_def wrap_i64_def)

lemma demo_route:
  "parse_route_config (sv_meta (demo_server load)) ''m'' ''orders'' =
     Inr (Some \<lparr>rc_graph = [], rc_path = ''orders'', rc_method = Get, rc_public = True, rc_timeout_ms = 0,
       rc_cache_ttl = 5\<rparr>)"
proof -
  have "sv_meta (demo_server load) =
      \<lparr>mi_parse = (\<lambda>_. Inr demo_route_meta), mi_as_u64 = (\<lambda>i _. map_option nat i), mi_lower = id, mi_upper = id\<rparr>"
    by (simp add: demo_server_def)
  moreover have "parse_route_config
      \<lparr>mi_parse = (\<lambda>_. Inr demo_route_meta), mi_as_u64 = (\<lambda>i _. map_option nat i), mi_lower = id, mi_upper = id\<rparr>
      ''m'' ''orders'' =
     Inr (Some \<lparr>rc_graph = [], rc_path = ''orders'', rc_method = Get, rc_public = True, rc_timeout_ms = 0,
       rc_cache_ttl = 5\<rparr>)"
    by code_simp
  ultimately show ?thesis by simp
qed

lemma demo_refresh:
  "\<exists>st'. refresh_all (demo_server load) demo_state = (st', Inr (1, 1))"
proof -
  have l: "list_all_graphs demo_db =
      [row_to_graph ((new_graph_row ''g'' ''now'' ''orders'' [])\<lparr>gr_plan := Some []\<rparr>)]"
    by (simp add: list_all_graphs_def order_desc_def demo_db_eq)
  have h: "load_plan_self_heal (demo_server load) (row_to_graph ((new_graph_row ''g'' ''now'' ''orders'' [])\<lparr>gr_plan := Some []\<rparr>))
      demo_state = (demo_state, Inr served_plan)"
    by (simp add: load_plan_self_heal_def row_to_graph_def new_graph_row_def demo_state_def app_state_new_def as_db_def
        demo_loads)
  have m: "cm_meta_json (cp_metadata served_plan) = ''m''" by (simp add: served_plan_def)
  have n: "gd_name (row_to_graph ((new_graph_row ''g'' ''now'' ''orders'' [])\<lparr>gr_plan := Some []\<rparr>)) = ''orders''"
    by (simp add: row_to_graph_def new_graph_row_def)
  have d: "as_db demo_state = demo_db" by (simp add: demo_state_def app_state_new_def as_db_def)
  show ?thesis
    by (simp add: refresh_all_def d l h m n demo_route Let_def upd_def)
qed

text \<open>The demonstration server publishes one route.\<close>

theorem refresh_sound_witness:
  "\<exists>st'. refresh_all (demo_server (\<lambda>_. Inl [])) demo_state = (st', Inr (1, 1)) \<and>
     tables_match (demo_server (\<lambda>_. Inl [])) (list_all_graphs demo_db) (as_plans st') (as_routes st')"
proof -
  obtain st' where r: "refresh_all (demo_server (\<lambda>_. Inl [])) demo_state = (st', Inr (1, 1))" using demo_refresh by blast
  have "db_wf (as_db demo_state)" by (simp add: demo_state_def app_state_new_def as_db_def demo_db_wf)
  from refresh_sound [OF this r] r show ?thesis by (auto simp: demo_state_def app_state_new_def as_db_def)
qed


theorem dynamic_plan_transparent_witness:
  "\<exists>st' r. dynamic_plan (demo_server (\<lambda>_. Inl [])) 0 [] demo_state = (st', r) \<and>
     r = compile_plan (demo_server (\<lambda>_. Inl [])) [] \<and> dynamic_ok (demo_server (\<lambda>_. Inl [])) st'"
proof -
  obtain st' r where d: "dynamic_plan (demo_server (\<lambda>_. Inl [])) 0 [] demo_state = (st', r)"
    by (cases "dynamic_plan (demo_server (\<lambda>_. Inl [])) 0 [] demo_state")
  have "dynamic_ok (demo_server (\<lambda>_. Inl [])) demo_state"
    by (simp add: dynamic_ok_def demo_state_def app_state_new_def)
  from dynamic_plan_transparent [OF this d] d show ?thesis by blast
qed

lemmas demo_server_world = server_world_def registry_world_def demo_server_def

lemma served_run:
  "execute_with served_plan (server_world (demo_server load) s e) context_new (node_limit None) =
     Inr (Completed \<lparr>er_context = context_new\<lparr>variables := [(''x'', VInt 1)]\<rparr>,
       er_execution_order = [''a'', ''b''], er_node_count = 2, er_output = Some (VInt 1)\<rparr>)"
  apply (simp add: execute_with_def plan_order_def served_order served_version node_limit_def cong: bind_res_block)
  apply (simp add: served_plan_def two_step_plan_def demo_server_world demo_defs frame_eval)
  apply (simp add: run_eval cong: run_block del: first_some.simps)
  done

lemma served_pause:
  "\<exists>ck. execute_with served_plan (server_world (demo_server load) s e) context_new (node_limit (Some 1)) = Inr (Paused ck) \<and>
     ck_loop_state ck = None \<and> ck_elapsed_us ck = 0"
  apply (simp add: execute_with_def plan_order_def served_order served_version node_limit_def cong: bind_res_block)
  apply (simp add: served_plan_def two_step_plan_def demo_server_world demo_defs frame_eval)
  apply (simp add: run_eval demo_server_world cong: run_block del: first_some.simps)
  done

section \<open>Two graphs on one path\<close>

definition demo_publish :: publish_io where
  "demo_publish = \<lparr>pb_parse = (\<lambda>_. None), pb_bytes = (\<lambda>_. Inr ''answer'')\<rparr>"

definition shared_route :: "string \<Rightarrow> route_method \<Rightarrow> route_config" where
  "shared_route g m =
     \<lparr>rc_graph = g, rc_path = ''orders'', rc_method = m, rc_public = True, rc_timeout_ms = 0, rc_cache_ttl = 5\<rparr>"

text \<open>The graph of the POST route has no plan at all.\<close>

definition shared_state :: app_state where
  "shared_state = (app_state_new (demo_db, []) None False)\<lparr>
     as_plans := [(''g'', served_plan)],
     as_routes := [(route_key ''orders'' Get, shared_route ''g'' Get), (route_key ''orders'' Post, shared_route ''h'' Post)]\<rparr>"

definition orders_request :: "string \<Rightarrow> request" where
  "orders_request m = \<lparr>rq_method = m, rq_path = ''/orders'', rq_query = None, rq_body = Inr []\<rparr>"

lemma orders_inputs: "request_path (orders_request m) = ''orders''"
  "request_inputs demo_publish (orders_request ''GET'') = Inr (JObject [])"
  "request_inputs demo_publish (orders_request ''POST'') = Inr (JObject [])"
  by (simp_all add: orders_request_def request_path_def request_inputs_def parse_query_def query_pair_def strip_prefix_def
      starts_with_def)

lemma orders_routes:
  "map_of (as_routes shared_state) (route_key ''orders'' Get) = Some (shared_route ''g'' Get)"
  "map_of (as_routes shared_state) (route_key ''orders'' Post) = Some (shared_route ''h'' Post)"
  by (simp_all add: shared_state_def route_key_def)

lemma orders_run:
  "\<exists>j. run_execution (demo_server load) None served_plan (JObject []) [] None True None False shared_state = (shared_state, Inr j) \<and>
     outcome_status j = 200"
  by (simp add: run_execution_def Let_def env_check_def audited_def apply_timeout_def ctx_from_inputs_def served_run
      finish_run_def completed_answer_def outcome_status_def answer_status_def)

lemma orders_get:
  "\<exists>st. publish (demo_server load) demo_publish 0 (orders_request ''GET'') shared_state = (st, cache_response 200 ''answer'' False)"
proof -
  obtain j where j: "run_execution (demo_server load) None served_plan (JObject []) [] None True None False shared_state =
      (shared_state, Inr j)" "outcome_status j = 200" using orders_run by blast
  have r: "run_route (demo_server load) demo_publish 0 (shared_route ''g'' Get) k False (JObject []) shared_state =
      (store_answer 0 k (shared_route ''g'' Get) 200 ''answer'' shared_state, cache_response 200 ''answer'' False)" for k
    using j by (simp add: run_route_def demo_publish_def shared_route_def shared_state_def app_state_new_def Let_def)
  have m: "rq_method (orders_request ''GET'') = ''GET''" by (simp add: orders_request_def)
  have "cached_answer 0 k shared_state = None" for k
    by (simp add: cached_answer_def shared_state_def app_state_new_def split: option.split)
  then show ?thesis by (simp add: publish_def Let_def m req_method_def orders_inputs orders_routes r)
qed

theorem answer_cache_ignores_method_witness:
  "\<exists>st. publish (demo_server (\<lambda>_. Inl [])) demo_publish 0 (orders_request ''GET'') shared_state = (st, cache_response 200 ''answer'' False) \<and>
     publish (demo_server (\<lambda>_. Inl [])) demo_publish 1 (orders_request ''POST'') st = (st, cache_response 200 ''answer'' True)"
proof -
  obtain st where g: "publish (demo_server (\<lambda>_. Inl [])) demo_publish 0 (orders_request ''GET'') shared_state =
      (st, cache_response 200 ''answer'' False)" using orders_get by blast
  have "publish (demo_server (\<lambda>_. Inl [])) demo_publish 1 (orders_request ''POST'') st = (st, cache_response 200 ''answer'' True)"
    by (rule answer_cache_ignores_method [OF _ _ _ _ g, of Get "shared_route ''g'' Get" _ Post "shared_route ''h'' Post"])
      (simp_all add: orders_inputs orders_routes shared_route_def orders_request_def req_method_def request_path_def
        strip_prefix_def starts_with_def, simp_all add: orders_inputs [unfolded orders_request_def])
  with g show ?thesis by blast
qed

section \<open>A run of the server paused and resumed\<close>

definition demo_graph :: graph_definition where
  "demo_graph = row_to_graph (new_graph_row ''g'' ''now'' ''orders'' [])"

lemma demo_save:
  "\<exists>d. save_execution (sv_codec (demo_server load)) x d0 = (d, Inr ()) \<and> db_versions d = db_versions d0"
  by (simp add: save_execution_def demo_server_def demo_codec_def)

lemma demo_keep:
  "\<exists>st'. keep_execution (demo_server load) what x st = (st', Inr ()) \<and> db_versions (as_db st') = db_versions (as_db st)"
  using demo_save [of load x "as_db st"] by (auto simp: keep_execution_def)

lemma demo_keep_checkpoint:
  "\<exists>st'. keep_checkpoint (demo_server load) what i ck st = (st', Inr ()) \<and> db_versions (as_db st') = db_versions (as_db st)"
proof -
  have "sv_save_checkpoint (demo_server load) ck = Inr []" by (simp add: demo_server_def)
  then show ?thesis by (simp add: keep_checkpoint_def save_checkpoint_def)
qed

lemma demo_finish_paused:
  "\<exists>st' j. finish_run (demo_server load) True x p (Inr (Paused ck)) st = (st', Inr j) \<and>
     db_versions (as_db st') = db_versions (as_db st)"
proof -
  let ?y = "x\<lparr>ex_status := PausedStatus, ex_completed_at := Some (now_micros (demo_server load) 1),
      ex_context := Some (ck_context ck)\<rparr>"
  obtain s1 where s1: "keep_execution (demo_server load) ''save execution: '' ?y st = (s1, Inr ())"
    "db_versions (as_db s1) = db_versions (as_db st)" using demo_keep by blast
  obtain s2 where "keep_checkpoint (demo_server load) ''save checkpoint: '' (ex_id x) ck s1 = (s2, Inr ())"
    "db_versions (as_db s2) = db_versions (as_db s1)" using demo_keep_checkpoint by blast
  with s1 show ?thesis by (simp add: finish_run_def audited_def)
qed

lemma demo_same_world:
  assumes "ck_elapsed_us ck = 0"
  shows "resumed_world (server_world (demo_server load') s' (build_env (demo_server load') [])) ck =
    server_world (demo_server load) s (build_env (demo_server load) [])"
  using assms by (simp add: resumed_world_def demo_server_world demo_world_def build_env_def)


section \<open>Progress of the scheduler\<close>

text \<open>An execution the scheduler leaves paused has a new checkpoint of a lower rank, so the rounds in which it
  stays paused are bounded.\<close>

lemma scheduler_still_paused:
  assumes "resume_one io e x policy d = (d', Inr StillPaused)"
  obtains p ck ck' b where "read_plan io d (ex_graph x) (ex_version x) = Inr p"
    "read_checkpoint io d (ex_id x) = Inr ck" "sv_save_checkpoint io ck' = Inr b"
    "node_budget p < u32_max \<Longrightarrow> checkpoint_rank p ck' < checkpoint_rank p ck"
  using assms resume_rank
  by (fastforce simp: resume_one_def finish_segment_def
      split: sum.splits prod.splits execution_outcome.splits)

end
