(* ===== verification/Views.thy ===== *)
theory Views
  imports PlanView Examples
begin

text \<open>
  What every drawing of a plan guarantees (\<open>plan_view.rs\<close>): the loops that draw edges around hidden nodes
  and between folded groups keep one invariant.
\<close>

section \<open>What a view shows\<close>

text \<open>Every edge joins two different nodes of the view, and no pair of nodes is joined twice.\<close>

definition view_ok :: "view_graph \<Rightarrow> bool" where
  "view_ok v \<longleftrightarrow>
     (\<forall>e \<in> set (vg_edges v). ve_from e \<noteq> ve_to e \<and> {ve_from e, ve_to e} \<subseteq> vn_index ` set (vg_nodes v)) \<and>
     distinct (map (\<lambda>e. (ve_from e, ve_to e)) (vg_edges v))"

text \<open>The invariant of both loops that draw edges: the pairs seen are those of the edges.\<close>

definition drawn_ok :: "u32 set \<Rightarrow> drawn \<Rightarrow> bool" where
  "drawn_ok I acc \<longleftrightarrow>
     (\<forall>e \<in> set (snd acc). ve_from e \<noteq> ve_to e \<and> {ve_from e, ve_to e} \<subseteq> I) \<and>
     (\<lambda>e. (ve_from e, ve_to e)) ` set (snd acc) \<subseteq> fst acc \<and>
     distinct (map (\<lambda>e. (ve_from e, ve_to e)) (snd acc))"

lemma drawn_ok_add:
  assumes "drawn_ok I acc" "ve_from e \<noteq> ve_to e" "{ve_from e, ve_to e} \<subseteq> I" "(ve_from e, ve_to e) \<notin> fst acc"
  shows "drawn_ok I (insert (ve_from e, ve_to e) (fst acc), snd acc @ [e])"
  using assms by (auto simp: drawn_ok_def)

lemma drawn_ok_fold: "(\<And>x acc. x \<in> set xs \<Longrightarrow> drawn_ok I acc \<Longrightarrow> drawn_ok I (f x acc)) \<Longrightarrow> drawn_ok I acc \<Longrightarrow> drawn_ok I (fold f xs acc)"
  by (induction xs arbitrary: acc) auto

lemma draw_pair_ok: "drawn_ok I acc \<Longrightarrow> fst ft \<in> I \<Longrightarrow> snd ft \<in> I \<Longrightarrow> drawn_ok I (draw_pair e ft acc)"
  using drawn_ok_add [of I acc "\<lparr>ve_from = fst ft, ve_to = snd ft, ve_label = edge_label e, ve_control = (ce_kind e = EControl)\<rparr>"]
  by (simp add: draw_pair_def)

lemma fold_edge_ok:
  assumes "drawn_ok I acc" "folded_index v (ve_from e) \<in> I" "folded_index v (ve_to e) \<in> I"
  shows "drawn_ok I (fold_edge v e acc)"
  using assms drawn_ok_add [of I acc "e\<lparr>ve_from := folded_index v (ve_from e), ve_to := folded_index v (ve_to e)\<rparr>"]
  by (simp add: fold_edge_def Let_def)

lemma set_fold_new: "set (fold (\<lambda>x acc. if x \<in> set acc then acc else acc @ [x]) xs acc) = set acc \<union> set xs"
  by (induction xs arbitrary: acc) auto

lemma collect_new_within:
  "collect_new rs acc = Some ys \<Longrightarrow> set acc \<subseteq> S \<Longrightarrow> (\<And>xs. Some xs \<in> set rs \<Longrightarrow> set xs \<subseteq> S) \<Longrightarrow> set ys \<subseteq> S"
proof (induction rs acc rule: collect_new.induct)
  case (3 xs rs acc)
  have "set (fold (\<lambda>x acc. if x \<in> set acc then acc else acc @ [x]) xs acc) \<subseteq> S"
    unfolding set_fold_new using "3.prems"(2) "3.prems"(3) [of xs] by simp
  with 3 show ?case by simp
qed simp_all

lemma visible_ends_within:
  assumes "\<And>j. set (nxt j) \<subseteq> I"
  shows "visible_ends k nxt hidden i = Some xs \<Longrightarrow> i \<in> I \<Longrightarrow> set xs \<subseteq> I - hidden"
proof (induction k arbitrary: i xs)
  case (Suc k)
  show ?case
  proof (cases "i \<in> hidden")
    case True
    with Suc.prems(1) have c: "collect_new (map (visible_ends k nxt hidden) (nxt i)) [] = Some xs" by simp
    have "set ys \<subseteq> I - hidden" if "Some ys \<in> set (map (visible_ends k nxt hidden) (nxt i))" for ys
    proof -
      from that obtain j where "j \<in> set (nxt i)" "visible_ends k nxt hidden j = Some ys" by auto
      with Suc.IH assms show ?thesis by blast
    qed
    with collect_new_within [OF c, of "I - hidden"] show ?thesis by simp
  next
    case False
    with Suc.prems show ?thesis by auto
  qed
qed simp

lemma draw_edges_ok:
  assumes I: "\<And>e. e \<in> set (cp_edges p) \<Longrightarrow> ce_from e \<in> I \<and> ce_to e \<in> I"
  shows "draw_edges p es acc = Some out \<Longrightarrow> set es \<subseteq> set (cp_edges p) \<Longrightarrow> drawn_ok (I - hidden_nodes p) acc \<Longrightarrow>
    \<exists>S. drawn_ok (I - hidden_nodes p) (S, out)"
proof (induction es arbitrary: acc)
  case Nil
  then show ?case by (cases acc) auto
next
  case (Cons e es)
  have src: "set (sources_of p j) \<subseteq> I" "set (targets_of p j) \<subseteq> I" for j
    using I by (auto simp: sources_of_def targets_of_def)
  from Cons.prems(1) obtain fs where fs: "visible_roots p (ce_from e) = Some fs"
    by (auto split: option.splits)
  show ?case
  proof (cases fs)
    case Nil
    with Cons fs show ?thesis by auto
  next
    case (Cons f fs')
    with Cons.prems(1) fs obtain ts where ts: "visible_leaves p (ce_to e) = Some ts"
      and d: "draw_edges p es (fold (draw_pair e) (List.product fs ts) acc) = Some out"
      by (auto split: option.splits)
    have "set fs \<subseteq> I - hidden_nodes p" "set ts \<subseteq> I - hidden_nodes p"
      using visible_ends_within [OF src(1)] visible_ends_within [OF src(2)] fs ts I Cons.prems(2)
      by (simp_all add: visible_roots_def visible_leaves_def)
    then have "drawn_ok (I - hidden_nodes p) (fold (draw_pair e) (List.product fs ts) acc)"
      by (intro drawn_ok_fold draw_pair_ok Cons.prems(3)) auto
    with Cons.IH [OF d] Cons.prems(2) show ?thesis by simp
  qed
qed

lemma those_indices:
  "those (map (view_node_of upc) ns) = Some vs \<Longrightarrow>
     map vn_index vs = map cn_index ns \<and> map vn_group vs = map cn_group ns"
  by (induction ns arbitrary: vs) (auto simp: view_node_of_def split: option.splits)

lemma project_ok:
  assumes "\<forall>e \<in> set (cp_edges p). {ce_from e, ce_to e} \<subseteq> cn_index ` set (cp_nodes p)"
    and "project upc p = Some v"
  shows "view_ok v" "vg_groups v = cp_groups p" "\<And>n. n \<in> set (vg_nodes v) \<Longrightarrow> \<exists>m \<in> set (cp_nodes p). vn_group n = cn_group m"
proof -
  let ?I = "cn_index ` set (cp_nodes p)"
  from assms(2) obtain ns es where ns: "those (map (view_node_of upc) (filter (\<lambda>n. cn_index n \<notin> hidden_nodes p) (cp_nodes p))) = Some ns"
    and es: "draw_edges p (cp_edges p) ({}, []) = Some es" and v: "v = \<lparr>vg_nodes = ns, vg_edges = es, vg_groups = cp_groups p\<rparr>"
    by (auto simp: project_def split: option.splits)
  have I: "ce_from e \<in> ?I \<and> ce_to e \<in> ?I" if "e \<in> set (cp_edges p)" for e using assms(1) that by simp
  have "drawn_ok (?I - hidden_nodes p) ({}, [])" by (simp add: drawn_ok_def)
  from draw_edges_ok [OF I es _ this] obtain S where d: "drawn_ok (?I - hidden_nodes p) (S, es)" by blast
  have "set (map vn_index ns) = set (map cn_index (filter (\<lambda>n. cn_index n \<notin> hidden_nodes p) (cp_nodes p)))"
    using those_indices [OF ns] by simp
  then have "vn_index ` set ns = ?I - hidden_nodes p" by auto
  with d show "view_ok v" by (simp add: view_ok_def drawn_ok_def v)
  show "vg_groups v = cp_groups p" by (simp add: v)
  show "\<exists>m \<in> set (cp_nodes p). vn_group n = cn_group m" if "n \<in> set (vg_nodes v)" for n
  proof -
    have "vn_group n \<in> set (map vn_group ns)" using that by (simp add: v)
    then show ?thesis unfolding those_indices [OF ns, THEN conjunct2] by auto
  qed
qed

lemma folded_index_in:
  assumes "i \<in> vn_index ` set (vg_nodes v)" "vg_groups v \<noteq> []"
    and "\<And>n g. n \<in> set (vg_nodes v) \<Longrightarrow> vn_group n = Some g \<Longrightarrow> g < length (vg_groups v)"
  shows "folded_index v i \<in> vn_index ` set (vg_nodes (collapse v))"
proof -
  obtain n where n: "find (\<lambda>n. vn_index n = i) (vg_nodes v) = Some n"
    using assms(1) by (cases "find (\<lambda>n. vn_index n = i) (vg_nodes v)") (auto simp: find_None_iff)
  then have m: "n \<in> set (vg_nodes v)" "vn_index n = i" by (auto simp: find_Some_iff)
  show ?thesis
  proof (cases "vn_group n")
    case None
    with n m have "folded_index v i = i" "n \<in> set (vg_nodes (collapse v))"
      using assms(2) by (auto simp: folded_index_def collapse_def)
    with m show ?thesis by (metis imageI)
  next
    case (Some g)
    have "(g, vg_groups v ! g) \<in> set (enumerate 0 (vg_groups v))"
      using assms(3) [OF m(1) Some] by (auto simp: in_set_enumerate_eq)
    then have "group_node v g (vg_groups v ! g) \<in> set (vg_nodes (collapse v))"
      using assms(2) by (force simp: collapse_def)
    moreover have "vn_index (group_node v g (vg_groups v ! g)) = folded_index v i"
      using n Some by (simp add: folded_index_def group_node_def Let_def)
    ultimately show ?thesis by (metis imageI)
  qed
qed

lemma collapse_ok:
  assumes "view_ok v" "\<And>n g. n \<in> set (vg_nodes v) \<Longrightarrow> vn_group n = Some g \<Longrightarrow> g < length (vg_groups v)"
  shows "view_ok (collapse v)"
proof (cases "vg_groups v = []")
  case False
  let ?I = "vn_index ` set (vg_nodes (collapse v))"
  have "drawn_ok ?I (fold (fold_edge v) (vg_edges v) ({}, []))"
  proof (rule drawn_ok_fold)
    fix e acc assume e: "e \<in> set (vg_edges v)" "drawn_ok ?I acc"
    have "{ve_from e, ve_to e} \<subseteq> vn_index ` set (vg_nodes v)" using assms(1) e(1) by (simp add: view_ok_def)
    with folded_index_in [OF _ False assms(2)] show "drawn_ok ?I (fold_edge v e acc)"
      by (intro fold_edge_ok e(2)) simp_all
  qed (simp add: drawn_ok_def)
  then show ?thesis using False by (simp add: view_ok_def drawn_ok_def collapse_def)
qed (use assms in \<open>simp add: collapse_def\<close>)

text \<open>C22: whatever view of a plan is drawn, every drawn edge joins two different drawn nodes and no pair of
  nodes is joined twice, although hidden nodes and folded groups take the ends of edges away; the plan's
  edges have to join its nodes and its nodes have to name its groups.\<close>

theorem view_edges_drawn:
  assumes "\<forall>e \<in> set (cp_edges p). {ce_from e, ce_to e} \<subseteq> cn_index ` set (cp_nodes p)"
    and "\<forall>n \<in> set (cp_nodes p). \<forall>g. cn_group n = Some g \<longrightarrow> g < length (cp_groups p)"
    and "build_view upc p level = Some v"
  shows "view_ok v"
proof -
  from assms(3) obtain w where w: "project upc p = Some w" "v = (if level = Summary then collapse w else w)"
    by (auto simp: build_view_def)
  note ok = project_ok [OF assms(1) w(1)]
  have "g < length (vg_groups w)" if "n \<in> set (vg_nodes w)" "vn_group n = Some g" for n g
    using ok(3) [OF that(1)] that(2) assms(2) ok(2) by force
  from collapse_ok [OF ok(1) this] ok(1) w(2) show ?thesis by simp
qed

text \<open>A constant feeds a call of a group through a hidden node.\<close>

definition folded_plan :: compiled_plan where
  "folded_plan = (demo_plan 5
     [demo_node 0 ''i'' Input [(''name'', ''n'')] None,
      demo_node 1 ''k'' Calc [(''expr'', ''7'')] None,
      (demo_node 2 ''c'' Call [(''target'', ''echo'')] None)\<lparr>cn_group := Some 0\<rparr>]
     [demo_edge 0 1 EData None, demo_edge 1 2 EData None, demo_edge 0 2 EControl None])\<lparr>cp_groups := [''load'']\<rparr>"

lemma folded_hidden: "hidden_nodes folded_plan = {1}"
proof -
  have t: "view_trim_quotes ''7'' = ''7''" "trim ''7'' = ''7''" "parse_i64 ''7'' = Some 7" by code_simp+
  have "{n \<in> set (cp_nodes folded_plan). is_hidden n} = {demo_node 1 ''k'' Calc [(''expr'', ''7'')] None}"
    by (auto simp: folded_plan_def demo_plan_def demo_node_def is_hidden_def is_simple_value_def t)
  then show ?thesis by (simp add: hidden_nodes_def demo_node_def)
qed

lemmas folded_defs = folded_plan_def demo_plan_def demo_node_def demo_edge_def

lemma folded_nodes:
  "\<exists>a b. those (map (view_node_of id) (filter (\<lambda>n. cn_index n \<notin> {1}) (cp_nodes folded_plan))) =
     Some [\<lparr>vn_index = 0, vn_label = a, vn_shape = DefaultShape, vn_group = None\<rparr>,
       \<lparr>vn_index = 2, vn_label = b, vn_shape = Rounded, vn_group = Some 0\<rparr>]"
  by (simp add: folded_defs view_node_of_def node_label_def node_shape_def)

lemma folded_edges:
  "draw_edges folded_plan (cp_edges folded_plan) ({}, []) =
     Some [\<lparr>ve_from = 0, ve_to = 2, ve_label = None, ve_control = False\<rparr>]"
proof -
  have "view_fuel folded_plan = Suc (Suc (Suc (Suc 0)))" by (simp add: view_fuel_def folded_defs)
  moreover have "cp_edges folded_plan = [demo_edge 0 1 EData None, demo_edge 1 2 EData None, demo_edge 0 2 EControl None]"
    by (simp add: folded_plan_def demo_plan_def)
  ultimately show ?thesis
    by (simp add: visible_roots_def visible_leaves_def folded_hidden sources_of_def targets_of_def demo_edge_def
        draw_pair_def edge_label_def)
qed

lemma folded_view:
  "\<exists>v. build_view id folded_plan Summary = Some v \<and> map (\<lambda>e. (ve_from e, ve_to e)) (vg_edges v) = [(0, 4294967295)]"
proof -
  obtain a b where ns: "those (map (view_node_of id) (filter (\<lambda>n. cn_index n \<notin> {1}) (cp_nodes folded_plan))) =
     Some [\<lparr>vn_index = 0, vn_label = a, vn_shape = DefaultShape, vn_group = None\<rparr>,
       \<lparr>vn_index = 2, vn_label = b, vn_shape = Rounded, vn_group = Some 0\<rparr>]" using folded_nodes by blast
  have g: "cp_groups folded_plan = [''load'']" by (simp add: folded_plan_def)
  let ?w = "\<lparr>vg_nodes = [\<lparr>vn_index = 0, vn_label = a, vn_shape = DefaultShape, vn_group = None\<rparr>,
       \<lparr>vn_index = 2, vn_label = b, vn_shape = Rounded, vn_group = Some 0\<rparr>],
       vg_edges = [\<lparr>ve_from = 0, ve_to = 2, ve_label = None, ve_control = False\<rparr>], vg_groups = [''load'']\<rparr>"
  have "project id folded_plan = Some ?w" unfolding project_def folded_hidden ns folded_edges g by simp
  moreover have "map (\<lambda>e. (ve_from e, ve_to e)) (vg_edges (collapse ?w)) = [(0, 4294967295)]"
    by (simp add: collapse_def fold_edge_def folded_index_def u32_max_def u32_modulus_def)
  ultimately show ?thesis by (simp add: build_view_def)
qed

theorem view_edges_drawn_witness:
  "\<exists>v. build_view id folded_plan Summary = Some v \<and> view_ok v \<and>
     map (\<lambda>e. (ve_from e, ve_to e)) (vg_edges v) = [(0, 4294967295)]"
proof -
  obtain v where v: "build_view id folded_plan Summary = Some v"
    "map (\<lambda>e. (ve_from e, ve_to e)) (vg_edges v) = [(0, 4294967295)]" using folded_view by (elim exE conjE)
  have c: "\<forall>e \<in> set (cp_edges folded_plan). {ce_from e, ce_to e} \<subseteq> cn_index ` set (cp_nodes folded_plan)"
    by (simp add: folded_defs)
  have g: "\<forall>n \<in> set (cp_nodes folded_plan). \<forall>g. cn_group n = Some g \<longrightarrow> g < length (cp_groups folded_plan)"
    by (simp add: folded_defs)
  show ?thesis by (intro exI [of _ v] conjI v view_edges_drawn [OF c g v(1)])
qed

end
