(* ===== verification/Tools.thy ===== *)
theory Tools
  imports Registry Examples
begin

text \<open>
  The built-in tools (\<open>tinypipe-tools/src/tools\<close>).  A tool gets positional and named arguments and
  the environment.  The parameters of \<open>tools_io\<close> are the JSON parser of \<open>serde_json\<close>, the schemas of
  the tools (data no operation looks into), \<open>str::to_uppercase\<close> outside ASCII and the tools that
  reach outside the program (\<open>http_request\<close>, \<open>postgres\<close>, \<open>sqlite.query\<close>).  An index out of range
  panics: the call does not return, which the model shows as the error \<open>panicked\<close>.
\<close>

section \<open>Arguments\<close>

definition named_or_first :: "string \<Rightarrow> tp_value list \<Rightarrow> tp_value smap \<Rightarrow> tp_value option" where
  "named_or_first k args kw =
     (case map_of kw k of Some v \<Rightarrow> Some v | None \<Rightarrow> (case args of a # _ \<Rightarrow> Some a | [] \<Rightarrow> None))"

definition need :: "string \<Rightarrow> 'a option \<Rightarrow> string + 'a" where
  "need m v = (case v of Some x \<Rightarrow> Inr x | None \<Rightarrow> Inl m)"

definition panicked :: "string + 'a" where
  "panicked = Inl ''panicked: index out of bounds''"

definition first_arg :: "tp_value list \<Rightarrow> string + tp_value" where
  "first_arg args = (case args of a # _ \<Rightarrow> Inr a | [] \<Rightarrow> panicked)"

section \<open>Numbers and strings\<close>

definition two_numbers :: "string \<Rightarrow> tp_value list \<Rightarrow> string + f64 \<times> f64" where
  "two_numbers name args =
     (if length args < 2 then Inl (name @ '' requires 2 args'')
      else bind_res (need ''arg0 not a number'' (as_f64 (args ! 0))) (\<lambda>a.
           bind_res (need ''arg1 not a number'' (as_f64 (args ! 1))) (\<lambda>b. Inr (a, b))))"

definition math_add :: tool_fn where
  "math_add args kw e = bind_res (two_numbers ''math.add'' args) (\<lambda>(a, b). Inr (VFloat (f64_add a b)))"

definition math_mul :: tool_fn where
  "math_mul args kw e = bind_res (two_numbers ''math.mul'' args) (\<lambda>(a, b). Inr (VFloat (f64_mul a b)))"

definition string_len :: tool_fn where
  "string_len args kw e =
     bind_res (first_arg args) (\<lambda>a.
     bind_res (need ''arg0 not a string'' (as_str a)) (\<lambda>s. Inr (VInt (int (length s)))))"

definition echo :: tool_fn where
  "echo args kw e = need ''echo requires 1 arg'' (case args of a # _ \<Rightarrow> Some a | [] \<Rightarrow> None)"

definition test_sleep :: tool_fn where
  "test_sleep args kw e =
     bind_res (first_arg args) (\<lambda>a. bind_res (need ''arg0 not a u64'' (as_u64 a)) (\<lambda>ms. Inr VNull))"

definition test_error :: tool_fn where
  "test_error args kw e = Inl ''simulated tool error''"

definition test_large :: tool_fn where
  "test_large args kw e =
     bind_res (first_arg args) (\<lambda>a.
     bind_res (need ''arg0 not a u64'' (as_u64 a)) (\<lambda>n. Inr (VString (replicate n CHR ''x''))))"

section \<open>Environment\<close>

definition tool_env_get :: "(string \<Rightarrow> string) \<Rightarrow> tool_fn" where
  "tool_env_get uni args kw e =
     bind_res (need (''env.get requires '' @ quoted ''key'' @ '' (kwarg or positional)'')
         (Option.bind (named_or_first ''key'' args kw) as_str)) (\<lambda>key.
       case env_get uni e key of
         Some v \<Rightarrow> Inr (VString v)
       | None \<Rightarrow> need (''env var '' @ quoted key @ '' not found'') (map_of kw ''default''))"

definition tool_env_list :: "(string \<Rightarrow> string) \<Rightarrow> tool_fn" where
  "tool_env_list uni args kw e = Inr (VObject (map (\<lambda>(k, v). (k, VString v)) (env_list uni e)))"

definition show_env_error :: "env_error \<Rightarrow> string" where
  "show_env_error err =
     (case err of
        MissingRequired k \<Rightarrow> ''required environment variable not found: '' @ k
      | TemplateError m \<Rightarrow> ''template resolution failed: '' @ m)"

definition tool_env_template :: "(string \<Rightarrow> string) \<Rightarrow> tool_fn" where
  "tool_env_template uni args kw e =
     bind_res (need (''env.template requires '' @ quoted ''value'')
         (Option.bind (named_or_first ''value'' args kw) as_str))
       (\<lambda>s. map_sum show_env_error VString (resolve_template uni e s))"

section \<open>JSON, lists and objects\<close>

fun json_to_value :: "json \<Rightarrow> tp_value" where
  "json_to_value JNull = VNull"
| "json_to_value (JBool b) = VBool b"
| "json_to_value (JNumber i f) =
     (case i of Some n \<Rightarrow> VInt n | None \<Rightarrow> VFloat (case f of Some x \<Rightarrow> x | None \<Rightarrow> f64_zero))"
| "json_to_value (JString s) = VString s"
| "json_to_value (JArray js) = VArray (map json_to_value js)"
| "json_to_value (JObject kvs) = VObject (map (\<lambda>(k, j). (k, json_to_value j)) kvs)"

definition json_parse :: "(string \<Rightarrow> string + json) \<Rightarrow> tool_fn" where
  "json_parse parse args kw e =
     bind_res
       (need (''json.parse: missing '' @ quoted ''json'' @ '' (string)'')
         (case Option.bind (map_of kw ''json'') as_str of
            Some s \<Rightarrow> Some s
          | None \<Rightarrow> (case args of a # _ \<Rightarrow> as_str a | [] \<Rightarrow> None)))
       (\<lambda>s. map_sum (\<lambda>m. ''json.parse: invalid JSON: '' @ m) json_to_value (parse s))"

definition array_arg :: "string \<Rightarrow> tp_value list \<Rightarrow> tp_value smap \<Rightarrow> string + tp_value list" where
  "array_arg name args kw =
     need (name @ '': missing '' @ quoted ''array'' @ '' (array)'')
       (Option.bind (named_or_first ''array'' args kw) as_array)"

definition array_len :: tool_fn where
  "array_len args kw e = bind_res (array_arg ''array.len'' args kw) (\<lambda>xs. Inr (VInt (int (length xs))))"

definition list_get :: tool_fn where
  "list_get args kw e =
     bind_res (array_arg ''list.get'' args kw) (\<lambda>xs.
     bind_res (need (''list.get: missing '' @ quoted ''index'' @ '' (int)'') (Option.bind (map_of kw ''index'') as_u64)) (\<lambda>i.
       need (''list.get: index '' @ show_nat i @ '' out of bounds (len '' @ show_nat (length xs) @ '')'') (list_at xs i)))"

definition field_of :: "string \<Rightarrow> tp_value \<Rightarrow> tp_value option" where
  "field_of k v = (case v of VObject m \<Rightarrow> map_of m k | _ \<Rightarrow> None)"

definition key_and_value :: "string \<Rightarrow> tp_value smap \<Rightarrow> string + string \<times> tp_value" where
  "key_and_value name kw =
     bind_res (need (name @ '': missing '' @ quoted ''key'' @ '' (string)'') (Option.bind (map_of kw ''key'') as_str)) (\<lambda>k.
     bind_res (need (name @ '': missing '' @ quoted ''value'') (map_of kw ''value'')) (\<lambda>v. Inr (k, v)))"

text \<open>\<open>eq_value\<close> of \<open>array_find.rs\<close>.\<close>

definition f64_near :: "f64 \<Rightarrow> f64 \<Rightarrow> bool" where
  "f64_near x y = f64_less (f64_abs (f64_sub x y)) f64_epsilon"

fun eq_value :: "tp_value \<Rightarrow> tp_value \<Rightarrow> bool" where
  "eq_value VNull VNull = True"
| "eq_value (VBool x) (VBool y) = (x = y)"
| "eq_value (VInt x) (VInt y) = (x = y)"
| "eq_value (VFloat x) (VFloat y) = f64_near x y"
| "eq_value (VInt x) (VFloat y) = f64_near (f64_of_int x) y"
| "eq_value (VFloat x) (VInt y) = f64_near x (f64_of_int y)"
| "eq_value (VString x) (VString y) = (x = y)"
| "eq_value _ _ = False"

text \<open>The derived \<open>PartialEq\<close> of values: equal constructors, floats by \<open>==\<close>, objects as maps.\<close>

primrec partial_eq :: "tp_value \<Rightarrow> tp_value \<Rightarrow> bool" where
  "partial_eq VNull w = (w = VNull)"
| "partial_eq (VBool b) w = (w = VBool b)"
| "partial_eq (VInt i) w = (w = VInt i)"
| "partial_eq (VFloat f) w = (case w of VFloat g \<Rightarrow> f64_eq f g | _ \<Rightarrow> False)"
| "partial_eq (VString s) w = (w = VString s)"
| "partial_eq (VArray xs) w =
     (case w of VArray ys \<Rightarrow> list_all2 (\<lambda>f y. f y) (map partial_eq xs) ys | _ \<Rightarrow> False)"
| "partial_eq (VObject kvs) w =
     (case w of
        VObject ls \<Rightarrow> length kvs = length ls \<and>
          list_all (\<lambda>(k, f). case map_of ls k of Some v \<Rightarrow> f v | None \<Rightarrow> False) (map (map_prod id partial_eq) kvs)
      | _ \<Rightarrow> False)"

definition count_where :: tool_fn where
  "count_where args kw e =
     bind_res (array_arg ''array.count_where'' args kw) (\<lambda>xs.
     bind_res (key_and_value ''array.count_where'' kw) (\<lambda>(k, want).
       Inr (VInt (int (length (filter (\<lambda>x. case field_of k x of Some v \<Rightarrow> partial_eq v want | None \<Rightarrow> False) xs))))))"

definition array_find :: tool_fn where
  "array_find args kw e =
     bind_res (array_arg ''array.find'' args kw) (\<lambda>xs.
     bind_res (key_and_value ''array.find'' kw) (\<lambda>(k, want).
       Inr (case find (\<lambda>x. case field_of k x of Some v \<Rightarrow> eq_value v want | None \<Rightarrow> False) xs of
              Some x \<Rightarrow> x | None \<Rightarrow> VNull)))"

definition key_text :: "tp_value \<Rightarrow> string + string" where
  "key_text v =
     (case v of
        VString s \<Rightarrow> Inr s
      | VInt i \<Rightarrow> Inr (show_int i)
      | VFloat f \<Rightarrow> Inr (f64_show f)
      | _ \<Rightarrow> Inl (''dict.get: '' @ quoted ''key'' @ '' must be a string or integer''))"

definition dict_get :: tool_fn where
  "dict_get args kw e =
     bind_res (need (''dict.get: missing '' @ quoted ''obj'' @ '' (object)'')
         (case named_or_first ''obj'' args kw of Some (VObject m) \<Rightarrow> Some m | _ \<Rightarrow> None)) (\<lambda>m.
     bind_res (need (''dict.get: missing '' @ quoted ''key'' @ '' (string|int)'')
         (case map_of kw ''key'' of Some v \<Rightarrow> Some v | None \<Rightarrow> list_at args 1)) (\<lambda>key.
     bind_res (key_text key) (\<lambda>k.
       Inr (case map_of m k of
              Some v \<Rightarrow> v
            | None \<Rightarrow> (case map_of kw ''default'' of Some d \<Rightarrow> d | None \<Rightarrow> VNull)))))"

section \<open>The tables\<close>

record tools_io =
  tl_parse :: "string \<Rightarrow> string + json"
  tl_upper :: "string \<Rightarrow> string"
  tl_schemas :: "string \<Rightarrow> json \<times> json"
  tl_http_request :: tool_fn
  tl_postgres :: tool_fn
  tl_sqlite :: tool_fn

definition with_schema :: "tools_io \<Rightarrow> string \<Rightarrow> bool \<Rightarrow> tool_fn \<Rightarrow> tools \<Rightarrow> tools" where
  "with_schema io name pure f = add_with_schema name (fst (tl_schemas io name)) (snd (tl_schemas io name)) pure f"

definition mock_tools :: "tools_io \<Rightarrow> tools" where
  "mock_tools io =
     fold (\<lambda>(name, f). add_tool name f)
       [(''math.add'', math_add), (''math.mul'', math_mul), (''string.len'', string_len), (''echo'', echo),
        (''env.get'', tool_env_get (tl_upper io)), (''env.list'', tool_env_list (tl_upper io)),
        (''env.template'', tool_env_template (tl_upper io)), (''test.sleep'', test_sleep),
        (''test.error'', test_error), (''test.large'', test_large)] []"

definition default_tools :: "tools_io \<Rightarrow> tools" where
  "default_tools io =
     fold (\<lambda>(name, pure, f). with_schema io name pure f)
       [(''http_request'', False, tl_http_request io), (''postgres'', False, tl_postgres io),
        (''sqlite.query'', False, tl_sqlite io), (''json.parse'', True, json_parse (tl_parse io)),
        (''array.len'', True, array_len), (''list.get'', True, list_get), (''array.count_where'', True, count_where),
        (''array.find'', False, array_find), (''dict.get'', False, dict_get)] (mock_tools io)"

section \<open>Calls from plans\<close>

text \<open>A CALL node passes named arguments only, so a tool that reads its positional arguments gets none.\<close>

definition positional_tools :: "string list" where
  "positional_tools = [''math.add'', ''math.mul'', ''string.len'', ''echo'', ''test.sleep'', ''test.large'']"

lemma map_of_add_tool: "map_of (add_tool name f ts) k = (if k = name then Some \<lparr>mt_name = name, mt_description = [],
    mt_input = JNull, mt_output = JNull, mt_pure = False, mt_exec = f\<rparr> else map_of ts k)"
  by (simp add: add_tool_def)

lemma map_of_with_schema_other: "k \<noteq> name \<Longrightarrow> map_of (with_schema io name pure f ts) k = map_of ts k"
  by (simp add: with_schema_def add_with_schema_def)

lemma positional_fails:
  assumes "name \<in> set positional_tools"
  shows "\<exists>m. mock_dispatch (default_tools io) \<lparr>ct_name = name, ct_args = [], ct_kwargs = kw\<rparr> e = Inl (ExecutionFailed m)"
  using assms
  by (auto simp: positional_tools_def mock_dispatch_def default_tools_def mock_tools_def map_of_with_schema_other
      map_of_add_tool math_add_def math_mul_def two_numbers_def string_len_def echo_def test_sleep_def test_large_def
      first_arg_def panicked_def need_def)


text \<open>\<open>math.add(a = 1, b = 2)\<close>\<close>

definition sum_node :: compiled_node where
  "sum_node = demo_node 0 ''c'' Call [(''target'', ''math.add''), (''a'', ''1''), (''b'', ''2'')] None"

definition silent_tools :: tools_io where
  "silent_tools =
     \<lparr>tl_parse = (\<lambda>_. Inl []), tl_upper = id, tl_schemas = (\<lambda>_. (JNull, JNull)),
      tl_http_request = (\<lambda>_ _ _. Inl []), tl_postgres = (\<lambda>_ _ _. Inl []), tl_sqlite = (\<lambda>_ _ _. Inl [])\<rparr>"


end
