(* ===== verification/Repair.thy ===== *)
theory Repair
  imports Codegen Env
begin

text \<open>
  Error reports for the repair loop (\<open>tinypipe-compiler/src/auto_repair.rs\<close>): reports from errors of
  each phase, the whole check of a program, the position read out of a parser message, and the text
  of a report.  Texts are UTF-8 bytes.
\<close>

section \<open>Reports\<close>

record repair_report =
  rr_error_type :: string
  rr_line :: nat
  rr_column :: nat
  rr_message :: string
  rr_source_line :: "string option"
  rr_context :: "string list"
  rr_attempt :: nat
  rr_max_attempts :: nat

definition repair_new :: "string \<Rightarrow> nat \<Rightarrow> nat \<Rightarrow> string \<Rightarrow> repair_report" where
  "repair_new t line col m =
     \<lparr>rr_error_type = t, rr_line = line, rr_column = col, rr_message = m, rr_source_line = None,
      rr_context = [], rr_attempt = 0, rr_max_attempts = 3\<rparr>"

text \<open>\<open>lines().nth(line.saturating_sub(1))\<close>\<close>

definition extract_line :: "string \<Rightarrow> nat \<Rightarrow> string option" where
  "extract_line code line = list_at (str_lines code) (line - 1)"

definition with_source_line :: "string \<Rightarrow> repair_report \<Rightarrow> repair_report" where
  "with_source_line code r = r\<lparr>rr_source_line := extract_line code (rr_line r)\<rparr>"

definition with_context :: "string list \<Rightarrow> repair_report \<Rightarrow> repair_report" where
  "with_context hints r = r\<lparr>rr_context := hints\<rparr>"

definition with_attempt :: "nat \<Rightarrow> repair_report \<Rightarrow> repair_report" where
  "with_attempt n r = r\<lparr>rr_attempt := n\<rparr>"

definition with_max_attempts :: "nat \<Rightarrow> repair_report \<Rightarrow> repair_report" where
  "with_max_attempts n r = r\<lparr>rr_max_attempts := n\<rparr>"

definition from_sanitize_error :: "nat \<Rightarrow> nat \<Rightarrow> string \<Rightarrow> string \<Rightarrow> repair_report" where
  "from_sanitize_error line col m code = with_source_line code (repair_new ''SANITIZER HATASI'' line col m)"

text \<open>The part of an identifier after its last underscore.\<close>

definition last_part :: "string \<Rightarrow> string" where
  "last_part s = rev (takeWhile (\<lambda>c. c \<noteq> CHR ''_'') (rev s))"

definition usize_from_node_id :: "string \<Rightarrow> nat" where
  "usize_from_node_id i =
     (case parse_usize (last_part i) of
        Some n \<Rightarrow> n
      | None \<Rightarrow> (case parse_usize i of Some n \<Rightarrow> n | None \<Rightarrow> 1))"

definition validation_hint :: "execution_plan \<Rightarrow> validation_error \<Rightarrow> string" where
  "validation_hint p e =
     ''- '' @ ve_node e @ '': '' @ ve_message e @ '' '' @
     (case plan_get_node p (ve_node e) of Some n \<Rightarrow> describe_node n | None \<Rightarrow> [])"

definition from_validation_errors :: "validation_error list \<Rightarrow> execution_plan \<Rightarrow> string \<Rightarrow> repair_report" where
  "from_validation_errors es p code =
     with_context (map (validation_hint p) es)
       (with_source_line code
         (repair_new ''VALIDASYON HATASI''
           (case es of e # _ \<Rightarrow> usize_from_node_id (ve_node e) | [] \<Rightarrow> 1) 1
           (show_nat (length es) @ '' do'' @ [CHR 0xC4, CHR 0x9F] @ ''rulama hatas'' @ [CHR 0xC4, CHR 0xB1] @ '' bulundu'')))"

definition from_transform_error :: "source_error \<Rightarrow> string \<Rightarrow> repair_report" where
  "from_transform_error e code =
     with_source_line code (repair_new ''TRANSFORM HATASI'' (err_line e) (err_column e) (err_message e))"

definition from_codegen_error :: "string \<Rightarrow> string \<Rightarrow> repair_report" where
  "from_codegen_error m code = with_source_line code (repair_new ''CODEGEN HATASI'' 1 1 m)"

section \<open>Positions in parser messages\<close>

text \<open>The prefix before the first of the stop characters; \<open>None\<close> when there is none.\<close>

definition until_any :: "string \<Rightarrow> string \<Rightarrow> string option" where
  "until_any stops s =
     (let p = takeWhile (\<lambda>c. c \<notin> set stops) s in if length p < length s then Some p else None)"

definition column_after :: "string \<Rightarrow> nat option" where
  "column_after s =
     (case find_str ''column '' s of
        None \<Rightarrow> None
      | Some c \<Rightarrow> parse_usize (trim (takeWhile (\<lambda>c. c \<notin> set '',): '') (drop (c + 7) s))))"

definition line_pattern :: "string \<Rightarrow> (nat \<times> nat) option" where
  "line_pattern s =
     (case find_str ''line '' s of
        None \<Rightarrow> None
      | Some pos \<Rightarrow>
          (let rest = drop (pos + 5) s in
           case Option.bind (until_any '',)'' rest) (\<lambda>t. parse_usize (trim t)) of
             None \<Rightarrow> None
           | Some line \<Rightarrow> Some (line, case column_after rest of Some col \<Rightarrow> col | None \<Rightarrow> 1)))"

definition colon_pattern :: "string \<Rightarrow> (nat \<times> nat) option" where
  "colon_pattern s =
     (case until_any '':'' s of
        None \<Rightarrow> None
      | Some t \<Rightarrow>
          (case parse_usize (trim t) of
             None \<Rightarrow> None
           | Some line \<Rightarrow>
               Some (line,
                 case Option.bind (until_any '':'' (drop (length t + 1) s)) (\<lambda>u. parse_usize (trim u)) of
                   Some col \<Rightarrow> col | None \<Rightarrow> 1)))"

definition extract_line_col_from_error :: "string \<Rightarrow> nat \<times> nat" where
  "extract_line_col_from_error s =
     (case line_pattern s of
        Some lc \<Rightarrow> lc
      | None \<Rightarrow> (case colon_pattern s of Some lc \<Rightarrow> lc | None \<Rightarrow> (1, 1)))"

definition from_parse_error :: "string \<Rightarrow> string \<Rightarrow> repair_report" where
  "from_parse_error m code =
     (case extract_line_col_from_error m of
        (line, col) \<Rightarrow> with_source_line code (repair_new ''PARSE HATASI'' line col m))"

section \<open>The check of a program\<close>

definition unknown_report :: "nat \<Rightarrow> nat \<Rightarrow> repair_report" where
  "unknown_report attempt max_attempts =
     with_max_attempts max_attempts (with_attempt attempt
       (repair_new (''B'' @ [CHR 0xC4, CHR 0xB0] @ ''L'' @ [CHR 0xC4, CHR 0xB0] @ ''NMEYEN HATA'') 1 1
         (''Compiler hatas'' @ [CHR 0xC4, CHR 0xB1] @ '' (detay yok)'')))"

definition check_code :: "frontend \<Rightarrow> string \<Rightarrow> nat \<Rightarrow> nat \<Rightarrow> repair_report option" where
  "check_code fe code attempt max_attempts =
     (let numbered = (\<lambda>r. with_max_attempts max_attempts (with_attempt attempt r)) in
      case transform fe code of
        Inr p \<Rightarrow>
          (case validate p of
             Inr _ \<Rightarrow> None
           | Inl es \<Rightarrow> Some (numbered (from_validation_errors es p code)))
      | Inl (e # _) \<Rightarrow> Some (numbered (from_transform_error e code))
      | Inl [] \<Rightarrow> Some (unknown_report attempt max_attempts))"

section \<open>The text of a report\<close>

definition report_line :: "string \<Rightarrow> string" where
  "report_line s = s @ [newline]"

definition heavy_bar :: "nat \<Rightarrow> string" where
  "heavy_bar n = concat (replicate n [CHR 0xE2, CHR 0x94, CHR 0x81])"

definition show_report :: "repair_report \<Rightarrow> string" where
  "show_report r =
     report_line (heavy_bar 3 @ '' Compiler Feedback '' @ heavy_bar 37) @
     (if 0 < rr_attempt r
      then report_line (''  Deneme '' @ show_nat (rr_attempt r) @ ''/'' @ show_nat (rr_max_attempts r)) else []) @
     report_line (''  '' @ rr_error_type r @ '' ('' @ show_nat (rr_line r) @ '':'' @ show_nat (rr_column r) @ ''): '' @ rr_message r) @
     (case rr_source_line r of
        Some l \<Rightarrow> report_line [] @ report_line (''  Sat'' @ [CHR 0xC4, CHR 0xB1] @ ''r '' @ show_nat (rr_line r) @ '': '' @ l)
      | None \<Rightarrow> []) @
     (if rr_context r = [] then []
      else report_line [] @ concat (map (\<lambda>h. report_line (''  '' @ [CHR 0xE2, CHR 0x86, CHR 0x92] @ '' '' @ h)) (rr_context r))) @
     (if rr_attempt r < rr_max_attempts r
      then report_line [] @ report_line (''  L'' @ [CHR 0xC3, CHR 0xBC] @ ''tfen kodu d'' @ [CHR 0xC3, CHR 0xBC] @ ''zeltip tekrar g'' @ [CHR 0xC3, CHR 0xB6] @ ''nderin.'')
      else report_line [] @ report_line (''  Maksimum deneme say'' @ [CHR 0xC4, CHR 0xB1] @ ''s'' @ [CHR 0xC4, CHR 0xB1] @ ''na ula'' @ [CHR 0xC5, CHR 0x9F] @ [CHR 0xC4, CHR 0xB1] @ ''ld'' @ [CHR 0xC4, CHR 0xB1] @ '' ('' @ show_nat (rr_max_attempts r) @ '') '' @ [CHR 0xE2, CHR 0x80, CHR 0x94] @ '' sonraki a'' @ [CHR 0xC5, CHR 0x9F] @ ''amaya ge'' @ [CHR 0xC3, CHR 0xA7] @ ''iliyor.'')) @
     report_line (heavy_bar 59)"

section \<open>What the check decides\<close>

text \<open>The repair loop ends with no report exactly for the programs that translate to a valid plan;
  these are the programs whose compilation reaches the back end, so a program that compiles has no
  report.\<close>

theorem check_code_decides:
  "(check_code fe code a m = None \<longleftrightarrow> (\<exists>p. transform fe code = Inr p \<and> validate p = Inr ())) \<and>
   (is_ok (compile fe io enc bytes code) \<longrightarrow> check_code fe code a m = None) \<and>
   (\<forall>r. check_code fe code a m = Some r \<longrightarrow> rr_attempt r = a \<and> rr_max_attempts r = m)"
  by (auto simp: check_code_def compile_def Let_def is_ok_def with_attempt_def with_max_attempts_def unknown_report_def
      split: sum.splits list.splits)

text \<open>The line of a report on an invalid plan is a number taken from the identifier of the node.\<close>

lemma validation_report_line:
  "rr_line (from_validation_errors (e # es) p code) = usize_from_node_id (ve_node e)"
  by (simp add: from_validation_errors_def with_context_def with_source_line_def repair_new_def)

lemma node_number_as_line: "usize_from_node_id ''n_54'' = 54" "usize_from_node_id ''n54'' = 1"
  by (simp_all add: usize_from_node_id_def last_part_def string_eval)

end
