(* ===== verification/Spec2Isabelle.thy ===== *)
theory Spec2Isabelle
  imports Compilation Passes Programs TypeCheck Service Views Tools Repair
begin

text \<open>
  A model of tinypipe, a workflow engine written in Rust: programs in a restricted Python are
  compiled into plans (graphs of nodes), plans are stored with their versions, run by a virtual
  machine that can pause and resume, published as HTTP routes and inspected.

  \<^bold>\<open>The parts and how they work together.\<close>  A program is checked by the sanitizer, translated to an
  \<open>ExecutionPlan\<close> by the transformer, checked by the validator, optimised and encoded by the code
  generator as a \<open>CompiledPlan\<close> (FlatBuffers).  The storage keeps graphs, the versions of their code
  with the plans, executions with their checkpoints, steps and profiles.  \<open>CompiledExecutor\<close> runs a
  plan in its topological order; its CALL nodes reach the tool table and, for targets with the
  prefix \<open>subgraph:\<close>, the subgraph registry, which loads another plan from the storage and runs it.
  The server keeps tables of plans and routes made from the storage, and runs, pauses and resumes
  executions for its end points; the scheduler resumes paused executions.

  \<^bold>\<open>Theories and sources\<close> (below \<open>src/\<close>).
  \<^item> \<open>Prelude\<close>, \<open>Strings\<close>, \<open>Floats\<close>: Rust's integers (\<open>u32\<close>, \<open>i64\<close> as numbers with explicit wrapping),
    results as sums (\<open>Inl\<close> is the error), hash maps as association lists, \<open>str\<close> as UTF-8 bytes, \<open>f64\<close>.
  \<^item> \<open>Values\<close>, \<open>Contexts\<close>: \<open>Value\<close>, \<open>Scope\<close>, \<open>Context\<close> of \<open>tinypipe-api/src/types.rs\<close>.
  \<^item> \<open>Plans\<close>, \<open>Graphs\<close>, \<open>Search\<close>: the two plan formats of \<open>tinypipe-ir\<close> (\<open>plan.rs\<close>, \<open>compiled.rs\<close>), Kahn's
    algorithm and the searches of the validator and the executor.  \<open>PlanView\<close>, \<open>Views\<close>: \<open>plan_view.rs\<close>,
    \<open>plan_dump.rs\<close>; \<open>EnvDeps\<close>: \<open>env_deps.rs\<close>.
  \<^item> \<open>Eval\<close>, \<open>Errors\<close>, \<open>Executor\<close>, \<open>Pause\<close>: \<open>tinypipe-vm\<close>, one definition per opcode arm, \<open>run_loop\<close>,
    \<open>run_parallel\<close>, \<open>execute_with\<close>, \<open>resume\<close>.  \<open>Frames\<close>, \<open>Runs\<close>, \<open>Termination\<close>, \<open>Accounting\<close>, \<open>Progress\<close>: what
    steps keep, runs with and without pauses, the fuel, what a run reports, progress of resumed runs.
  \<^item> \<open>Syntax\<close>, \<open>Sanitizer\<close>, \<open>Transform\<close>, \<open>Translation\<close>, \<open>Validator\<close>, \<open>TypeCheck\<close>, \<open>Optimizer\<close>, \<open>Folding\<close>,
    \<open>Passes\<close>, \<open>Codegen\<close>, \<open>Compilation\<close>, \<open>Pipeline\<close>, \<open>Repair\<close>: \<open>tinypipe-compiler\<close> with \<open>auto_repair.rs\<close>.
  \<^item> \<open>Env\<close>: \<open>tinypipe-env\<close>.  \<open>Storage\<close>, \<open>History\<close>: \<open>tinypipe-storage/src/lib.rs\<close>; a table is the list of
    its rows, an SQL statement a function on it.
  \<^item> \<open>Registry\<close>, \<open>Tools\<close>: \<open>mock.rs\<close>, \<open>registry.rs\<close> and the tools of \<open>tinypipe-tools\<close>.
  \<^item> \<open>Meta\<close>, \<open>Server\<close>, \<open>Publish\<close>, \<open>Api\<close>: \<open>meta.rs\<close>, \<open>state.rs\<close> with \<open>engine.rs\<close>, \<open>routes.rs\<close>, \<open>api.rs\<close> of
    \<open>tinypipe-server\<close>; \<open>Scheduler\<close>: \<open>tinypipe-scheduler\<close>; \<open>Insight\<close>: \<open>metrics.rs\<close> and \<open>profile.rs\<close>;
    \<open>Service\<close>: what the server as a whole promises.
  \<^item> \<open>Examples\<close>, \<open>Programs\<close> and this theory: concrete plans and programs, evaluated in the kernel, and the
    properties that span components.

  \<^bold>\<open>What the lemmas show.\<close>  Runs: a paused and resumed run equals the run without pause; runs end, and
  so does every sequence of resumed segments; a run follows the topological order within its budget;
  branches of PARALLEL do not disturb each other.  Compiler: the validator decides its declarative
  specification, validated plans run without failing look-ups, constant folding agrees with the
  evaluator, the sanitizer and the translation keep their invariants; where the code does not do what
  it promises, a counterexample is proved.  Storage: versions are numbered without gaps and never
  change, rollback restores, walks over forks end.  Server: the tables made by a reload match the
  storage and the publishing contract, paused executions survive the database.
  Locales state the interfaces between parts (stores of variables, Kahn's algorithm over an abstract
  graph, exploration, the store of executions) and are interpreted on the definitions of the model.

  \<^bold>\<open>Bounds and fuel.\<close>  \<open>node_fuel\<close> (one level per node) is enough for \<open>run_node\<close>, because only PARALLEL
  recurses and only into nodes it leads to; the fuel of the evaluator is the length of the expression;
  both are theorems.  \<open>view_fuel\<close> is the number of nodes, a path through hidden nodes that is longer
  repeats one, and the code does not return then.  \<open>validate_env\<close> and the recursion of subgraph runs
  take fuel: the first returns \<open>None\<close>, the second an error when it runs out (\<open>sv_depth\<close>), since the code
  recurses without a bound on graphs that call themselves.

  \<^bold>\<open>Parameters.\<close>  The Python parser (\<open>frontend\<close>); \<open>serde_json\<close> and FlatBuffers bytes (codecs); the world of
  a run: tools that reach outside, the clock, the byte size of values; the clock, UUIDs and durations
  of the server (\<open>server_io\<close>); case mapping outside ASCII.

  \<^bold>\<open>Not modelled.\<close>  I/O: the HTTP, PostgreSQL and SQLite tools, the daemon and its protocol, the
  language-model providers, the command line, start-up.  Generated FlatBuffers and protobuf code.
  Texts of reports.  Full-text search and migrations of the database.  The end points that only print
  (health, lists as JSON, reports).  Threads: branches of PARALLEL work on copies and are modelled one
  after the other; handlers of the server are atomic.  Serde attributes and logging.
\<close>

section \<open>Pausing and resuming\<close>



text \<open>a pause policy that does not make the run pause has no influence on it: a completed run has
  the result, and a failed one the error, of the run without a policy.\<close>

theorem policy_without_pause:
  assumes "plan_sized p" "plan_indexed p"
    and "\<And>ck. execute_with p w inputs policy \<noteq> Inr (Paused ck)"
  shows "execute_with p w inputs policy = execute_with p w inputs pause_policy_default"
  by (rule unpaused_segment [OF assms])

theorem policy_without_pause_witness:
  "execute_with two_step_plan demo_world context_new (pause_after 5) =
     execute_with two_step_plan demo_world context_new pause_policy_default"
  using policy_without_pause [OF two_step_indexed(2,1), of demo_world context_new "pause_after 5"]
    two_step_unpaused by simp

text \<open>the default policy never pauses, so the \<open>unreachable!\<close> of \<open>execute\<close> is never reached:
  \<open>execute\<close> returns the result or the error of the run.\<close>

theorem execute_never_paused:
  "(execute p w inputs = Inr r \<longleftrightarrow> execute_with p w inputs pause_policy_default = Inr (Completed r)) \<and>
   (execute p w inputs = Inl e \<longleftrightarrow> execute_with p w inputs pause_policy_default = Inl e)"
proof (cases "execute_with p w inputs pause_policy_default")
  case (Inr out)
  with default_not_paused [of p w inputs] show ?thesis by (cases out) (auto simp: execute_def)
qed (simp add: execute_def)

section \<open>Termination\<close>

text \<open>C3: running a plan, from the start or from a checkpoint, always returns: neither the recursion of
  the interpreter through nested \<open>PARALLEL\<close> nodes nor that of the evaluator runs out of the
  fuel of the model, on any plan with fewer than 2 ^ 32 nodes and edges, whatever the world does.\<close>

theorem run_terminates:
  assumes "plan_sized p" "plan_indexed p" "world_ok w"
  shows "execute_with p w inputs policy \<noteq> Inl OutOfFuel \<and> resume p w ck policy \<noteq> Inl OutOfFuel"
  using execute_with_fuel [OF assms] resume_fuel [OF assms] by (simp add: fuel_ok_def)

theorem run_terminates_witness:
  "execute_with two_step_plan demo_world context_new (pause_after 1) \<noteq> Inl OutOfFuel"
  using run_terminates [OF two_step_indexed(2,1) demo_world_ok] by blast

text \<open>The fuel of \<open>run_node\<close> only bounds the nesting of \<open>PARALLEL\<close> nodes: any fuel above the number
  of nodes reachable from the node gives the same result, so the interpreter of the model is the
  unbounded recursion of the code.\<close>

theorem run_node_fuel_irrelevant:
  assumes "plan_indexed (e_plan ex)" "plan_acyclic (e_plan ex)"
    and "length (cp_nodes (e_plan ex)) < k" "length (cp_nodes (e_plan ex)) < m"
  shows "run_node k ex policy n st = run_node m ex policy n st"
  using rank_bound [of "e_plan ex" "cn_index n"] assms
  by (intro run_node_fuel_agree) auto

theorem run_node_fuel_irrelevant_witness:
  "run_node 3 (make_executor two_step_plan demo_world [0, 1]) None (cp_nodes two_step_plan ! 0)
       (initial_state two_step_plan context_new) =
     run_node 4 (make_executor two_step_plan demo_world [0, 1]) None (cp_nodes two_step_plan ! 0)
       (initial_state two_step_plan context_new)"
  using run_node_fuel_irrelevant [of "make_executor two_step_plan demo_world [0, 1]" 3 4]
    two_step_indexed topological_order_iff(1) [OF two_step_indexed(2)] demo_orders(1)
  by (simp add: make_executor_def two_step_plan_def demo_defs)

section \<open>What a run records\<close>

text \<open>C5: on a plan without \<open>PARALLEL\<close> nodes a completed run executed its nodes in the topological order
  of the plan, each at most once outside of loops, and its node count respects the budget.\<close>

theorem run_order_and_budget:
  assumes "plan_indexed p" "no_parallel p" "execute p w inputs = Inr r"
  shows "\<exists>ord js. topological_order p = Some ord \<and> subseq js ord \<and>
    er_execution_order r = map (node_id_at p) js \<and> er_node_count r \<le> node_budget p"
  by (rule execute_accounting [OF assms])

theorem run_order_and_budget_witness:
  "\<exists>r. execute two_step_plan demo_world context_new = Inr r \<and> er_node_count r \<le> node_budget two_step_plan"
proof -
  obtain r where r: "execute two_step_plan demo_world context_new = Inr r"
    using two_step_run by (simp add: execute_def)
  with run_order_and_budget [OF two_step_indexed(1,3) r] show ?thesis by blast
qed

text \<open>C12: with a \<open>PARALLEL\<close> node the budget does not bound the run: the counters of the branches are
  added without a check, and a completed run can count more nodes than the budget of its plan.\<close>

theorem parallel_exceeds_budget:
  "\<exists>p w inputs r. plan_indexed p \<and> execute p w inputs = Inr r \<and> node_budget p < er_node_count r"
proof -
  from parallel_run obtain c where "execute_with (parallel_plan 1) demo_world context_new
      pause_policy_default = Inr (Completed \<lparr>er_context = c, er_execution_order = [''p'', ''a'', ''b''],
        er_node_count = 3, er_output = None\<rparr>)" by blast
  then have "execute (parallel_plan 1) demo_world context_new = Inr \<lparr>er_context = c,
      er_execution_order = [''p'', ''a'', ''b''], er_node_count = 3, er_output = None\<rparr>"
    by (simp add: execute_def)
  moreover have "node_budget (parallel_plan 1) = 1" "plan_indexed (parallel_plan 1)"
    by (simp_all add: node_budget_def parallel_plan_def plan_indexed_def demo_defs nth_Cons')
  ultimately show ?thesis by (intro exI conjI) auto
qed

text \<open>C11: executing a \<open>LOOP\<close> node never changes the output of the run: a \<open>return\<close> inside a loop body
  ends the loop but its value does not become the result of the plan.\<close>

theorem loop_keeps_output:
  assumes "plan_indexed (e_plan ex)" "run_loop ex policy cursor n st = Inr (st', out)"
  shows "x_output st' = x_output st"
  by (rule run_loop_output [OF assms])

theorem loop_keeps_output_witness:
  "\<exists>st out. run_loop (make_executor loop_return_plan demo_world [0, 2, 1]) None None
     (cp_nodes loop_return_plan ! 0)
     (initial_state loop_return_plan context_new\<lparr>x_output := Some VNull\<rparr>) = Inr (st, out) \<and>
     map_of (x_outs st) 1 = Some (VInt 0) \<and> x_output st = Some VNull"
proof -
  from loop_return_loop obtain st out where r:
    "run_loop (make_executor loop_return_plan demo_world [0, 2, 1]) None None
       (cp_nodes loop_return_plan ! 0)
       (initial_state loop_return_plan context_new\<lparr>x_output := Some VNull\<rparr>) = Inr (st, out)"
    "map_of (x_outs st) 1 = Some (VInt 0)" by blast
  from loop_keeps_output [OF _ r(1)] loop_return_indexed have "x_output st = Some VNull"
    by (simp add: make_executor_def)
  with r show ?thesis by blast
qed

end
